(* ===== verification/Nx_Prelude.thy ===== *)
theory Nx_Prelude
  imports Main "HOL-Library.Word" "HOL-Library.Char_ord" "HOL-Library.List_Lexorder"
    "HOL-Library.AList" "HOL-Library.Multiset"
begin

text \<open>
  What every component of the development shares: the types of the model (bytes, Go strings,
  instants, durations), the pieces of Go's standard library the source uses on them
  (\<open>strings\<close>, \<open>strconv\<close>, 64-bit integer arithmetic), generic lemmas on lists and association
  lists, and the collections of rewrite rules the component proofs are run with.

  Go strings are byte sequences, so a \<^typ>\<open>string\<close> (a list of 8-bit characters) models them
  exactly. Instants are nanoseconds since the Unix epoch on an unbounded \<^typ>\<open>int\<close>;
  \<open>time.Duration\<close> is an \<open>int64\<close>, so every product or negation of durations is written with
  the wrap-around \<open>wrap64\<close>.
\<close>

named_theorems go_time \<open>durations and instants\<close>
named_theorems go_str \<open>Go strings\<close>

type_synonym byte = "8 word"
type_synonym time = int
type_synonym duration = int

section \<open>64-bit signed arithmetic\<close>

definition wrap64 :: "int \<Rightarrow> int" where
  "wrap64 x = (x + 2 ^ 63) mod 2 ^ 64 - 2 ^ 63"

lemma wrap64_id: "- (2 ^ 63) \<le> x \<Longrightarrow> x < 2 ^ 63 \<Longrightarrow> wrap64 x = x"
  by (simp add: wrap64_def)

lemma wrap64_bounds: "- (2 ^ 63) \<le> wrap64 x" "wrap64 x < 2 ^ 63"
  by (simp_all add: wrap64_def)

text \<open>The written-out formula is the signed reading of a 64-bit machine word.\<close>

lemma wrap64_sint: "wrap64 x = sint (word_of_int x :: 64 word)"
  by (simp add: wrap64_def sint_word_ariths signed_take_bit_eq_take_bit_shift take_bit_eq_mod
      sint_sbintrunc')

text \<open>\<open>time.Duration\<close> arithmetic: products and negations wrap around.\<close>

definition dur_mul :: "duration \<Rightarrow> duration \<Rightarrow> duration" where
  "dur_mul a b = wrap64 (a * b)"

definition dur_neg :: "duration \<Rightarrow> duration" where
  "dur_neg a = wrap64 (- a)"

definition nano_second :: duration where "nano_second = 1000000000"

definition nano_minute :: duration where "nano_minute = 60000000000"

definition nano_hour :: duration where "nano_hour = 3600000000000"

text \<open>\<open>x / y\<close> on Go integers: the quotient of the magnitudes, with the sign of the product.\<close>

definition go_quot :: "int \<Rightarrow> int \<Rightarrow> int" where
  "go_quot x y =
     (let m = \<bar>x\<bar> div \<bar>y\<bar> in if 0 \<le> x \<and> 0 \<le> y \<or> x < 0 \<and> y < 0 then m else - m)"

lemma go_quot_nonneg: "0 \<le> x \<Longrightarrow> 0 < y \<Longrightarrow> go_quot x y = x div y"
  by (simp add: go_quot_def)

lemma go_quot_exact: "0 < y \<Longrightarrow> go_quot (x * y) y = x"
  by (auto simp: go_quot_def Let_def abs_mult zero_le_mult_iff mult_less_0_iff)

lemma dur_mul_exact [go_time]:
  "- (2 ^ 63) \<le> a * b \<Longrightarrow> a * b < 2 ^ 63 \<Longrightarrow> dur_mul a b = a * b"
  by (simp add: dur_mul_def wrap64_id)

lemma dur_neg_exact [go_time]:
  "- (2 ^ 63) < a \<Longrightarrow> a \<le> 2 ^ 63 \<Longrightarrow> dur_neg a = - a"
  by (simp add: dur_neg_def wrap64_id)

text \<open>\<open>Time.Add\<close> and \<open>Time.Before\<close>.\<close>

definition time_add :: "time \<Rightarrow> duration \<Rightarrow> time" where
  "time_add t d = t + d"

definition time_before :: "time \<Rightarrow> time \<Rightarrow> bool" where
  "time_before t u \<longleftrightarrow> t < u"

definition time_after :: "time \<Rightarrow> time \<Rightarrow> bool" where
  "time_after t u \<longleftrightarrow> u < t"

declare time_add_def [go_time] time_before_def [go_time] time_after_def [go_time]

text \<open>The zero \<open>time.Time\<close> is 1 January of the year 1, in nanoseconds before the epoch.\<close>

definition zero_time :: time where "zero_time = - 62135596800 * 1000000000"

section \<open>The package strings\<close>

definition has_prefix :: "string \<Rightarrow> string \<Rightarrow> bool" where
  "has_prefix p s \<longleftrightarrow> take (length p) s = p"

definition trim_prefix :: "string \<Rightarrow> string \<Rightarrow> string" where
  "trim_prefix p s = (if has_prefix p s then drop (length p) s else s)"

fun str_contains :: "string \<Rightarrow> string \<Rightarrow> bool" where
  "str_contains sub [] \<longleftrightarrow> sub = []"
| "str_contains sub (c # s) \<longleftrightarrow> has_prefix sub (c # s) \<or> str_contains sub s"

lemma has_prefix_append [simp, go_str]: "has_prefix p (p @ s)"
  by (simp add: has_prefix_def)

lemma trim_prefix_append [simp, go_str]: "trim_prefix p (p @ s) = s"
  by (simp add: trim_prefix_def)

lemma has_prefixE: "has_prefix p s \<Longrightarrow> (\<And>r. s = p @ r \<Longrightarrow> P) \<Longrightarrow> P"
  by (metis append_take_drop_id has_prefix_def)

lemma has_prefix_set: "has_prefix p s \<Longrightarrow> set p \<subseteq> set s"
  by (metis has_prefix_def set_take_subset)

lemma str_contains_set: "str_contains sub s \<Longrightarrow> set sub \<subseteq> set s"
  by (induction sub s rule: str_contains.induct) (auto dest!: has_prefix_set)

lemma str_contains_append: "str_contains sub (xs @ sub @ ys)"
proof (induction xs)
  case Nil
  have "has_prefix sub (sub @ ys)" by simp
  then show ?case by (cases "sub @ ys") auto
next
  case (Cons x xs)
  then show ?case by simp
qed

text \<open>
  \<open>strings.TrimSpace\<close> strips the runes \<open>unicode.IsSpace\<close> accepts, here as the UTF-8 bytes
  that encode them: the six ASCII ones and the eighteen others.
\<close>

definition space_runes :: "string list" where
  "space_runes =
     [[CHR 0x09], [CHR 0x0A], [CHR 0x0B], [CHR 0x0C], [CHR 0x0D], [CHR 0x20],
      [CHR 0xC2, CHR 0x85], [CHR 0xC2, CHR 0xA0], [CHR 0xE1, CHR 0x9A, CHR 0x80],
      [CHR 0xE2, CHR 0x80, CHR 0x80], [CHR 0xE2, CHR 0x80, CHR 0x81],
      [CHR 0xE2, CHR 0x80, CHR 0x82], [CHR 0xE2, CHR 0x80, CHR 0x83],
      [CHR 0xE2, CHR 0x80, CHR 0x84], [CHR 0xE2, CHR 0x80, CHR 0x85],
      [CHR 0xE2, CHR 0x80, CHR 0x86], [CHR 0xE2, CHR 0x80, CHR 0x87],
      [CHR 0xE2, CHR 0x80, CHR 0x88], [CHR 0xE2, CHR 0x80, CHR 0x89],
      [CHR 0xE2, CHR 0x80, CHR 0x8A], [CHR 0xE2, CHR 0x80, CHR 0xA8],
      [CHR 0xE2, CHR 0x80, CHR 0xA9], [CHR 0xE2, CHR 0x80, CHR 0xAF],
      [CHR 0xE2, CHR 0x81, CHR 0x9F], [CHR 0xE3, CHR 0x80, CHR 0x80]]"

text \<open>Strip matching runes from the front, one per unit of a length bound.\<close>

fun strip_runes :: "nat \<Rightarrow> string list \<Rightarrow> string \<Rightarrow> string" where
  "strip_runes 0 rs s = s"
| "strip_runes (Suc n) rs s =
     (case find (\<lambda>r. has_prefix r s) rs of
        None \<Rightarrow> s
      | Some r \<Rightarrow> strip_runes n rs (drop (length r) s))"

definition trim_space :: "string \<Rightarrow> string" where
  "trim_space s =
     (let l = strip_runes (length s) space_runes s
      in rev (strip_runes (length l) (map rev space_runes) (rev l)))"

text \<open>\<open>strings.ToLower\<close> on ASCII letters; other bytes are kept.\<close>

definition lower_char :: "char \<Rightarrow> char" where
  "lower_char c =
     (if CHR ''A'' \<le> c \<and> c \<le> CHR ''Z'' then char_of (of_char c + (32 :: nat)) else c)"

definition to_lower :: "string \<Rightarrow> string" where
  "to_lower s = map lower_char s"

section \<open>The package strconv\<close>

definition digit_char :: "nat \<Rightarrow> char" where
  "digit_char d = char_of (48 + d)"

definition is_digit :: "char \<Rightarrow> bool" where
  "is_digit c \<longleftrightarrow> CHR ''0'' \<le> c \<and> c \<le> CHR ''9''"

definition digit_val :: "char \<Rightarrow> nat" where
  "digit_val c = of_char c - 48"

fun show_nat :: "nat \<Rightarrow> string" where
  "show_nat n =
     (if n < 10 then [digit_char n] else show_nat (n div 10) @ [digit_char (n mod 10)])"

declare show_nat.simps [simp del]

definition format_int :: "int \<Rightarrow> string" where
  "format_int i = (if i < 0 then CHR ''-'' # show_nat (nat (- i)) else show_nat (nat i))"

definition parse_nat :: "string \<Rightarrow> nat option" where
  "parse_nat s =
     (if s \<noteq> [] \<and> list_all is_digit s
      then Some (foldl (\<lambda>n c. 10 * n + digit_val c) 0 s) else None)"

text \<open>\<open>strconv.ParseInt(s, 10, 64)\<close> (and \<open>strconv.Atoi\<close>): sign, digits, 64-bit range.\<close>

definition parse_int :: "string \<Rightarrow> int option" where
  "parse_int s =
     (let (neg, ds) = (case s of
            [] \<Rightarrow> (False, [])
          | c # r \<Rightarrow> if c = CHR ''-'' then (True, r) else if c = CHR ''+'' then (False, r)
                    else (False, s))
      in case parse_nat ds of
           None \<Rightarrow> None
         | Some n \<Rightarrow>
             (let i = (if neg then - int n else int n)
              in if - (2 ^ 63) \<le> i \<and> i < 2 ^ 63 then Some i else None))"

lemma of_char_digit_char [simp]: "d < 10 \<Longrightarrow> of_char (digit_char d) = (48 + d :: nat)"
  by (simp add: digit_char_def)

lemma digit_char_is_digit [simp]: "d < 10 \<Longrightarrow> is_digit (digit_char d)"
  by (simp add: is_digit_def less_eq_char_def)

lemma digit_val_digit_char [simp]: "d < 10 \<Longrightarrow> digit_val (digit_char d) = d"
  by (simp add: digit_val_def)

lemma show_nat_nonempty [simp]: "show_nat n \<noteq> []"
  by (subst show_nat.simps) simp

lemma show_nat_digits: "list_all is_digit (show_nat n)"
proof (induction n rule: show_nat.induct)
  case (1 n)
  then show ?case by (subst show_nat.simps) (simp add: list_all_append)
qed

lemma foldl_show_nat: "foldl (\<lambda>n c. 10 * n + digit_val c) 0 (show_nat n) = n"
proof (induction n rule: show_nat.induct)
  case (1 n)
  then show ?case by (subst show_nat.simps) simp
qed

lemma parse_show_nat [simp]: "parse_nat (show_nat n) = Some n"
  by (simp add: parse_nat_def show_nat_digits foldl_show_nat)

lemma is_digit_not_sign: "is_digit c \<Longrightarrow> c \<noteq> CHR ''-'' \<and> c \<noteq> CHR ''+''"
  by (auto simp: is_digit_def less_eq_char_def)

lemma show_nat_hd: "\<exists>c r. show_nat n = c # r \<and> is_digit c"
  using show_nat_digits [of n] by (cases "show_nat n") auto

lemma parse_format_int:
  assumes "- (2 ^ 63) \<le> i" "i < 2 ^ 63"
  shows "parse_int (format_int i) = Some i"
proof (cases "i < 0")
  case True
  then show ?thesis using assms by (simp add: parse_int_def format_int_def)
next
  case False
  obtain c r where cr: "show_nat (nat i) = c # r" "is_digit c"
    using show_nat_hd [of "nat i"] by blast
  then have "parse_nat (c # r) = Some (nat i)"
    by (metis parse_show_nat)
  then show ?thesis
    using False assms cr is_digit_not_sign [of c]
    by (simp add: parse_int_def format_int_def)
qed

lemma show_nat_inj [simp]: "show_nat m = show_nat n \<longleftrightarrow> m = n"
  by (metis foldl_show_nat)

section \<open>Lists and association lists\<close>

lemma find_Some_mem: "find P xs = Some x \<Longrightarrow> x \<in> set xs \<and> P x"
  by (auto simp: find_Some_iff)

lemma map_of_update [simp]:
  "map_of (AList.update k v al) = (map_of al)(k \<mapsto> v)"
  by (rule update_conv')

lemma map_of_delete [simp]:
  "map_of (AList.delete k al) = (map_of al)(k := None)"
  by (rule delete_conv')

lemma distinct_fst_update [simp]:
  "distinct (map fst al) \<Longrightarrow> distinct (map fst (AList.update k v al))"
  by (rule distinct_update)

lemma distinct_fst_delete [simp]:
  "distinct (map fst al) \<Longrightarrow> distinct (map fst (AList.delete k al))"
  by (rule distinct_delete)

lemma map_of_eq_Some_distinct:
  "distinct (map fst al) \<Longrightarrow> map_of al k = Some v \<longleftrightarrow> (k, v) \<in> set al"
  by (rule map_of_eq_Some_iff)

end
