(* ===== verification/GoPath.thy ===== *)
theory GoPath
  imports Nx_Prelude
begin

text \<open>
  The lexical path operations of Go's packages \<open>path\<close> and \<open>path/filepath\<close> (on Unix they
  agree): \<open>Clean\<close> and two-argument \<open>Join\<close>, as the storage backends use them to turn a
  directory or key prefix and a hash into a file name or an object key. A cleaned path is
  kept both as the string the code passes on and as its normal form, a flag for a leading
  slash with the list of elements, which is what the file system model is keyed by.
\<close>

section \<open>Splitting and joining at slashes\<close>

fun split_slash :: "string \<Rightarrow> string list" where
  "split_slash [] = [[]]"
| "split_slash (c # s) =
     (if c = CHR ''/'' then [] # split_slash s
      else (case split_slash s of [] \<Rightarrow> [[c]] | w # ws \<Rightarrow> (c # w) # ws))"

fun join_slash :: "string list \<Rightarrow> string" where
  "join_slash [] = []"
| "join_slash [w] = w"
| "join_slash (w # v # ws) = w @ CHR ''/'' # join_slash (v # ws)"

lemma split_slash_nonempty [simp]: "split_slash s \<noteq> []"
  by (induction s) (auto split: list.splits)

lemma split_slash_noslash: "CHR ''/'' \<notin> set s \<Longrightarrow> split_slash s = [s]"
  by (induction s) auto

lemma split_slash_append: "split_slash (a @ CHR ''/'' # b) = split_slash a @ split_slash b"
  by (induction a) (auto split: list.splits)

lemma split_slash_elems: "e \<in> set (split_slash s) \<Longrightarrow> CHR ''/'' \<notin> set e"
  by (induction s arbitrary: e) (auto split: if_splits list.splits)

lemma split_join_slash:
  "ws \<noteq> [] \<Longrightarrow> \<forall>w \<in> set ws. CHR ''/'' \<notin> set w \<Longrightarrow> split_slash (join_slash ws) = ws"
  by (induction ws rule: join_slash.induct)
     (auto simp: split_slash_noslash split_slash_append)

lemma join_slash_snoc:
  "ws \<noteq> [] \<Longrightarrow> join_slash (ws @ [w]) = join_slash ws @ CHR ''/'' # w"
  by (induction ws rule: join_slash.induct) auto

section \<open>Clean and Join\<close>

text \<open>
  \<open>Clean\<close> walks over the elements with the output so far as a stack: empty elements and
  \<open>.\<close> are dropped, \<open>..\<close> removes the element before it, is dropped at the root of a rooted
  path, and is kept at the front of a relative one.
\<close>

fun clean_elems :: "bool \<Rightarrow> string list \<Rightarrow> string list \<Rightarrow> string list" where
  "clean_elems rooted st [] = rev st"
| "clean_elems rooted st (e # es) =
     (if e = [] \<or> e = ''.'' then clean_elems rooted st es
      else if e = ''..'' then
        (case st of
           [] \<Rightarrow> (if rooted then clean_elems rooted [] es else clean_elems rooted [e] es)
         | prev # rest \<Rightarrow>
             (if prev = ''..'' then clean_elems rooted (e # st) es
              else clean_elems rooted rest es))
      else clean_elems rooted (e # st) es)"

type_synonym path_nf = "bool \<times> string list"

definition path_norm :: "string \<Rightarrow> path_nf" where
  "path_norm s =
     (let rooted = (s \<noteq> [] \<and> hd s = CHR ''/'')
      in (rooted, clean_elems rooted [] (split_slash s)))"

fun path_render :: "path_nf \<Rightarrow> string" where
  "path_render (rooted, cs) =
     (if cs = [] then (if rooted then ''/'' else ''.'')
      else (if rooted then ''/'' else []) @ join_slash cs)"

definition path_clean :: "string \<Rightarrow> string" where
  "path_clean s = path_render (path_norm s)"

definition path_join :: "string \<Rightarrow> string \<Rightarrow> string" where
  "path_join a b =
     (if a = [] then (if b = [] then [] else path_clean b)
      else path_clean (a @ CHR ''/'' # b))"

text \<open>A name that denotes one entry of a directory.\<close>

definition plain_name :: "string \<Rightarrow> bool" where
  "plain_name n \<longleftrightarrow> n \<noteq> [] \<and> n \<noteq> ''.'' \<and> n \<noteq> ''..'' \<and> CHR ''/'' \<notin> set n"

section \<open>Normal forms\<close>

text \<open>The \<open>..\<close> elements stand in front, and only in a relative path.\<close>

fun dots_front :: "bool \<Rightarrow> string list \<Rightarrow> bool" where
  "dots_front rooted [] \<longleftrightarrow> True"
| "dots_front rooted (e # es) \<longleftrightarrow>
     (if e = ''..'' then \<not> rooted \<and> dots_front rooted es else ''..'' \<notin> set es)"

definition elem_ok :: "string \<Rightarrow> bool" where
  "elem_ok e \<longleftrightarrow> e \<noteq> [] \<and> e \<noteq> ''.'' \<and> CHR ''/'' \<notin> set e"

fun path_normal :: "path_nf \<Rightarrow> bool" where
  "path_normal (rooted, cs) \<longleftrightarrow> list_all elem_ok cs \<and> dots_front rooted cs"

lemma dots_front_nodots: "''..'' \<notin> set es \<Longrightarrow> dots_front rooted es"
  by (cases es) auto

lemma dots_front_snoc:
  "e \<noteq> ''..'' \<Longrightarrow> dots_front rooted es \<Longrightarrow> dots_front rooted (es @ [e])"
  by (induction es) auto

lemma dots_front_butlast: "dots_front rooted (es @ [e]) \<Longrightarrow> dots_front rooted es"
  by (induction es) (auto split: if_splits)

lemma dots_front_dup:
  "dots_front rooted (es @ [''..'']) \<Longrightarrow> dots_front rooted (es @ [''..'', ''..''])"
  by (induction es) (auto split: if_splits)

lemma clean_elems_normal:
  assumes "\<forall>e \<in> set es. CHR ''/'' \<notin> set e"
    and "list_all elem_ok st" "dots_front rooted (rev st)"
  shows "list_all elem_ok (clean_elems rooted st es) \<and> dots_front rooted (clean_elems rooted st es)"
  using assms
proof (induction rooted st es rule: clean_elems.induct)
  case (1 rooted st)
  then show ?case by (simp add: list_all_iff)
next
  case (2 rooted st e es)
  consider (skip) "e = [] \<or> e = ''.''" | (up) "e = ''..''" | (plain) "e \<noteq> []" "e \<noteq> ''.''" "e \<noteq> ''..''"
    by blast
  then show ?case
  proof cases
    case skip
    then show ?thesis using "2.prems" "2.IH"(1) by auto
  next
    case up
    then have ok: "elem_ok e" by (simp add: elem_ok_def)
    show ?thesis
    proof (cases st)
      case Nil
      then show ?thesis using up ok "2.prems" "2.IH"(2,3) by auto
    next
      case (Cons prev rest)
      then show ?thesis
        using up ok "2.prems" "2.IH"(4,5) dots_front_butlast [of rooted "rev rest" prev]
          dots_front_dup [of rooted "rev rest"]
        by auto
    qed
  next
    case plain
    then show ?thesis
      using "2.prems" "2.IH"(6) by (auto simp: elem_ok_def intro: dots_front_snoc)
  qed
qed

lemma path_norm_normal: "path_normal (path_norm s)"
  unfolding path_norm_def Let_def path_normal.simps
  by (rule clean_elems_normal) (auto dest: split_slash_elems)

lemma clean_elems_nodots:
  "list_all elem_ok es \<Longrightarrow> ''..'' \<notin> set es \<Longrightarrow> clean_elems rooted st es = rev st @ es"
  by (induction es arbitrary: st) (auto simp: elem_ok_def)

lemma clean_elems_id:
  "list_all elem_ok es \<Longrightarrow> dots_front rooted es \<Longrightarrow> set st \<subseteq> {''..''} \<Longrightarrow>
     clean_elems rooted st es = rev st @ es"
proof (induction es arbitrary: st)
  case Nil
  then show ?case by simp
next
  case (Cons e es)
  show ?case
  proof (cases "e = ''..''")
    case True
    then show ?thesis using Cons.prems Cons.IH [of "e # st"] by (cases st) auto
  next
    case False
    then show ?thesis using Cons.prems clean_elems_nodots [of "e # es" rooted st] by auto
  qed
qed

lemma join_slash_hd:
  "cs \<noteq> [] \<Longrightarrow> list_all elem_ok cs \<Longrightarrow>
     join_slash cs \<noteq> [] \<and> hd (join_slash cs) \<noteq> CHR ''/''"
proof (induction cs rule: join_slash.induct)
  case (2 w)
  then show ?case by (cases w) (auto simp: elem_ok_def)
next
  case (3 w v ws)
  then show ?case by (cases w) (auto simp: elem_ok_def)
qed simp

lemma path_norm_render:
  assumes "path_normal p"
  shows "path_norm (path_render p) = p"
proof (cases p)
  case (Pair r cs)
  with assms have ok: "list_all elem_ok cs" "dots_front r cs" by auto
  have noslash: "\<forall>w \<in> set cs. CHR ''/'' \<notin> set w"
    using ok by (auto simp: list_all_iff elem_ok_def)
  show ?thesis
  proof (cases "cs = []")
    case True
    then show ?thesis using Pair by (auto simp: path_norm_def)
  next
    case False
    note hd = join_slash_hd [OF False ok(1)]
    have "clean_elems r [] cs = cs" using clean_elems_id [OF ok, of "[]"] by simp
    then show ?thesis
      using Pair False hd split_join_slash [OF False noslash] by (auto simp: path_norm_def Let_def)
  qed
qed

lemma path_norm_clean [simp]: "path_norm (path_clean s) = path_norm s"
  by (simp add: path_clean_def path_norm_render path_norm_normal)

lemma path_clean_idem: "path_clean (path_clean s) = path_clean s"
  by (simp add: path_clean_def [of "path_clean s"]) (simp add: path_clean_def)

section \<open>Joining a directory and a plain name\<close>

lemma clean_elems_snoc:
  "plain_name n \<Longrightarrow> clean_elems rooted st (es @ [n]) = clean_elems rooted st es @ [n]"
  by (induction rooted st es rule: clean_elems.induct)
     (auto simp: plain_name_def split: list.splits)

lemma path_norm_child:
  assumes "d \<noteq> []" "plain_name n"
  shows "path_norm (d @ CHR ''/'' # n) = (fst (path_norm d), snd (path_norm d) @ [n])"
  using assms
  by (simp add: path_norm_def Let_def split_slash_append split_slash_noslash plain_name_def
      clean_elems_snoc [unfolded plain_name_def])

lemma path_norm_join:
  assumes "d \<noteq> []" "plain_name n"
  shows "path_norm (path_join d n) = (fst (path_norm d), snd (path_norm d) @ [n])"
  using assms by (simp add: path_join_def path_norm_child)

lemma path_join_inj:
  assumes "d \<noteq> []" "plain_name n" "plain_name m" "path_join d n = path_join d m"
  shows "n = m"
proof -
  have "path_norm (path_join d n) = path_norm (path_join d m)" using assms(4) by simp
  then show ?thesis using assms(1-3) by (simp add: path_norm_join)
qed

text \<open>When the directory is clean already and not a lone dot or slash, \<open>Join\<close> concatenates.\<close>

definition clean_prefix :: "string \<Rightarrow> bool" where
  "clean_prefix d \<longleftrightarrow> path_clean d = d \<and> d \<noteq> ''.'' \<and> d \<noteq> ''/''"

lemma clean_prefix_nonempty: "clean_prefix d \<Longrightarrow> d \<noteq> []"
  by (auto simp: clean_prefix_def path_clean_def path_norm_def)

lemma path_join_clean:
  assumes "clean_prefix d" "plain_name n"
  shows "path_join d n = d @ CHR ''/'' # n"
proof -
  obtain r cs where rc: "path_norm d = (r, cs)" by fastforce
  have d: "d = path_render (r, cs)" "d \<noteq> ''.''" "d \<noteq> ''/''"
    using assms(1) rc by (simp_all add: clean_prefix_def path_clean_def)
  then have cs: "cs \<noteq> []" by (auto split: if_splits)
  have "path_norm (d @ CHR ''/'' # n) = (r, cs @ [n])"
    using path_norm_child [OF clean_prefix_nonempty [OF assms(1)] assms(2)] rc by simp
  then have "path_clean (d @ CHR ''/'' # n) = path_render (r, cs @ [n])"
    by (simp only: path_clean_def)
  also have "\<dots> = d @ CHR ''/'' # n"
    using cs by (simp add: d(1) join_slash_snoc)
  finally show ?thesis
    using clean_prefix_nonempty [OF assms(1)] by (simp add: path_join_def)
qed

end
