(* ===== verification/Storage.thy ===== *)
theory Storage
  imports GoPath
begin

text \<open>
  The storage interface of \<open>internal/storage/storage.go\<close>: its errors, the entries and pages a
  listing returns, the hash check that guards every key, the readers an upload or download
  moves bytes with, and the method table of the interface \<open>Backend\<close>. The locales state what
  the clients of a backend (the cache server, the admin API, the janitor) rely on.
\<close>

section \<open>Errors, entries, readers\<close>

datatype storage_err = ErrNotFound | ErrAlreadyExists | ErrOther string

record entry =
  e_hash :: string
  e_size :: int
  e_mod :: time

record list_page =
  page_entries :: "entry list"
  next_cursor :: string

text \<open>
  An \<open>io.Reader\<close>: the bytes it delivers, and whether it then fails instead of reporting the
  end of the stream.
\<close>

record reader =
  rd_data :: "byte list"
  rd_err :: bool

text \<open>
  \<open>io.Copy(dst, io.LimitReader(r, sz))\<close>: the bytes handed to \<open>dst\<close> and whether reading
  failed. A limited reader stops at its limit without looking for the end of \<open>r\<close>.
\<close>

definition copy_limit :: "reader \<Rightarrow> int \<Rightarrow> byte list \<times> bool" where
  "copy_limit r sz =
     (if sz \<le> int (length (rd_data r)) then (take (nat sz) (rd_data r), False)
      else (rd_data r, rd_err r))"

lemma copy_limit_full:
  "copy_limit r sz = (d, e) \<Longrightarrow> int (length d) = sz \<Longrightarrow> e \<Longrightarrow> False"
  by (auto simp: copy_limit_def split: if_splits)

lemma copy_limit_length: "copy_limit r sz = (d, e) \<Longrightarrow> 0 \<le> sz \<Longrightarrow> int (length d) \<le> sz"
  by (auto simp: copy_limit_def split: if_splits)

lemma copy_limit_take:
  "copy_limit r sz = (d, e) \<Longrightarrow> int (length d) = sz \<Longrightarrow> d = take (nat sz) (rd_data r)"
  by (auto simp: copy_limit_def split: if_splits)

text \<open>The page size where a caller names none.\<close>

definition default_list_limit :: int where "default_list_limit = 50"

section \<open>Valid hashes\<close>

text \<open>The regular expression \<open>^[a-zA-Z0-9_-]{1,128}$\<close>.\<close>

definition hash_char :: "char \<Rightarrow> bool" where
  "hash_char c \<longleftrightarrow>
     (CHR ''a'' \<le> c \<and> c \<le> CHR ''z'') \<or> (CHR ''A'' \<le> c \<and> c \<le> CHR ''Z'') \<or>
     (CHR ''0'' \<le> c \<and> c \<le> CHR ''9'') \<or> c = CHR ''_'' \<or> c = CHR ''-''"

definition valid_hash :: "string \<Rightarrow> bool" where
  "valid_hash h \<longleftrightarrow> 1 \<le> length h \<and> length h \<le> 128 \<and> list_all hash_char h"

lemma hash_char_not_special: "hash_char c \<Longrightarrow> c \<noteq> CHR ''/'' \<and> c \<noteq> CHR ''.''"
  by (auto simp: hash_char_def less_eq_char_def)

lemma valid_hash_chars: "valid_hash h \<Longrightarrow> c \<in> set h \<Longrightarrow> c \<noteq> CHR ''/'' \<and> c \<noteq> CHR ''.''"
  by (auto simp: valid_hash_def list_all_iff dest!: hash_char_not_special)

lemma valid_hash_plain: "valid_hash h \<Longrightarrow> plain_name h"
  using valid_hash_chars [of h "CHR ''.''"] valid_hash_chars [of h "CHR ''/''"]
  by (auto simp: plain_name_def valid_hash_def)

text \<open>Temporary upload files carry this infix; a key of the store never does.\<close>

definition tmp_infix :: string where "tmp_infix = ''.tmp-''"

definition store_key :: "string \<Rightarrow> bool" where
  "store_key n \<longleftrightarrow> plain_name n \<and> \<not> str_contains tmp_infix n"

lemma valid_hash_store_key: "valid_hash h \<Longrightarrow> store_key h"
  using str_contains_set [of tmp_infix h] valid_hash_chars [of h "CHR ''.''"]
  by (auto simp: store_key_def valid_hash_plain tmp_infix_def)

lemma store_key_plain: "store_key n \<Longrightarrow> plain_name n"
  by (simp add: store_key_def)

lemma store_key_nonempty: "store_key n \<Longrightarrow> n \<noteq> []"
  by (simp add: store_key_def plain_name_def)

section \<open>The interface Backend\<close>

text \<open>
  A Go interface value is a table of methods over the state they work on. \<open>Get\<close> hands out
  the body as a reader, with the size it announces.
\<close>

record 'w backend_if =
  b_exists :: "string \<Rightarrow> 'w \<Rightarrow> (storage_err + bool) \<times> 'w"
  b_put :: "string \<Rightarrow> reader \<Rightarrow> int \<Rightarrow> 'w \<Rightarrow> (storage_err + unit) \<times> 'w"
  b_get :: "string \<Rightarrow> 'w \<Rightarrow> (storage_err + reader \<times> int) \<times> 'w"
  b_delete :: "string \<Rightarrow> 'w \<Rightarrow> (storage_err + unit) \<times> 'w"
  b_list :: "string \<Rightarrow> int \<Rightarrow> 'w \<Rightarrow> (storage_err + list_page) \<times> 'w"

text \<open>The artifacts a store holds: bytes and modification time per key.\<close>

type_synonym blob_view = "string \<rightharpoonup> byte list \<times> time"

text \<open>
  The contract of \<open>Backend\<close>: a store is seen as a finite map from keys to artifacts, a hash
  is written once and never overwritten, and a read delivers the stored bytes unless reading
  fails. A failing request may have taken effect (a lost answer).
\<close>

locale guarded_store =
  fixes bk :: "'w backend_if"
    and view :: "'w \<Rightarrow> blob_view"
    and ok :: "'w \<Rightarrow> bool"
  assumes exists_law:
      "ok w \<Longrightarrow> store_key h \<Longrightarrow> b_exists bk h w = (res_e, w') \<Longrightarrow>
         ok w' \<and> view w' = view w \<and> (\<forall>b. res_e = Inr b \<longrightarrow> b = (view w h \<noteq> None))"
    and put_guard:
      "ok w \<Longrightarrow> store_key h \<Longrightarrow> b_put bk h r sz w = (res_p, w') \<Longrightarrow>
         ok w' \<and> (\<forall>k. k \<noteq> h \<or> view w h \<noteq> None \<longrightarrow> view w' k = view w k) \<and>
         (res_p = Inl ErrAlreadyExists \<longrightarrow> view w h \<noteq> None) \<and>
         (\<forall>u. res_p = Inr u \<and> 0 \<le> sz \<and> sz \<le> int (length (rd_data r)) \<longrightarrow>
            (\<exists>t. view w' = (view w)(h \<mapsto> (take (nat sz) (rd_data r), t))))"
    and put_present:
      "ok w \<Longrightarrow> store_key h \<Longrightarrow> view w h \<noteq> None \<Longrightarrow> \<exists>e. fst (b_put bk h r sz w) = Inl e"
    and get_law:
      "ok w \<Longrightarrow> store_key h \<Longrightarrow> b_get bk h w = (res_g, w') \<Longrightarrow>
         ok w' \<and> view w' = view w \<and>
         (case res_g of
            Inr (r, n) \<Rightarrow> (\<exists>d t. view w h = Some (d, t) \<and> n = int (length d) \<and>
               (if rd_err r then \<exists>k. rd_data r = take k d else rd_data r = d))
          | Inl e \<Rightarrow> (e = ErrNotFound \<longrightarrow> view w h = None))"
    and delete_law:
      "ok w \<Longrightarrow> store_key h \<Longrightarrow> b_delete bk h w = (res_d, w') \<Longrightarrow>
         ok w' \<and> view w' \<in> {view w, (view w)(h := None)} \<and>
         (case res_d of
            Inr _ \<Rightarrow> view w h \<noteq> None \<and> view w' = (view w)(h := None)
          | Inl e \<Rightarrow> (e = ErrNotFound \<longrightarrow> view w h = None))"
    and view_keys: "ok w \<Longrightarrow> view w h \<noteq> None \<Longrightarrow> store_key h"
    and view_finite: "ok w \<Longrightarrow> finite (dom (view w))"
begin

text \<open>No upload changes an artifact that is stored, whatever it answers.\<close>

lemma put_immutable:
  assumes "ok w" "store_key h" "b_put bk h r sz w = (res, w')" "view w k = Some a"
  shows "view w' k = Some a"
  using put_guard [OF assms(1-3)] assms(4) by (cases "k = h") auto

text \<open>
  A complete upload that succeeds, followed by a download that reads to the end, gives the
  bytes back.
\<close>

lemma put_get:
  assumes "ok w" "store_key h" "b_put bk h r sz w = (Inr u, w1)"
    and "0 \<le> sz" "sz \<le> int (length (rd_data r))"
    and "b_get bk h w1 = (Inr (r', n), w2)"
  shows "n = sz" "\<not> rd_err r' \<Longrightarrow> rd_data r' = take (nat sz) (rd_data r)"
proof -
  from put_guard [OF assms(1-3)] assms(4,5) have w1: "ok w1"
    and v: "\<exists>t. view w1 h = Some (take (nat sz) (rd_data r), t)" by auto
  from get_law [OF w1 assms(2,6)] v
  show "n = sz" "\<not> rd_err r' \<Longrightarrow> rd_data r' = take (nat sz) (rd_data r)"
    using assms(4,5) by auto
qed

text \<open>A deletion touches no other artifact.\<close>

lemma delete_other:
  assumes "ok w" "store_key h" "b_delete bk h w = (res, w')" "k \<noteq> h"
  shows "view w' k = view w k"
  using delete_law [OF assms(1-3)] assms(4) by auto

end

text \<open>Where uploads are atomic, one stores the whole announced length or nothing.\<close>

locale weak_store = guarded_store bk view ok
  for bk :: "'w backend_if" and view :: "'w \<Rightarrow> blob_view" and ok :: "'w \<Rightarrow> bool" +
  assumes put_law:
      "ok w \<Longrightarrow> store_key h \<Longrightarrow> b_put bk h r sz w = (res_p, w') \<Longrightarrow>
         (view w' = view w \<and> (\<forall>u. res_p \<noteq> Inr u) \<or>
          view w h = None \<and> 0 \<le> sz \<and> sz \<le> int (length (rd_data r)) \<and>
            (\<exists>t. view w' = (view w)(h \<mapsto> (take (nat sz) (rd_data r), t))))"
begin

lemma put_stores:
  assumes "ok w" "store_key h" "b_put bk h r sz w = (Inr u, w')"
  shows "ok w'" "view w h = None"
    "\<exists>t. view w' = (view w)(h \<mapsto> (take (nat sz) (rd_data r), t))"
  using put_law [OF assms] put_guard [OF assms] by auto

lemma put_whole:
  assumes "ok w" "store_key h" "b_put bk h r sz w = (res, w')" "view w' k \<noteq> view w k"
  shows "k = h" "\<exists>t. view w' h = Some (take (nat sz) (rd_data r), t)" "sz \<le> int (length (rd_data r))"
proof -
  from put_law [OF assms(1-3)] assms(4)
  have *: "sz \<le> int (length (rd_data r))"
    "\<exists>t. view w' = (view w)(h \<mapsto> (take (nat sz) (rd_data r), t))" by auto
  then show "k = h" "\<exists>t. view w' h = Some (take (nat sz) (rd_data r), t)" "sz \<le> int (length (rd_data r))"
    using assms(4) by (auto split: if_splits)
qed

end

text \<open>Where the medium answers for itself, a failing operation changes no artifact.\<close>

locale blob_store = weak_store bk view ok
  for bk :: "'w backend_if" and view :: "'w \<Rightarrow> blob_view" and ok :: "'w \<Rightarrow> bool" +
  assumes put_exact:
      "ok w \<Longrightarrow> store_key h \<Longrightarrow> b_put bk h r sz w = (Inl e, w') \<Longrightarrow> view w' = view w"
    and delete_exact:
      "ok w \<Longrightarrow> store_key h \<Longrightarrow> b_delete bk h w = (Inl e, w') \<Longrightarrow> view w' = view w"
begin

lemma put_fails:
  assumes "ok w" "store_key h" "b_put bk h r sz w = (Inl e, w')"
  shows "ok w'" "view w' = view w"
  using put_guard [OF assms] put_exact [OF assms] by auto

end

text \<open>
  Listing in key order: a page holds the keys after the cursor, and its cursor is empty exactly
  when nothing is left. \<open>reliable\<close> says that no request to the medium fails.
\<close>

locale ordered_store = blob_store bk view ok
  for bk :: "'w backend_if" and view :: "'w \<Rightarrow> blob_view" and ok :: "'w \<Rightarrow> bool" +
  fixes reliable :: "'w \<Rightarrow> bool"
  assumes delete_reliable:
      "ok w \<Longrightarrow> reliable w \<Longrightarrow> store_key h \<Longrightarrow>
         \<exists>w'. reliable w' \<and>
           b_delete bk h w = (if view w h = None then Inl ErrNotFound else Inr (), w')"
    and list_reliable:
      "ok w \<Longrightarrow> reliable w \<Longrightarrow> 0 < lim \<Longrightarrow>
         \<exists>w'. reliable w' \<and> ok w' \<and> view w' = view w \<and>
           b_list bk cur lim w =
             (let ks = filter (\<lambda>k. cur < k) (sorted_list_of_set (dom (view w)));
                  page = take (nat lim) ks
              in (Inr \<lparr>page_entries = map (\<lambda>k. \<lparr>e_hash = k,
                          e_size = int (length (fst (the (view w k)))),
                          e_mod = snd (the (view w k))\<rparr>) page,
                       next_cursor = (if nat lim < length ks then last page else [])\<rparr>, w'))"
begin

lemma delete_reliable_view:
  assumes "ok w" "reliable w" "store_key h" "b_delete bk h w = (res, w')"
  shows "ok w'" "reliable w'" "view w' = (view w)(h := None)"
    "res = (if view w h = None then Inl ErrNotFound else Inr ())"
proof -
  from delete_reliable [OF assms(1-3)] assms(4)
  show "reliable w'" and res: "res = (if view w h = None then Inl ErrNotFound else Inr ())"
    by auto
  from delete_law [OF assms(1,3,4)] res
  show "ok w'" "view w' = (view w)(h := None)"
    by (auto split: if_splits simp: fun_upd_idem)
qed

end

end
