(* ===== verification/GoOs.thy ===== *)
theory GoOs
  imports Storage
begin

text \<open>
  The file system calls of Go's package \<open>os\<close> that \<open>internal/storage/local.go\<close> makes, over a
  state of names and inodes: a name is a normal-form path, a file is an inode holding bytes and
  a modification time, so a hard link is a second name of the same inode and an open file
  outlives the removal of its name. Symbolic links and permissions are left out.

  Any call can fail for a reason of its own (an I/O error, a full disk): the field \<open>fs_io\<close>
  is the schedule of such failures, one item consumed per call, \<open>Some k\<close> a failure after \<open>k\<close>
  units of work. The random suffixes \<open>CreateTemp\<close> draws are the list \<open>fs_rands\<close>. A theorem
  about all states is therefore one about all schedules and all draws.
\<close>

section \<open>State\<close>

datatype node = FileNode nat | DirNode

record inode =
  i_data :: "byte list"
  i_mtime :: time

record fs =
  fs_names :: "(path_nf \<times> node) list"
  fs_inodes :: "(nat \<times> inode) list"
  fs_next :: nat
  fs_rands :: "nat list"
  fs_io :: "nat option list"
  fs_clock :: time
  fs_dirsize :: int

datatype os_err = ENotExist | EExist | EOther

definition path_parent :: "path_nf \<Rightarrow> path_nf" where
  "path_parent p = (fst p, butlast (snd p))"

definition path_child :: "path_nf \<Rightarrow> string \<Rightarrow> path_nf" where
  "path_child p n = (fst p, snd p @ [n])"

lemma path_parent_child [simp]: "path_parent (path_child p n) = p"
  by (simp add: path_parent_def path_child_def)

lemma path_child_inj [simp]: "path_child p n = path_child q m \<longleftrightarrow> p = q \<and> n = m"
  by (cases p; cases q) (auto simp: path_child_def)

lemma snd_path_child [simp]: "snd (path_child p n) \<noteq> []"
  by (simp add: path_child_def)

text \<open>The root and the working directory always exist.\<close>

definition fs_node :: "fs \<Rightarrow> path_nf \<Rightarrow> node option" where
  "fs_node f p = (if snd p = [] then Some DirNode else map_of (fs_names f) p)"

definition pop_io :: "fs \<Rightarrow> nat option \<times> fs" where
  "pop_io f = (case fs_io f of [] \<Rightarrow> (None, f) | x # xs \<Rightarrow> (x, f\<lparr>fs_io := xs\<rparr>))"

text \<open>Resolving a path: \<open>ENOENT\<close> for the empty path and for a missing name, another error
  (\<open>ENOTDIR\<close>) under something that is not a directory.\<close>

definition os_find :: "string \<Rightarrow> fs \<Rightarrow> os_err + node" where
  "os_find path f =
     (if path = [] then Inl ENotExist
      else (case fs_node f (path_parent (path_norm path)) of
              Some (FileNode _) \<Rightarrow> Inl EOther
            | _ \<Rightarrow> (case fs_node f (path_norm path) of
                      None \<Rightarrow> Inl ENotExist
                    | Some nd \<Rightarrow> Inr nd)))"

definition inode_of :: "fs \<Rightarrow> nat \<Rightarrow> inode" where
  "inode_of f i =
     (case map_of (fs_inodes f) i of None \<Rightarrow> \<lparr>i_data = [], i_mtime = 0\<rparr> | Some x \<Rightarrow> x)"

section \<open>Calls\<close>

record file_info =
  fi_dir :: bool
  fi_size :: int
  fi_mtime :: time

definition node_info :: "fs \<Rightarrow> node \<Rightarrow> file_info" where
  "node_info f nd =
     (case nd of
        DirNode \<Rightarrow> \<lparr>fi_dir = True, fi_size = fs_dirsize f, fi_mtime = fs_clock f\<rparr>
      | FileNode i \<Rightarrow> \<lparr>fi_dir = False, fi_size = int (length (i_data (inode_of f i))),
                       fi_mtime = i_mtime (inode_of f i)\<rparr>)"

definition os_stat :: "string \<Rightarrow> fs \<Rightarrow> (os_err + file_info) \<times> fs" where
  "os_stat path f0 =
     (case pop_io f0 of
        (Some _, f) \<Rightarrow> (Inl EOther, f)
      | (None, f) \<Rightarrow> (map_sum id (node_info f) (os_find path f), f))"

definition os_open :: "string \<Rightarrow> fs \<Rightarrow> (os_err + node) \<times> fs" where
  "os_open path f0 =
     (case pop_io f0 of
        (Some _, f) \<Rightarrow> (Inl EOther, f)
      | (None, f) \<Rightarrow> (os_find path f, f))"

text \<open>\<open>(*File).Stat\<close> on an open file.\<close>

definition file_stat :: "node \<Rightarrow> fs \<Rightarrow> (os_err + file_info) \<times> fs" where
  "file_stat nd f0 =
     (case pop_io f0 of
        (Some _, f) \<Rightarrow> (Inl EOther, f)
      | (None, f) \<Rightarrow> (Inr (node_info f nd), f))"

text \<open>The reader an open file is: a directory cannot be read, a read may fail part way.\<close>

definition file_reader :: "node \<Rightarrow> fs \<Rightarrow> reader \<times> fs" where
  "file_reader nd f0 =
     (case nd of
        DirNode \<Rightarrow> (\<lparr>rd_data = [], rd_err = True\<rparr>, f0)
      | FileNode i \<Rightarrow>
          (case pop_io f0 of
             (Some k, f) \<Rightarrow> (\<lparr>rd_data = take k (i_data (inode_of f i)), rd_err = True\<rparr>, f)
           | (None, f) \<Rightarrow> (\<lparr>rd_data = i_data (inode_of f i), rd_err = False\<rparr>, f)))"

text \<open>
  \<open>os.Remove\<close> unlinks a file, or removes an empty directory.
\<close>

definition has_children :: "path_nf \<Rightarrow> fs \<Rightarrow> bool" where
  "has_children p f \<longleftrightarrow> list_ex (\<lambda>(q, _). snd q \<noteq> [] \<and> path_parent q = p) (fs_names f)"

definition os_remove :: "string \<Rightarrow> fs \<Rightarrow> (os_err + unit) \<times> fs" where
  "os_remove path f0 =
     (case pop_io f0 of
        (Some _, f) \<Rightarrow> (Inl EOther, f)
      | (None, f) \<Rightarrow>
          (case os_find path f of
             Inl e \<Rightarrow> (Inl e, f)
           | Inr nd \<Rightarrow>
               (if nd = DirNode \<and> (snd (path_norm path) = [] \<or> has_children (path_norm path) f)
                then (Inl EOther, f)
                else (Inr (), f\<lparr>fs_names := AList.delete (path_norm path) (fs_names f)\<rparr>))))"

text \<open>
  \<open>os.CreateTemp(dir, prefix + "*")\<close>: up to 10000 random suffixes are tried until a name is
  free; the new empty file and its path come back. A prefix with a separator is refused.
\<close>

definition tmp_path :: "string \<Rightarrow> string \<Rightarrow> nat \<Rightarrow> string" where
  "tmp_path dir pre r = dir @ CHR ''/'' # pre @ show_nat r"

definition os_create_temp :: "string \<Rightarrow> string \<Rightarrow> fs \<Rightarrow> (os_err + string \<times> nat) \<times> fs" where
  "os_create_temp dir pre f0 =
     (case pop_io f0 of
        (Some _, f) \<Rightarrow> (Inl EOther, f)
      | (None, f) \<Rightarrow>
          (if dir = [] \<or> CHR ''/'' \<in> set pre then (Inl EOther, f)
           else (case fs_node f (path_norm dir) of
             None \<Rightarrow> (Inl ENotExist, f)
           | Some (FileNode _) \<Rightarrow> (Inl EOther, f)
           | Some DirNode \<Rightarrow>
               (case find (\<lambda>r. fs_node f (path_norm (tmp_path dir pre r)) = None)
                       (take 10000 (fs_rands f)) of
                  None \<Rightarrow> (Inl EExist, f)
                | Some r \<Rightarrow>
                    (Inr (tmp_path dir pre r, fs_next f),
                     f\<lparr>fs_names := AList.update (path_norm (tmp_path dir pre r))
                                     (FileNode (fs_next f)) (fs_names f),
                       fs_inodes := AList.update (fs_next f)
                                     \<lparr>i_data = [], i_mtime = fs_clock f\<rparr> (fs_inodes f),
                       fs_next := Suc (fs_next f),
                       fs_rands := tl (dropWhile (\<lambda>x. x \<noteq> r) (fs_rands f))\<rparr>)))))"

text \<open>Writing all the bytes of a new file: the number written, and whether writing failed.\<close>

definition os_write :: "nat \<Rightarrow> byte list \<Rightarrow> fs \<Rightarrow> (nat \<times> bool) \<times> fs" where
  "os_write i d f0 =
     (case pop_io f0 of
        (io, f) \<Rightarrow>
          (let w = (case io of None \<Rightarrow> d | Some k \<Rightarrow> take k d)
           in ((length w, io \<noteq> None),
               f\<lparr>fs_inodes := AList.update i \<lparr>i_data = w, i_mtime = fs_clock f\<rparr> (fs_inodes f)\<rparr>)))"

definition os_close :: "fs \<Rightarrow> bool \<times> fs" where
  "os_close f0 = (case pop_io f0 of (io, f) \<Rightarrow> (io \<noteq> None, f))"

definition os_link :: "string \<Rightarrow> string \<Rightarrow> fs \<Rightarrow> (os_err + unit) \<times> fs" where
  "os_link old new f0 =
     (case pop_io f0 of
        (Some _, f) \<Rightarrow> (Inl EOther, f)
      | (None, f) \<Rightarrow>
          (case os_find old f of
             Inl e \<Rightarrow> (Inl e, f)
           | Inr DirNode \<Rightarrow> (Inl EOther, f)
           | Inr (FileNode i) \<Rightarrow>
               (case os_find new f of
                  Inr _ \<Rightarrow> (Inl EExist, f)
                | Inl EOther \<Rightarrow> (Inl EOther, f)
                | Inl _ \<Rightarrow>
                    (if new = [] \<or> fs_node f (path_parent (path_norm new)) \<noteq> Some DirNode
                     then (Inl ENotExist, f)
                     else (Inr (), f\<lparr>fs_names := AList.update (path_norm new) (FileNode i)
                                                  (fs_names f)\<rparr>)))))"

text \<open>
  \<open>os.MkdirAll\<close>: every missing prefix of the path becomes a directory; a prefix that is a
  file is an error. A failing call has made some of the prefixes, outermost first.
\<close>

fun mkdirs :: "path_nf list \<Rightarrow> fs \<Rightarrow> (os_err + unit) \<times> fs" where
  "mkdirs [] f = (Inr (), f)"
| "mkdirs (p # ps) f =
     (case fs_node f p of
        Some (FileNode _) \<Rightarrow> (Inl EOther, f)
      | Some DirNode \<Rightarrow> mkdirs ps f
      | None \<Rightarrow> mkdirs ps (f\<lparr>fs_names := AList.update p DirNode (fs_names f)\<rparr>))"

definition path_prefixes :: "path_nf \<Rightarrow> path_nf list" where
  "path_prefixes p = map (\<lambda>i. (fst p, take (Suc i) (snd p))) [0..<length (snd p)]"

definition os_mkdir_all :: "string \<Rightarrow> fs \<Rightarrow> (os_err + unit) \<times> fs" where
  "os_mkdir_all path f0 =
     (case pop_io f0 of
        (Some k, f) \<Rightarrow>
          (Inl EOther, snd (mkdirs (take k (path_prefixes (path_norm path))) f))
      | (None, f) \<Rightarrow>
          (if path = [] then (Inl ENotExist, f) else mkdirs (path_prefixes (path_norm path)) f))"

text \<open>\<open>os.ReadDir\<close>: the entries of a directory in the order of their names.\<close>

definition dir_entries :: "path_nf \<Rightarrow> fs \<Rightarrow> (string \<times> node) list" where
  "dir_entries p f =
     sort_key fst (map (\<lambda>(q, nd). (last (snd q), nd))
       (filter (\<lambda>(q, _). snd q \<noteq> [] \<and> path_parent q = p) (fs_names f)))"

definition os_read_dir :: "string \<Rightarrow> fs \<Rightarrow> (os_err + (string \<times> node) list) \<times> fs" where
  "os_read_dir path f0 =
     (case pop_io f0 of
        (Some _, f) \<Rightarrow> (Inl EOther, f)
      | (None, f) \<Rightarrow>
          (case os_find path f of
             Inl e \<Rightarrow> (Inl e, f)
           | Inr (FileNode _) \<Rightarrow> (Inl EOther, f)
           | Inr DirNode \<Rightarrow> (Inr (dir_entries (path_norm path) f), f)))"

section \<open>Well-formed file systems\<close>

text \<open>Names are unique and in normal form, no file is called \<open>..\<close>, and inode numbers stay
  below the next one to be given out.\<close>

fun node_below :: "nat \<Rightarrow> node \<Rightarrow> bool" where
  "node_below k DirNode \<longleftrightarrow> True"
| "node_below k (FileNode i) \<longleftrightarrow> i < k"

definition fs_wf :: "fs \<Rightarrow> bool" where
  "fs_wf f \<longleftrightarrow>
     distinct (map fst (fs_names f)) \<and>
     (\<forall>(p, nd) \<in> set (fs_names f). snd p \<noteq> [] \<and> path_normal p \<and>
        (last (snd p) = ''..'' \<longrightarrow> nd = DirNode)) \<and>
     (\<forall>(p, nd) \<in> set (fs_names f). node_below (fs_next f) nd)"

lemma fs_wf_inode:
  assumes "fs_wf f" "fs_node f p = Some (FileNode i)"
  shows "i < fs_next f"
proof -
  have "(p, FileNode i) \<in> set (fs_names f)"
    using assms(2) by (auto simp: fs_node_def dest: map_of_SomeD split: if_splits)
  then show ?thesis using assms(1) by (force simp: fs_wf_def)
qed

lemma fs_wf_io [simp]: "fs_wf (f\<lparr>fs_io := x\<rparr>) = fs_wf f"
  by (simp add: fs_wf_def)

lemma fs_node_io [simp]: "fs_node (f\<lparr>fs_io := x\<rparr>) p = fs_node f p"
  by (simp add: fs_node_def)

lemma inode_of_io [simp]: "inode_of (f\<lparr>fs_io := x\<rparr>) i = inode_of f i"
  by (simp add: inode_of_def)

lemma pop_io_cases:
  assumes "pop_io f = (io, g)"
  shows "\<exists>xs. g = f\<lparr>fs_io := xs\<rparr>"
proof (cases "fs_io f")
  case Nil
  then have "g = f\<lparr>fs_io := []\<rparr>" using assms by (simp add: pop_io_def)
  then show ?thesis by blast
next
  case (Cons x xs)
  then show ?thesis using assms by (auto simp: pop_io_def)
qed

lemma pop_io_reliable: "fs_io f = [] \<Longrightarrow> pop_io f = (None, f)"
  by (simp add: pop_io_def)

end
