(* ===== verification/LocalStore.thy ===== *)
theory LocalStore
  imports GoOs
begin

text \<open>
  The local disk backend, \<open>internal/storage/local.go\<close>: one file per hash in one directory.
  An upload is written to a temporary file and published with a hard link, so that a hash
  either names a complete artifact or nothing. The second half says which store a directory is.
\<close>

section \<open>Operations\<close>

record local_dir =
  l_dir :: string

definition new_local :: "string \<Rightarrow> fs \<Rightarrow> (storage_err + local_dir) \<times> fs" where
  "new_local dir f =
     (case os_mkdir_all dir f of
        (Inl _, g) \<Rightarrow> (Inl (ErrOther ''create cache dir''), g)
      | (Inr _, g) \<Rightarrow> (Inr \<lparr>l_dir = dir\<rparr>, g))"

definition local_path :: "local_dir \<Rightarrow> string \<Rightarrow> string" where
  "local_path l hash = path_join (l_dir l) hash"

definition local_exists :: "local_dir \<Rightarrow> string \<Rightarrow> fs \<Rightarrow> (storage_err + bool) \<times> fs" where
  "local_exists l hash f =
     (case os_stat (local_path l hash) f of
        (Inl ENotExist, g) \<Rightarrow> (Inr False, g)
      | (Inl _, g) \<Rightarrow> (Inl (ErrOther ''stat''), g)
      | (Inr _, g) \<Rightarrow> (Inr True, g))"

text \<open>From the opened temporary file to the published artifact.\<close>

definition local_put_body ::
  "string \<Rightarrow> string \<Rightarrow> nat \<Rightarrow> reader \<Rightarrow> int \<Rightarrow> fs \<Rightarrow> (storage_err + unit) \<times> fs" where
  "local_put_body dest tmp ino r sz f =
     (let (d, rerr) = copy_limit r sz;
          ((n, werr), f1) = os_write ino d f;
          (cerr, f2) = os_close f1
      in if rerr \<or> werr then (Inl (ErrOther ''write artifact''), f2)
         else if cerr then (Inl (ErrOther ''close temp file''), f2)
         else if int n \<noteq> sz then (Inl (ErrOther ''short write''), f2)
         else (case os_link tmp dest f2 of
                 (Inr _, f3) \<Rightarrow> (Inr (), f3)
               | (Inl EExist, f3) \<Rightarrow> (Inl ErrAlreadyExists, f3)
               | (Inl _, f3) \<Rightarrow> (Inl (ErrOther ''finalize artifact''), f3)))"

definition local_put ::
  "local_dir \<Rightarrow> string \<Rightarrow> reader \<Rightarrow> int \<Rightarrow> fs \<Rightarrow> (storage_err + unit) \<times> fs" where
  "local_put l hash r sz f =
     (let dest = local_path l hash
      in case os_stat dest f of
           (Inr _, f1) \<Rightarrow> (Inl ErrAlreadyExists, f1)
         | (Inl e, f1) \<Rightarrow>
             (if e \<noteq> ENotExist then (Inl (ErrOther ''stat''), f1)
              else (case os_create_temp (l_dir l) (hash @ tmp_infix) f1 of
                      (Inl _, f2) \<Rightarrow> (Inl (ErrOther ''create temp file''), f2)
                    | (Inr (tmp, ino), f2) \<Rightarrow>
                        (let (res, f3) = local_put_body dest tmp ino r sz f2;
                             (_, f4) = os_remove tmp f3
                         in (res, f4)))))"

definition local_get :: "local_dir \<Rightarrow> string \<Rightarrow> fs \<Rightarrow> (storage_err + reader \<times> int) \<times> fs" where
  "local_get l hash f =
     (case os_open (local_path l hash) f of
        (Inl ENotExist, f1) \<Rightarrow> (Inl ErrNotFound, f1)
      | (Inl _, f1) \<Rightarrow> (Inl (ErrOther ''open''), f1)
      | (Inr nd, f1) \<Rightarrow>
          (case file_stat nd f1 of
             (Inl _, f2) \<Rightarrow> (Inl (ErrOther ''stat''), f2)
           | (Inr info, f2) \<Rightarrow>
               (let (r, f3) = file_reader nd f2 in (Inr (r, fi_size info), f3))))"

definition local_delete :: "local_dir \<Rightarrow> string \<Rightarrow> fs \<Rightarrow> (storage_err + unit) \<times> fs" where
  "local_delete l hash f =
     (case os_remove (local_path l hash) f of
        (Inl ENotExist, f1) \<Rightarrow> (Inl ErrNotFound, f1)
      | (Inl _, f1) \<Rightarrow> (Inl (ErrOther ''remove''), f1)
      | (Inr _, f1) \<Rightarrow> (Inr (), f1))"

text \<open>\<open>sort.Search\<close>: binary search for the least index with \<open>p\<close>.\<close>

function search_loop :: "nat \<Rightarrow> nat \<Rightarrow> (nat \<Rightarrow> bool) \<Rightarrow> nat" where
  "search_loop i j p =
     (if i < j
      then (let h = (i + j) div 2
            in if \<not> p h then search_loop (h + 1) j p else search_loop i h p)
      else i)"
  by pat_completeness auto
termination
  by (relation "measure (\<lambda>(i, j, p). j - i)") auto

declare search_loop.simps [simp del]

definition sort_search :: "nat \<Rightarrow> (nat \<Rightarrow> bool) \<Rightarrow> nat" where
  "sort_search n p = search_loop 0 n p"

text \<open>The names a directory listing offers: files that are not temporary.\<close>

definition listed_names :: "(string \<times> node) list \<Rightarrow> string list" where
  "listed_names ents = map fst (filter (\<lambda>(n, nd). nd \<noteq> DirNode \<and> \<not> str_contains tmp_infix n) ents)"

text \<open>One \<open>Stat\<close> per name of the page; a name that is gone by then is skipped.\<close>

fun stat_entries :: "local_dir \<Rightarrow> string list \<Rightarrow> fs \<Rightarrow> entry list \<times> fs" where
  "stat_entries l [] f = ([], f)"
| "stat_entries l (n # ns) f =
     (case os_stat (path_join (l_dir l) n) f of
        (Inl _, g) \<Rightarrow> stat_entries l ns g
      | (Inr info, g) \<Rightarrow>
          (let (es, g') = stat_entries l ns g
           in (\<lparr>e_hash = n, e_size = fi_size info, e_mod = fi_mtime info\<rparr> # es, g')))"

definition local_list ::
  "local_dir \<Rightarrow> string \<Rightarrow> int \<Rightarrow> fs \<Rightarrow> (storage_err + list_page) \<times> fs" where
  "local_list l cursor limit0 f =
     (let limit = (if limit0 \<le> 0 then default_list_limit else limit0)
      in case os_read_dir (l_dir l) f of
           (Inl _, f1) \<Rightarrow> (Inl (ErrOther ''readdir''), f1)
         | (Inr ents, f1) \<Rightarrow>
             (let names = listed_names ents;
                  start = sort_search (length names) (\<lambda>i. cursor < names ! i);
                  fin = (if length names < start + nat limit then length names
                         else start + nat limit);
                  (es, f2) = stat_entries l (take (fin - start) (drop start names)) f1
              in (Inr \<lparr>page_entries = es,
                       next_cursor = (if fin < length names then names ! (fin - 1) else [])\<rparr>,
                  f2)))"

definition local_backend :: "local_dir \<Rightarrow> fs backend_if" where
  "local_backend l =
     \<lparr>b_exists = local_exists l, b_put = local_put l, b_get = local_get l,
      b_delete = local_delete l, b_list = local_list l\<rparr>"

section \<open>The store a directory is\<close>

definition local_key :: "local_dir \<Rightarrow> string \<Rightarrow> path_nf" where
  "local_key l n = path_child (path_norm (l_dir l)) n"

definition local_view :: "local_dir \<Rightarrow> fs \<Rightarrow> blob_view" where
  "local_view l f n =
     (if store_key n
      then (case fs_node f (local_key l n) of
              Some (FileNode i) \<Rightarrow> Some (i_data (inode_of f i), i_mtime (inode_of f i))
            | _ \<Rightarrow> None)
      else None)"

text \<open>The directory exists and holds no subdirectory under the name of a key.\<close>

definition local_ok :: "local_dir \<Rightarrow> fs \<Rightarrow> bool" where
  "local_ok l f \<longleftrightarrow>
     fs_wf f \<and> l_dir l \<noteq> [] \<and> fs_node f (path_norm (l_dir l)) = Some DirNode \<and>
     fs_node f (path_parent (path_norm (l_dir l))) = Some DirNode \<and>
     (\<forall>(p, nd) \<in> set (fs_names f).
        nd = DirNode \<and> path_parent p = path_norm (l_dir l) \<longrightarrow> \<not> store_key (last (snd p)))"

text \<open>No key names the inode.\<close>

definition unpublished :: "local_dir \<Rightarrow> fs \<Rightarrow> nat \<Rightarrow> bool" where
  "unpublished l f i \<longleftrightarrow> (\<forall>n. store_key n \<longrightarrow> fs_node f (local_key l n) \<noteq> Some (FileNode i))"

lemma fs_node_key: "fs_node f (local_key l n) = map_of (fs_names f) (local_key l n)"
  by (simp add: fs_node_def local_key_def)

lemma local_key_inj [simp]: "local_key l n = local_key l m \<longleftrightarrow> n = m"
  by (simp add: local_key_def)

lemma path_parent_key [simp]: "path_parent (local_key l n) = path_norm (l_dir l)"
  by (simp add: local_key_def)

lemma last_key [simp]: "last (snd (local_key l n)) = n"
  by (simp add: local_key_def path_child_def)

lemma dir_not_key [simp]: "path_norm (l_dir l) \<noteq> local_key l n"
  by (cases "path_norm (l_dir l)") (simp add: local_key_def path_child_def)

lemma dir_parent_not_key [simp]: "path_parent (path_norm (l_dir l)) \<noteq> local_key l n"
  by (cases "path_norm (l_dir l)")
     (auto simp: local_key_def path_child_def path_parent_def dest: arg_cong [of _ _ length])

lemma local_path_key:
  "l_dir l \<noteq> [] \<Longrightarrow> plain_name n \<Longrightarrow> path_norm (local_path l n) = local_key l n"
  by (simp add: local_path_def path_norm_join local_key_def path_child_def)

lemma local_path_nonempty: "l_dir l \<noteq> [] \<Longrightarrow> plain_name n \<Longrightarrow> local_path l n \<noteq> []"
  using local_path_key [of l n] by (auto simp: path_norm_def local_key_def path_child_def)

lemma local_ok_dir: "local_ok l f \<Longrightarrow> l_dir l \<noteq> []"
  by (simp add: local_ok_def)

lemma local_ok_no_dir:
  assumes "local_ok l f" "store_key n"
  shows "fs_node f (local_key l n) \<noteq> Some DirNode"
proof
  assume "fs_node f (local_key l n) = Some DirNode"
  then have "(local_key l n, DirNode) \<in> set (fs_names f)"
    by (auto simp: fs_node_key dest: map_of_SomeD)
  then show False using assms by (force simp: local_ok_def)
qed

lemma os_find_key:
  assumes "local_ok l f" "plain_name n"
  shows "os_find (local_path l n) f =
           (case fs_node f (local_key l n) of None \<Rightarrow> Inl ENotExist | Some nd \<Rightarrow> Inr nd)"
  using assms local_path_nonempty [of l n] local_path_key [of l n]
  by (simp add: os_find_def local_ok_def)

lemma local_view_None:
  "local_ok l f \<Longrightarrow> store_key n \<Longrightarrow> local_view l f n = None \<longleftrightarrow> fs_node f (local_key l n) = None"
  using local_ok_no_dir [of l f n] by (auto simp: local_view_def split: option.splits node.splits)

lemma local_view_file:
  "store_key n \<Longrightarrow> fs_node f (local_key l n) = Some (FileNode i) \<Longrightarrow>
     local_view l f n = Some (i_data (inode_of f i), i_mtime (inode_of f i))"
  by (simp add: local_view_def)

lemma local_ok_file:
  assumes "local_ok l f" "store_key n" "local_view l f n = Some (d, t)"
  obtains i where "fs_node f (local_key l n) = Some (FileNode i)"
    "d = i_data (inode_of f i)" "t = i_mtime (inode_of f i)"
  using assms by (auto simp: local_view_def split: option.splits node.splits)

text \<open>Consuming a scheduled failure touches nothing else.\<close>

lemma local_io [simp]:
  "local_view l (f\<lparr>fs_io := x\<rparr>) = local_view l f"
  "local_ok l (f\<lparr>fs_io := x\<rparr>) = local_ok l f"
  "unpublished l (f\<lparr>fs_io := x\<rparr>) i = unpublished l f i"
  by (auto simp: local_view_def local_ok_def unpublished_def fun_eq_iff
      split: option.split node.split)

end
