(* ===== verification/LocalContract.thy ===== *)
theory LocalContract
  imports LocalStore
begin

text \<open>
  The local disk backend keeps the contracts of \<open>Storage\<close>: what each file system call does to
  the artifacts a directory holds, the laws of the five operations, and the interpretations of
  \<open>blob_store\<close> and \<open>ordered_store\<close> on \<open>local_backend\<close>.
\<close>

section \<open>Effects of the calls on the stored artifacts\<close>

lemma tmp_name_plain:
  assumes "plain_name h"
  shows "plain_name (h @ tmp_infix @ show_nat r)" "\<not> store_key (h @ tmp_infix @ show_nat r)"
proof -
  have "CHR ''/'' \<notin> set (show_nat r)"
    using show_nat_digits [of r] by (auto simp: list_all_iff is_digit_def less_eq_char_def)
  then show "plain_name (h @ tmp_infix @ show_nat r)"
    using assms by (auto simp: plain_name_def tmp_infix_def append_eq_Cons_conv)
  show "\<not> store_key (h @ tmp_infix @ show_nat r)"
    using str_contains_append [of tmp_infix h "show_nat r"] by (simp add: store_key_def)
qed

definition tmp_key :: "local_dir \<Rightarrow> string \<Rightarrow> nat \<Rightarrow> path_nf" where
  "tmp_key l h r = local_key l (h @ tmp_infix @ show_nat r)"

lemma tmp_path_key:
  assumes "l_dir l \<noteq> []" "plain_name h"
  shows "path_norm (tmp_path (l_dir l) (h @ tmp_infix) r) = tmp_key l h r"
  using assms tmp_name_plain(1) [OF assms(2), of r]
  by (simp add: tmp_path_def path_norm_child tmp_key_def local_key_def path_child_def)

lemma tmp_key_not_key:
  "plain_name h \<Longrightarrow> store_key n \<Longrightarrow> tmp_key l h r \<noteq> local_key l n"
  using tmp_name_plain(2) [of h r] by (auto simp: tmp_key_def)

lemma tmp_key_parent [simp]: "path_parent (tmp_key l h r) = path_norm (l_dir l)"
  by (simp add: tmp_key_def)

lemma tmp_key_node: "fs_node f (tmp_key l h r) = map_of (fs_names f) (tmp_key l h r)"
  by (simp add: tmp_key_def fs_node_key)

lemma path_normal_child:
  "path_normal p \<Longrightarrow> plain_name n \<Longrightarrow> path_normal (path_child p n)"
  by (cases p) (auto simp: path_child_def plain_name_def elem_ok_def intro: dots_front_snoc)

lemma path_normal_key: "plain_name n \<Longrightarrow> path_normal (local_key l n)"
  by (simp add: local_key_def path_normal_child path_norm_normal)

lemma set_update_subset: "set (AList.update k v al) \<subseteq> insert (k, v) (set al)"
  by (induction al) auto

lemma set_delete_subset: "set (AList.delete k al) \<subseteq> set al"
  by (auto simp: AList.delete_eq)

lemma fs_wf_update:
  assumes "fs_wf f" "snd p \<noteq> []" "path_normal p" "node_below (fs_next f) nd"
    and "last (snd p) = ''..'' \<longrightarrow> nd = DirNode"
  shows "fs_wf (f\<lparr>fs_names := AList.update p nd (fs_names f)\<rparr>)"
  using assms set_update_subset [of p nd "fs_names f"] by (fastforce simp: fs_wf_def)

lemma fs_wf_delete:
  assumes "fs_wf f"
  shows "fs_wf (f\<lparr>fs_names := AList.delete p (fs_names f)\<rparr>)"
  using assms set_delete_subset [of p "fs_names f"] by (fastforce simp: fs_wf_def)

lemma fs_wf_inodes [simp]: "fs_wf (f\<lparr>fs_inodes := x\<rparr>) = fs_wf f"
  by (simp add: fs_wf_def)

lemma fs_wf_rands [simp]: "fs_wf (f\<lparr>fs_rands := x\<rparr>) = fs_wf f"
  by (simp add: fs_wf_def)

lemma node_below_Suc: "node_below k nd \<Longrightarrow> node_below (Suc k) nd"
  by (cases nd) auto

lemma fs_wf_next:
  assumes "fs_wf f"
  shows "fs_wf (f\<lparr>fs_next := Suc (fs_next f)\<rparr>)"
  using assms node_below_Suc by (fastforce simp: fs_wf_def)

lemma fs_node_update:
  "fs_node (f\<lparr>fs_names := AList.update (local_key l n) nd (fs_names f)\<rparr>) p =
     (if p = local_key l n then Some nd else fs_node f p)"
  by (auto simp: fs_node_def local_key_def)

lemma fs_node_delete:
  "fs_node (f\<lparr>fs_names := AList.delete (local_key l n) (fs_names f)\<rparr>) p =
     (if p = local_key l n then None else fs_node f p)"
  by (auto simp: fs_node_def local_key_def)

text \<open>Adding or removing one file of the directory keeps the directory a store.\<close>

lemma local_ok_update:
  assumes "local_ok l f" "plain_name n" "i < fs_next f"
  shows "local_ok l (f\<lparr>fs_names := AList.update (local_key l n) (FileNode i) (fs_names f)\<rparr>)"
proof -
  have "fs_wf (f\<lparr>fs_names := AList.update (local_key l n) (FileNode i) (fs_names f)\<rparr>)"
    using assms path_normal_key [OF assms(2)]
    by (intro fs_wf_update) (auto simp: local_ok_def local_key_def path_child_def plain_name_def)
  then show ?thesis
    using assms(1) set_update_subset [of "local_key l n" "FileNode i" "fs_names f"]
    by (fastforce simp: local_ok_def fs_node_update)
qed

lemma local_ok_delete:
  assumes "local_ok l f"
  shows "local_ok l (f\<lparr>fs_names := AList.delete (local_key l n) (fs_names f)\<rparr>)"
  using assms fs_wf_delete [of f "local_key l n"]
    set_delete_subset [of "local_key l n" "fs_names f"]
  by (fastforce simp: local_ok_def fs_node_delete)

lemma local_ok_inodes [simp]: "local_ok l (f\<lparr>fs_inodes := x\<rparr>) = local_ok l f"
  by (simp add: local_ok_def fs_node_def)

lemma local_ok_rands [simp]: "local_ok l (f\<lparr>fs_rands := x\<rparr>) = local_ok l f"
  by (simp add: local_ok_def fs_node_def)

lemma fs_node_other [simp]:
  "fs_node (f\<lparr>fs_inodes := x\<rparr>) p = fs_node f p" "fs_node (f\<lparr>fs_next := k\<rparr>) p = fs_node f p"
  "fs_node (f\<lparr>fs_rands := rs\<rparr>) p = fs_node f p"
  by (simp_all add: fs_node_def)

lemma local_ok_next: "local_ok l f \<Longrightarrow> local_ok l (f\<lparr>fs_next := Suc (fs_next f)\<rparr>)"
  by (simp add: local_ok_def fs_wf_next)

lemma inode_of_update:
  "inode_of (f\<lparr>fs_inodes := AList.update i x (fs_inodes f)\<rparr>) j =
     (if j = i then x else inode_of f j)"
  by (simp add: inode_of_def)

text \<open>The view depends only on the nodes of keys and on the inodes they name.\<close>

lemma local_view_cong:
  assumes "\<And>n. store_key n \<Longrightarrow> fs_node g (local_key l n) = fs_node f (local_key l n)"
    and "\<And>n i. store_key n \<Longrightarrow> fs_node f (local_key l n) = Some (FileNode i) \<Longrightarrow>
           inode_of g i = inode_of f i"
  shows "local_view l g = local_view l f"
  using assms by (auto simp: local_view_def fun_eq_iff split: option.split node.split)

text \<open>A call either leaves everything but the schedule alone or creates a fresh file.\<close>

lemma create_temp_cases:
  assumes ok: "local_ok l f" and h: "plain_name h"
    and step: "os_create_temp (l_dir l) (h @ tmp_infix) f = (res, g)"
  obtains (failed) e xs where "res = Inl e" "g = f\<lparr>fs_io := xs\<rparr>"
  | (created) xs rs r where "res = Inr (tmp_path (l_dir l) (h @ tmp_infix) r, fs_next f)"
      "fs_node f (tmp_key l h r) = None"
      "g = f\<lparr>fs_io := xs, fs_next := Suc (fs_next f),
             fs_names := AList.update (tmp_key l h r) (FileNode (fs_next f)) (fs_names f),
             fs_inodes := AList.update (fs_next f) \<lparr>i_data = [], i_mtime = fs_clock f\<rparr> (fs_inodes f),
             fs_rands := rs\<rparr>"
proof -
  obtain io f1 where pop: "pop_io f = (io, f1)" by fastforce
  then obtain xs where f1: "f1 = f\<lparr>fs_io := xs\<rparr>" using pop_io_cases by blast
  have dir: "l_dir l \<noteq> []" "fs_node f (path_norm (l_dir l)) = Some DirNode"
    using ok by (auto simp: local_ok_def)
  have sep: "CHR ''/'' \<notin> set (h @ tmp_infix)" using h by (auto simp: plain_name_def tmp_infix_def)
  note step' = step [unfolded os_create_temp_def pop f1]
  show ?thesis
  proof (cases "find (\<lambda>r. fs_node f (path_norm (tmp_path (l_dir l) (h @ tmp_infix) r)) = None)
                  (take 10000 (fs_rands f))")
    case None
    then show ?thesis using failed step' dir sep by (auto split: option.splits)
  next
    case (Some r)
    then have "fs_node f (tmp_key l h r) = None"
      using find_Some_mem [OF Some] dir(1) h by (simp add: tmp_path_key)
    note key = this tmp_path_key [OF dir(1) h, of r]
    show ?thesis
    proof (cases io)
      case None
      show ?thesis
        by (rule created [where r = r and xs = xs and rs = "tl (dropWhile (\<lambda>x. x \<noteq> r) (fs_rands f))"])
           (use Some step' None dir sep key in auto)
    next
      case (Some k)
      then show ?thesis using failed step' by auto
    qed
  qed
qed

lemma create_temp_ok:
  assumes ok: "local_ok l f" and h: "plain_name h"
    and step: "os_create_temp (l_dir l) (h @ tmp_infix) f = (res, g)"
  shows "local_ok l g \<and> local_view l g = local_view l f"
  using ok h step
proof (cases rule: create_temp_cases)
  case (created xs rs r)
  let ?f2 = "f\<lparr>fs_io := xs, fs_next := Suc (fs_next f)\<rparr>"
  have "local_ok l (f\<lparr>fs_io := xs\<rparr>)" using ok by simp
  then have "local_ok l ?f2" using local_ok_next by fastforce
  moreover have "plain_name (h @ tmp_infix @ show_nat r)" using tmp_name_plain(1) [OF h] .
  ultimately have "local_ok l (?f2\<lparr>fs_names :=
      AList.update (tmp_key l h r) (FileNode (fs_next f)) (fs_names ?f2)\<rparr>)"
    unfolding tmp_key_def by (rule local_ok_update) simp
  then have "local_ok l g" by (simp add: created(3))
  moreover have wf: "fs_wf f" using ok by (simp add: local_ok_def)
  have "local_view l g = local_view l f"
  proof (rule local_view_cong)
    fix n assume n: "store_key n"
    show "fs_node g (local_key l n) = fs_node f (local_key l n)"
      using tmp_key_not_key [OF h n, of l r] by (simp add: created(3) fs_node_key)
    fix i assume "fs_node f (local_key l n) = Some (FileNode i)"
    then have "i \<noteq> fs_next f" using fs_wf_inode [OF wf] by blast
    then show "inode_of g i = inode_of f i" by (simp add: created(3) inode_of_def)
  qed
  ultimately show ?thesis by simp
qed (use ok in simp)

lemma create_temp_created:
  assumes ok: "local_ok l f" and h: "plain_name h"
    and step: "os_create_temp (l_dir l) (h @ tmp_infix) f = (Inr (tmp, i), g)"
  obtains r where "path_norm tmp = tmp_key l h r" "tmp \<noteq> []" "i = fs_next f" "fs_next g = Suc i"
    "fs_node f (tmp_key l h r) = None" "fs_node g (tmp_key l h r) = Some (FileNode i)"
    "\<And>p. p \<noteq> tmp_key l h r \<Longrightarrow> fs_node g p = fs_node f p"
    "\<And>j. j \<noteq> i \<Longrightarrow> inode_of g j = inode_of f j"
  using ok h step
proof (cases rule: create_temp_cases)
  case (created xs rs r)
  show ?thesis
  proof (rule that [of r])
    show "path_norm tmp = tmp_key l h r" "tmp \<noteq> []"
      using created(1) tmp_path_key [OF local_ok_dir [OF ok] h, of r] by (auto simp: tmp_path_def)
  qed (use created in \<open>simp_all add: fs_node_def inode_of_def tmp_key_def local_key_def\<close>)
qed simp

lemma os_write_ok:
  assumes "os_write i d f = ((n, e), g)"
  shows "local_ok l g = local_ok l f" "fs_node g p = fs_node f p" "fs_next g = fs_next f"
    "unpublished l f i \<Longrightarrow> local_view l g = local_view l f"
    "inode_of g i = \<lparr>i_data = take n d, i_mtime = fs_clock f\<rparr>" "n \<le> length d"
    "\<not> e \<Longrightarrow> n = length d"
    "j \<noteq> i \<Longrightarrow> inode_of g j = inode_of f j"
proof -
  obtain io f1 where pop: "pop_io f = (io, f1)" by fastforce
  then obtain xs where f1: "f1 = f\<lparr>fs_io := xs\<rparr>" using pop_io_cases by blast
  let ?w = "case io of None \<Rightarrow> d | Some k \<Rightarrow> take k d"
  have g: "g = f\<lparr>fs_io := xs, fs_inodes := AList.update i \<lparr>i_data = ?w, i_mtime = fs_clock f\<rparr>
                     (fs_inodes f)\<rparr>"
    and n: "n = length ?w" "e = (io \<noteq> None)"
    using assms by (auto simp: os_write_def pop f1 Let_def)
  show node: "fs_node g p = fs_node f p" for p by (simp add: g fs_node_def)
  show "local_ok l g = local_ok l f" "fs_next g = fs_next f"
    by (simp_all add: g local_ok_def fs_wf_def fs_node_def)
  show other: "inode_of g j = inode_of f j" if "j \<noteq> i" for j using that by (simp add: g inode_of_def)
  show "inode_of g i = \<lparr>i_data = take n d, i_mtime = fs_clock f\<rparr>" "n \<le> length d"
    "\<not> e \<Longrightarrow> n = length d"
    using n by (auto simp: g inode_of_def min_def split: option.split)
  show "local_view l g = local_view l f" if "unpublished l f i"
    using that by (intro local_view_cong node other) (auto simp: unpublished_def)
qed

lemma os_close_ok:
  assumes "os_close f = (e, g)"
  shows "\<exists>xs. g = f\<lparr>fs_io := xs\<rparr>"
  using assms pop_io_cases [of f] by (auto simp: os_close_def split: prod.splits)

text \<open>Publishing: the hard link succeeds only on a free name, and then shows the whole file.\<close>

lemma os_link_ok:
  assumes ok: "local_ok l f" and h: "store_key h" and up: "unpublished l f i"
    and tmp: "path_norm tmp = p" "tmp \<noteq> []" "path_parent p = path_norm (l_dir l)"
      "fs_node f p = Some (FileNode i)"
    and step: "os_link tmp (local_path l h) f = (res, g)"
  shows "local_ok l g \<and>
    (case res of
       Inr _ \<Rightarrow> local_view l f h = None \<and>
         local_view l g = (local_view l f)(h \<mapsto> (i_data (inode_of f i), i_mtime (inode_of f i)))
     | Inl e \<Rightarrow> local_view l g = local_view l f \<and> (e = EExist \<longrightarrow> local_view l f h \<noteq> None))"
proof -
  obtain io f1 where pop: "pop_io f = (io, f1)" by fastforce
  then obtain xs where f1: "f1 = f\<lparr>fs_io := xs\<rparr>" using pop_io_cases by blast
  note plain = store_key_plain [OF h]
  have ok1: "local_ok l f1" using ok by (simp add: f1)
  have dir: "l_dir l \<noteq> []" "fs_node f (path_norm (l_dir l)) = Some DirNode" "fs_wf f"
    using ok by (auto simp: local_ok_def)
  have old: "os_find tmp f1 = Inr (FileNode i)"
    using tmp dir(2) by (simp add: os_find_def f1)
  have new: "os_find (local_path l h) f1 =
      (case fs_node f (local_key l h) of None \<Rightarrow> Inl ENotExist | Some nd \<Rightarrow> Inr nd)"
    using os_find_key [OF ok1 plain] by (simp add: f1)
  have path: "local_path l h \<noteq> []" "path_norm (local_path l h) = local_key l h"
    using local_path_nonempty [OF dir(1) plain] local_path_key [OF dir(1) plain] by simp_all
  show ?thesis
  proof (cases "io = None \<and> fs_node f (local_key l h) = None")
    case True
    then have res: "res = Inr ()"
      and g: "g = f1\<lparr>fs_names := AList.update (local_key l h) (FileNode i) (fs_names f1)\<rparr>"
      using step old new path dir(2) by (auto simp: os_link_def pop f1)
    have i: "i < fs_next f1" using fs_wf_inode [OF dir(3) tmp(4)] by (simp add: f1)
    have "local_ok l g" using local_ok_update [OF ok1 plain i] by (simp add: g)
    moreover have "local_view l g = (local_view l f)(h \<mapsto> (i_data (inode_of f i), i_mtime (inode_of f i)))"
      using h by (auto simp: g f1 local_view_def fun_eq_iff fs_node_key inode_of_def
          split: option.split node.split)
    ultimately show ?thesis using True h by (simp add: res local_view_def)
  next
    case False
    then have "g = f1" "\<exists>e. res = Inl e \<and> (e = EExist \<longrightarrow> fs_node f (local_key l h) \<noteq> None)"
      using step old new path dir(2) by (auto simp: os_link_def pop split: option.splits)
    then show ?thesis using ok1 h local_view_None [OF ok h] by (auto simp: f1)
  qed
qed

lemma os_remove_key:
  assumes ok: "local_ok l f" and p: "plain_name n" "path_norm path = local_key l n" "path \<noteq> []"
    and nd: "fs_node f (local_key l n) \<noteq> Some DirNode"
    and step: "os_remove path f = (res, g)"
  shows "local_ok l g \<and>
    (case res of
       Inr _ \<Rightarrow> fs_node f (local_key l n) \<noteq> None \<and>
         local_view l g = (local_view l f)(n := None) \<and>
         (\<exists>xs. g = f\<lparr>fs_io := xs, fs_names := AList.delete (local_key l n) (fs_names f)\<rparr>)
     | Inl e \<Rightarrow> (\<exists>xs. g = f\<lparr>fs_io := xs\<rparr>) \<and>
         (e = ENotExist \<longrightarrow> fs_node f (local_key l n) = None))"
proof -
  obtain io f1 where pop: "pop_io f = (io, f1)" by fastforce
  then obtain xs where f1: "f1 = f\<lparr>fs_io := xs\<rparr>" using pop_io_cases by blast
  have ok1: "local_ok l f1" using ok by (simp add: f1)
  have find: "os_find path f1 =
      (case fs_node f (local_key l n) of None \<Rightarrow> Inl ENotExist | Some nd \<Rightarrow> Inr nd)"
    using p ok by (simp add: os_find_def f1 local_ok_def)
  show ?thesis
  proof (cases "io = None \<and> fs_node f (local_key l n) \<noteq> None")
    case True
    then have res: "res = Inr ()"
      and g: "g = f1\<lparr>fs_names := AList.delete (local_key l n) (fs_names f1)\<rparr>"
      using step find nd p by (auto simp: os_remove_def pop f1 split: option.splits)
    have "local_ok l g" using local_ok_delete [OF ok1] by (simp add: g)
    moreover have "local_view l g = (local_view l f)(n := None)"
      by (auto simp: g f1 local_view_def fun_eq_iff fs_node_key inode_of_def
          split: option.split node.split)
    moreover have "g = f\<lparr>fs_io := xs, fs_names := AList.delete (local_key l n) (fs_names f)\<rparr>"
      by (simp add: g f1)
    ultimately show ?thesis using True by (auto simp: res)
  next
    case False
    then have "g = f1" "\<exists>e. res = Inl e \<and> (e = ENotExist \<longrightarrow> fs_node f (local_key l n) = None)"
      using step find nd p by (auto simp: os_remove_def pop split: option.splits if_splits)
    then show ?thesis using ok1 by (auto simp: f1)
  qed
qed

section \<open>The contract\<close>

lemma os_stat_key:
  assumes "local_ok l f" "plain_name n" "os_stat (local_path l n) f = (res, g)"
  shows "\<exists>xs. g = f\<lparr>fs_io := xs\<rparr>"
    "res = Inl ENotExist \<Longrightarrow> fs_node f (local_key l n) = None"
    "res = Inr info \<Longrightarrow> \<exists>nd. fs_node f (local_key l n) = Some nd \<and> info = node_info f nd"
proof -
  obtain io f1 where pop: "pop_io f = (io, f1)" by fastforce
  then obtain xs where f1: "f1 = f\<lparr>fs_io := xs\<rparr>" using pop_io_cases by blast
  have find: "os_find (local_path l n) f1 =
      (case fs_node f (local_key l n) of None \<Rightarrow> Inl ENotExist | Some nd \<Rightarrow> Inr nd)"
    using assms(1,2) os_find_key [of l f1 n] by (simp add: f1)
  have info: "node_info f1 nd = node_info f nd" for nd
    by (cases nd) (simp_all add: node_info_def f1)
  show "\<exists>xs. g = f\<lparr>fs_io := xs\<rparr>"
    "res = Inl ENotExist \<Longrightarrow> fs_node f (local_key l n) = None"
    "res = Inr info \<Longrightarrow> \<exists>nd. fs_node f (local_key l n) = Some nd \<and> info = node_info f nd"
    using assms(3) find info by (auto simp: os_stat_def pop f1 split: option.splits)
qed

lemma local_exists_law:
  assumes "local_ok l f" "store_key h" "local_exists l h f = (res, g)"
  shows "local_ok l g \<and> local_view l g = local_view l f \<and>
         (\<forall>b. res = Inr b \<longrightarrow> b = (local_view l f h \<noteq> None))"
proof -
  obtain st f1 where st: "os_stat (local_path l h) f = (st, f1)" by fastforce
  note s = os_stat_key [OF assms(1) store_key_plain [OF assms(2)] st]
  from s(1) have "local_ok l f1" "local_view l f1 = local_view l f" using assms(1) by auto
  then show ?thesis
    using assms(3) s(2,3) local_view_None [OF assms(1,2)]
    by (auto simp: local_exists_def st split: sum.splits os_err.splits)
qed

lemma local_get_law:
  assumes ok: "local_ok l f" and h: "store_key h" and step: "local_get l h f = (res, g)"
  shows "local_ok l g \<and> local_view l g = local_view l f \<and>
         (case res of
            Inr (r, n) \<Rightarrow> (\<exists>d t. local_view l f h = Some (d, t) \<and> n = int (length d) \<and>
               (if rd_err r then \<exists>k. rd_data r = take k d else rd_data r = d))
          | Inl e \<Rightarrow> (e = ErrNotFound \<longrightarrow> local_view l f h = None))"
proof -
  obtain io f1 where pop: "pop_io f = (io, f1)" by fastforce
  then obtain xs where f1: "f1 = f\<lparr>fs_io := xs\<rparr>" using pop_io_cases by blast
  have find: "os_find (local_path l h) f1 =
      (case fs_node f (local_key l h) of None \<Rightarrow> Inl ENotExist | Some nd \<Rightarrow> Inr nd)"
    using ok store_key_plain [OF h] os_find_key [of l f1 h] by (simp add: f1)
  show ?thesis
  proof (cases "io = None \<and> fs_node f (local_key l h) \<noteq> None")
    case False
    then have "\<exists>e. res = Inl e \<and> (e = ErrNotFound \<longrightarrow> fs_node f (local_key l h) = None) \<and> g = f1"
      using step find by (auto simp: local_get_def os_open_def pop split: option.splits)
    then show ?thesis using ok local_view_None [OF ok h] by (auto simp: f1)
  next
    case True
    then obtain i where i: "fs_node f (local_key l h) = Some (FileNode i)"
      using local_ok_no_dir [OF ok h] by (metis node.exhaust option.exhaust)
    obtain io2 f2 where pop2: "pop_io f1 = (io2, f2)" by fastforce
    then obtain ys where f2: "f2 = f1\<lparr>fs_io := ys\<rparr>" using pop_io_cases by blast
    obtain io3 f3 where pop3: "pop_io f2 = (io3, f3)" by fastforce
    then obtain zs where f3: "f3 = f2\<lparr>fs_io := zs\<rparr>" using pop_io_cases by blast
    have "os_find (local_path l h) f1 = Inr (FileNode i)" using find i by simp
    then have "(\<exists>e. res = Inl (ErrOther e) \<and> g = f2) \<or>
        (g = f3 \<and> res = Inr (case io3 of
             None \<Rightarrow> \<lparr>rd_data = i_data (inode_of f3 i), rd_err = False\<rparr>
           | Some k \<Rightarrow> \<lparr>rd_data = take k (i_data (inode_of f3 i)), rd_err = True\<rparr>,
           fi_size (node_info f2 (FileNode i))))"
      using step True
      by (auto simp: local_get_def os_open_def file_stat_def file_reader_def pop pop2 pop3
          split: option.splits)
    then show ?thesis
      using local_view_file [OF h i] ok
      by (auto simp: node_info_def f1 f2 f3 split: option.splits)
  qed
qed

lemma local_delete_law:
  assumes ok: "local_ok l f" and h: "store_key h" and step: "local_delete l h f = (res, g)"
  shows "local_ok l g \<and>
         (case res of
            Inr _ \<Rightarrow> local_view l f h \<noteq> None \<and> local_view l g = (local_view l f)(h := None)
          | Inl e \<Rightarrow> local_view l g = local_view l f \<and> (e = ErrNotFound \<longrightarrow> local_view l f h = None))"
proof -
  obtain r1 f1 where rm: "os_remove (local_path l h) f = (r1, f1)" by fastforce
  note plain = store_key_plain [OF h]
  have path: "local_path l h \<noteq> []" "path_norm (local_path l h) = local_key l h"
    using local_path_nonempty [OF local_ok_dir [OF ok] plain]
      local_path_key [OF local_ok_dir [OF ok] plain] by simp_all
  show ?thesis
    using os_remove_key [OF ok plain path(2,1) local_ok_no_dir [OF ok h] rm] step
      local_view_None [OF ok h]
    by (auto simp: local_delete_def rm split: sum.splits os_err.splits)
qed

lemma os_link_frame:
  assumes "os_link tmp new f = (res, g)"
  shows "(\<exists>xs. g = f\<lparr>fs_io := xs\<rparr>) \<or>
    (\<exists>xs i. g = f\<lparr>fs_io := xs, fs_names := AList.update (path_norm new) (FileNode i) (fs_names f)\<rparr>)"
proof -
  obtain io f1 where pop: "pop_io f = (io, f1)" by fastforce
  then obtain xs where f1: "f1 = f\<lparr>fs_io := xs\<rparr>" using pop_io_cases by blast
  show ?thesis
    using assms
    by (auto simp: os_link_def pop f1 split: option.splits sum.splits node.splits os_err.splits if_splits)
qed

lemma local_put_body_ok:
  assumes ok: "local_ok l f" and h: "store_key h" and up: "unpublished l f i"
    and tmp: "path_norm tmp = tmp_key l k r" "tmp \<noteq> []" "fs_node f (tmp_key l k r) = Some (FileNode i)"
    and k: "plain_name k"
    and step: "local_put_body (local_path l h) tmp i rd sz f = (res, g)"
  shows "local_ok l g \<and> fs_node g (tmp_key l k r) = Some (FileNode i) \<and>
         (case res of
            Inr _ \<Rightarrow> local_view l f h = None \<and> 0 \<le> sz \<and> sz \<le> int (length (rd_data rd)) \<and>
              (\<exists>t. local_view l g = (local_view l f)(h \<mapsto> (take (nat sz) (rd_data rd), t)))
          | Inl e \<Rightarrow> local_view l g = local_view l f \<and>
              (e = ErrAlreadyExists \<longrightarrow> local_view l f h \<noteq> None))"
proof -
  obtain d rerr where cp: "copy_limit rd sz = (d, rerr)" by fastforce
  obtain n werr f1 where wr: "os_write i d f = ((n, werr), f1)" by (metis prod.exhaust)
  note w = os_write_ok [OF wr]
  obtain cerr f2 where cl: "os_close f1 = (cerr, f2)" by fastforce
  then obtain xs where f2: "f2 = f1\<lparr>fs_io := xs\<rparr>"
    using pop_io_cases [of f1] by (auto simp: os_close_def split: prod.splits)
  have ok2: "local_ok l f2" and v2: "local_view l f2 = local_view l f"
    and n2: "fs_node f2 p = fs_node f p" for p
    using w(1) [of l] w(2) w(4) [OF up] ok by (simp_all add: f2)
  have up2: "unpublished l f2 i" using up by (simp add: unpublished_def n2)
  have ino: "inode_of f2 i = \<lparr>i_data = take n d, i_mtime = fs_clock f\<rparr>" using w(5) by (simp add: f2)
  show ?thesis
  proof (cases "rerr \<or> werr \<or> cerr \<or> int n \<noteq> sz")
    case True
    then have "g = f2" "\<exists>m. res = Inl (ErrOther m)"
      using step by (auto simp: local_put_body_def cp wr cl split: if_splits)
    then show ?thesis using ok2 v2 n2 tmp(3) by auto
  next
    case False
    then have full: "n = length d" "int (length d) = sz" using w(7) by auto
    have dat: "d = take (nat sz) (rd_data rd)" using copy_limit_take [OF cp full(2)] .
    have sz: "0 \<le> sz" "sz \<le> int (length (rd_data rd))"
      using full(2) arg_cong [OF dat, of length] by auto
    obtain lr f3 where ln: "os_link tmp (local_path l h) f2 = (lr, f3)" by fastforce
    have node: "fs_node f2 (tmp_key l k r) = Some (FileNode i)" using tmp(3) n2 by simp
    note link = os_link_ok [OF ok2 h up2 tmp(1,2) _ node ln, simplified v2 ino full(1)]
    have "path_norm (local_path l h) = local_key l h"
      using local_path_key [OF local_ok_dir [OF ok] store_key_plain [OF h]] .
    then have node3: "fs_node f3 (tmp_key l k r) = Some (FileNode i)"
      using os_link_frame [OF ln] node tmp_key_not_key [OF k h, of l r]
      by (auto simp: tmp_key_node)
    have "g = f3 \<and> res = (case lr of Inr _ \<Rightarrow> Inr () | Inl EExist \<Rightarrow> Inl ErrAlreadyExists
            | Inl _ \<Rightarrow> Inl (ErrOther ''finalize artifact''))"
      using step False by (auto simp: local_put_body_def cp wr cl ln split: sum.splits os_err.splits)
    then show ?thesis
      using link node3 sz dat by (auto split: sum.splits os_err.splits)
  qed
qed

lemma os_remove_tmp:
  assumes ok: "local_ok l f" and k: "plain_name k"
    and tmp: "path_norm tmp = tmp_key l k r" "tmp \<noteq> []" "fs_node f (tmp_key l k r) = Some (FileNode i)"
    and step: "os_remove tmp f = (res, g)"
  shows "local_ok l g \<and> local_view l g = local_view l f"
proof -
  let ?n = "k @ tmp_infix @ show_nat r"
  have "local_view l f ?n = None" using tmp_name_plain(2) [OF k, of r] by (simp add: local_view_def)
  then have "(local_view l f)(?n := None) = local_view l f" by (simp add: fun_upd_idem)
  then show ?thesis
    using os_remove_key [OF ok tmp_name_plain(1) [OF k, of r] tmp(1) [unfolded tmp_key_def] tmp(2) _ step]
      tmp(3) ok
    by (auto simp: tmp_key_def split: sum.splits)
qed

lemma local_put_law:
  assumes ok: "local_ok l f" and h: "store_key h" and step: "local_put l h rd sz f = (res, g)"
  shows "local_ok l g \<and>
         (case res of
            Inr _ \<Rightarrow> local_view l f h = None \<and> 0 \<le> sz \<and> sz \<le> int (length (rd_data rd)) \<and>
              (\<exists>t. local_view l g = (local_view l f)(h \<mapsto> (take (nat sz) (rd_data rd), t)))
          | Inl e \<Rightarrow> local_view l g = local_view l f \<and>
              (e = ErrAlreadyExists \<longrightarrow> local_view l f h \<noteq> None))"
proof -
  note plain = store_key_plain [OF h]
  obtain st f1 where st: "os_stat (local_path l h) f = (st, f1)" by fastforce
  note s = os_stat_key [OF ok plain st]
  from s(1) have f1: "local_ok l f1" "local_view l f1 = local_view l f" using ok by auto
  show ?thesis
  proof (cases "st = Inl ENotExist")
    case False
    then have "g = f1" "\<exists>e. res = Inl e \<and> (e = ErrAlreadyExists \<longrightarrow> (\<exists>i. st = Inr i))"
      using step by (auto simp: local_put_def Let_def st split: sum.splits)
    then show ?thesis using f1 s(3) local_view_None [OF ok h] by auto
  next
    case True
    obtain ct f2 where ct: "os_create_temp (l_dir l) (h @ tmp_infix) f1 = (ct, f2)" by fastforce
    note c = create_temp_ok [OF f1(1) plain ct]
    show ?thesis
    proof (cases ct)
      case (Inl e)
      then show ?thesis using step True c f1 by (auto simp: local_put_def Let_def st ct)
    next
      case (Inr ti)
      obtain tmp i where ti: "ti = (tmp, i)" by fastforce
      from create_temp_created [OF f1(1) plain ct [unfolded Inr ti]] obtain r where
        r: "path_norm tmp = tmp_key l h r" "tmp \<noteq> []" "i = fs_next f1"
          "fs_node f2 (tmp_key l h r) = Some (FileNode i)"
          "\<And>p. p \<noteq> tmp_key l h r \<Longrightarrow> fs_node f2 p = fs_node f1 p" by metis
      have wf: "fs_wf f1" using f1(1) by (simp add: local_ok_def)
      have up: "unpublished l f2 i"
        using r(3,5) tmp_key_not_key [OF plain] fs_wf_inode [OF wf]
        by (metis less_irrefl unpublished_def)
      obtain r3 f3 where body: "local_put_body (local_path l h) tmp i rd sz f2 = (r3, f3)" by fastforce
      note b = local_put_body_ok [OF conjunct1 [OF c] h up r(1,2,4) plain body]
      obtain rr f4 where rm: "os_remove tmp f3 = (rr, f4)" by fastforce
      have "local_ok l f4 \<and> local_view l f4 = local_view l f3"
        using os_remove_tmp [OF _ plain r(1,2) _ rm] b by blast
      moreover have "res = r3" "g = f4"
        using step True by (simp_all add: local_put_def Let_def st ct Inr ti body rm)
      ultimately show ?thesis using b c f1(2) by (auto split: sum.splits)
    qed
  qed
qed

lemma local_put_present:
  assumes ok: "local_ok l f" and h: "store_key h" and "local_view l f h \<noteq> None"
  shows "\<exists>e. fst (local_put l h rd sz f) = Inl e"
proof -
  obtain res g where "local_put l h rd sz f = (res, g)" by fastforce
  with local_put_law [OF ok h this] assms(3) show ?thesis by (auto split: sum.splits)
qed

section \<open>Listing in order\<close>

text \<open>Binary search finds the least index that satisfies a monotone predicate.\<close>

lemma search_loop_least:
  assumes mono: "\<And>a b. a \<le> b \<Longrightarrow> b < n \<Longrightarrow> p a \<Longrightarrow> p b"
  shows "i \<le> j \<Longrightarrow> j \<le> n \<Longrightarrow> \<forall>k < i. \<not> p k \<Longrightarrow> j < n \<longrightarrow> p j \<Longrightarrow>
         search_loop i j p \<le> n \<and> (\<forall>k < search_loop i j p. \<not> p k) \<and>
         (search_loop i j p < n \<longrightarrow> p (search_loop i j p))"
proof (induction "j - i" arbitrary: i j rule: less_induct)
  case less
  show ?case
  proof (cases "i < j")
    case False
    then have "search_loop i j p = i" by (subst search_loop.simps) simp
    then show ?thesis using False less.prems by simp
  next
    case True
    define h where "h = (i + j) div 2"
    have h: "i \<le> h" "h < j" using True by (auto simp: h_def)
    show ?thesis
    proof (cases "p h")
      case True': True
      have "search_loop i j p = search_loop i h p"
        using True True' by (subst search_loop.simps) (simp add: Let_def h_def)
      then show ?thesis
        by (simp only:) (rule less.hyps, use h less.prems True' in simp_all)
    next
      case False
      have eq: "search_loop i j p = search_loop (h + 1) j p"
        using True False by (subst search_loop.simps) (simp add: Let_def h_def)
      have below: "\<forall>k < h + 1. \<not> p k"
      proof (intro allI impI)
        fix k assume "k < h + 1"
        then show "\<not> p k" using False h mono [of k h] less.prems(2) by auto
      qed
      show ?thesis
        unfolding eq by (rule less.hyps) (use h less.prems below in simp_all)
    qed
  qed
qed

lemma sort_search_drop:
  assumes "sorted names"
  shows "drop (sort_search (length names) (\<lambda>i. cur < names ! i)) names = filter (\<lambda>k. cur < k) names"
    and "sort_search (length names) (\<lambda>i. cur < names ! i) \<le> length names"
proof -
  let ?p = "\<lambda>i. cur < names ! i"
  let ?s = "sort_search (length names) ?p"
  have mono: "a \<le> b \<Longrightarrow> b < length names \<Longrightarrow> ?p a \<Longrightarrow> ?p b" for a b
    using assms sorted_nth_mono [of names a b] by (meson less_le_trans)
  have least: "?s \<le> length names" "\<forall>k < ?s. \<not> ?p k" "?s < length names \<longrightarrow> ?p ?s"
    using search_loop_least [of "length names" ?p 0 "length names", OF mono]
    by (simp_all add: sort_search_def)
  show "?s \<le> length names" by (rule least(1))
  have "filter (\<lambda>k. cur < k) (take ?s names) = []"
    using least(1,2) by (auto simp: filter_empty_conv in_set_conv_nth)
  moreover have "filter (\<lambda>k. cur < k) (drop ?s names) = drop ?s names"
    unfolding filter_id_conv
  proof
    fix x assume "x \<in> set (drop ?s names)"
    then obtain i where "i < length names - ?s" "x = names ! (?s + i)"
      by (auto simp: in_set_conv_nth)
    moreover from this have "?s + i < length names" by linarith
    ultimately show "cur < x" using least(3) mono [OF le_add1, of ?s i] by simp
  qed
  ultimately show "drop ?s names = filter (\<lambda>k. cur < k) names"
    by (metis append_take_drop_id filter_append self_append_conv2)
qed

lemma path_parent_child_last: "snd q \<noteq> [] \<Longrightarrow> q = path_child (path_parent q) (last (snd q))"
  by (cases q) (simp add: path_child_def path_parent_def)

lemma dir_entries_mem:
  assumes "fs_wf f"
  shows "(n, nd) \<in> set (dir_entries p f) \<longleftrightarrow> map_of (fs_names f) (path_child p n) = Some nd"
proof -
  have "(n, nd) \<in> set (dir_entries p f) \<longleftrightarrow>
      (\<exists>q. (q, nd) \<in> set (fs_names f) \<and> snd q \<noteq> [] \<and> path_parent q = p \<and> n = last (snd q))"
    by (auto simp: dir_entries_def image_iff)
  also have "\<dots> \<longleftrightarrow> (path_child p n, nd) \<in> set (fs_names f)"
    by (metis path_parent_child path_parent_child_last path_child_inj snd_path_child)
  also have "\<dots> \<longleftrightarrow> map_of (fs_names f) (path_child p n) = Some nd"
    using assms by (simp add: fs_wf_def map_of_eq_Some_distinct)
  finally show ?thesis .
qed

lemma dir_entries_distinct:
  assumes "fs_wf f"
  shows "distinct (map fst (dir_entries p f))"
proof -
  let ?xs = "filter (\<lambda>(q, _). snd q \<noteq> [] \<and> path_parent q = p) (fs_names f)"
  have "distinct (map fst ?xs)" using assms by (simp add: fs_wf_def distinct_map_filter)
  moreover have "inj_on (\<lambda>q. last (snd q)) (set (map fst ?xs))"
  proof (rule inj_onI)
    fix q q' assume "q \<in> set (map fst ?xs)" "q' \<in> set (map fst ?xs)" and eq: "last (snd q) = last (snd q')"
    then have "snd q \<noteq> []" "snd q' \<noteq> []" "path_parent q = path_parent q'" by auto
    then show "q = q'" using eq path_parent_child_last by metis
  qed
  ultimately have "distinct (map (\<lambda>q. last (snd q)) (map fst ?xs))"
    using distinct_map [of "\<lambda>q. last (snd q)" "map fst ?xs"] by blast
  moreover have "mset (map fst (dir_entries p f)) = mset (map (\<lambda>q. last (snd q)) (map fst ?xs))"
  proof -
    have "mset (map fst (dir_entries p f)) = image_mset fst (mset (map (\<lambda>(q, nd). (last (snd q), nd)) ?xs))"
      by (simp only: dir_entries_def mset_map mset_sort)
    then show ?thesis by (simp add: comp_def case_prod_beta flip: mset_map)
  qed
  ultimately show ?thesis using mset_eq_imp_distinct_iff by blast
qed

lemma dir_entries_sorted: "sorted (map fst (dir_entries p f))"
  by (simp add: dir_entries_def)

definition local_reliable :: "fs \<Rightarrow> bool" where
  "local_reliable f \<longleftrightarrow> fs_io f = []"

lemma store_key_entry:
  assumes wf: "fs_wf f" and nd: "map_of (fs_names f) (path_child p n) = Some nd" "nd \<noteq> DirNode"
  shows "plain_name n"
proof -
  have "(path_child p n, nd) \<in> set (fs_names f)" using nd(1) by (rule map_of_SomeD)
  then have "path_normal (path_child p n)" "last (snd (path_child p n)) = ''..'' \<longrightarrow> nd = DirNode"
    using wf by (auto simp: fs_wf_def)
  then show ?thesis
    using nd(2) by (cases p) (auto simp: path_child_def plain_name_def elem_ok_def)
qed

lemma listed_names_view:
  assumes ok: "local_ok l f"
  shows "listed_names (dir_entries (path_norm (l_dir l)) f) = sorted_list_of_set (dom (local_view l f))"
proof -
  let ?es = "dir_entries (path_norm (l_dir l)) f"
  have wf: "fs_wf f" using ok by (simp add: local_ok_def)
  have "n \<in> set (listed_names ?es) \<longleftrightarrow> local_view l f n \<noteq> None" for n
  proof -
    have "n \<in> set (listed_names ?es) \<longleftrightarrow>
        (\<exists>nd. fs_node f (local_key l n) = Some nd \<and> nd \<noteq> DirNode \<and> \<not> str_contains tmp_infix n)"
      by (simp add: listed_names_def image_iff Bex_def dir_entries_mem [OF wf] fs_node_def
          local_key_def)
    also have "\<dots> \<longleftrightarrow> local_view l f n \<noteq> None"
    proof (cases "fs_node f (local_key l n)")
      case None
      then show ?thesis by (simp add: local_view_def)
    next
      case (Some nd)
      then have "nd \<noteq> DirNode \<Longrightarrow> plain_name n"
        using store_key_entry [OF wf] by (simp add: fs_node_def local_key_def)
      with Some show ?thesis
        by (cases nd) (auto simp: local_view_def store_key_def)
    qed
    finally show ?thesis .
  qed
  then have "set (listed_names ?es) = dom (local_view l f)" by auto
  moreover have "sorted (listed_names ?es)"
    unfolding listed_names_def by (rule sorted_filter) (rule dir_entries_sorted)
  moreover have "distinct (listed_names ?es)"
    unfolding listed_names_def by (rule distinct_map_filter) (rule dir_entries_distinct [OF wf])
  ultimately show ?thesis by (metis sorted_list_of_set.idem_if_sorted_distinct)
qed

lemma local_view_finite: "local_ok l f \<Longrightarrow> finite (dom (local_view l f))"
proof -
  assume "local_ok l f"
  have "dom (local_view l f) \<subseteq> (\<lambda>p. last (snd p)) ` set (map fst (fs_names f))"
  proof
    fix n assume "n \<in> dom (local_view l f)"
    then have "local_key l n \<in> dom (map_of (fs_names f))"
      by (auto simp: local_view_def fs_node_key split: if_splits option.splits)
    then show "n \<in> (\<lambda>p. last (snd p)) ` set (map fst (fs_names f))"
      by (auto simp: dom_map_of_conv_image_fst image_iff) (metis fst_conv last_key)
  qed
  then show ?thesis by (rule finite_subset) simp
qed

lemma stat_entries_reliable:
  assumes "local_ok l f" "fs_io f = []" "set ns \<subseteq> dom (local_view l f)"
  shows "stat_entries l ns f =
    (map (\<lambda>k. \<lparr>e_hash = k, e_size = int (length (fst (the (local_view l f k)))),
               e_mod = snd (the (local_view l f k))\<rparr>) ns, f)"
  using assms(3)
proof (induction ns)
  case Nil
  then show ?case by simp
next
  case (Cons n ns)
  then obtain d t where v: "local_view l f n = Some (d, t)" by auto
  then have key: "store_key n" by (auto simp: local_view_def split: if_splits)
  obtain i where i: "fs_node f (local_key l n) = Some (FileNode i)"
    "d = i_data (inode_of f i)" "t = i_mtime (inode_of f i)"
    using local_ok_file [OF assms(1) key v] .
  have "os_find (local_path l n) f = Inr (FileNode i)"
    using os_find_key [OF assms(1) store_key_plain [OF key]] i(1) by simp
  then have "os_stat (path_join (l_dir l) n) f = (Inr (node_info f (FileNode i)), f)"
    by (simp add: os_stat_def pop_io_reliable [OF assms(2)] local_path_def)
  then show ?case using Cons v i by (simp add: node_info_def)
qed

lemma local_list_reliable:
  assumes ok: "local_ok l f" and rel: "local_reliable f" and lim: "0 < lim"
  shows "local_list l cur lim f =
    (let ks = filter (\<lambda>k. cur < k) (sorted_list_of_set (dom (local_view l f)));
         page = take (nat lim) ks
     in (Inr \<lparr>page_entries = map (\<lambda>k. \<lparr>e_hash = k,
                 e_size = int (length (fst (the (local_view l f k)))),
                 e_mod = snd (the (local_view l f k))\<rparr>) page,
              next_cursor = (if nat lim < length ks then last page else [])\<rparr>, f))"
proof -
  define names where "names = sorted_list_of_set (dom (local_view l f))"
  define start where "start = sort_search (length names) (\<lambda>i. cur < names ! i)"
  define ks where "ks = filter (\<lambda>k. cur < k) names"
  have io: "fs_io f = []" using rel by (simp add: local_reliable_def)
  have srt: "sorted names" by (simp add: names_def)
  have ks: "drop start names = ks" and le: "start \<le> length names"
    using sort_search_drop [OF srt, of cur] by (simp_all add: ks_def start_def)
  have len: "length ks = length names - start" using ks by (metis length_drop)
  have "os_find (l_dir l) f = Inr DirNode"
    using ok by (simp add: local_ok_def os_find_def)
  then have rd: "os_read_dir (l_dir l) f = (Inr (dir_entries (path_norm (l_dir l)) f), f)"
    by (simp add: os_read_dir_def pop_io_reliable [OF io])
  define fin where "fin = (if length names < start + nat lim then length names else start + nat lim)"
  have page: "take (fin - start) (drop start names) = take (nat lim) ks"
    unfolding ks fin_def using len by (auto simp: min_def)
  have "set (take (nat lim) ks) \<subseteq> dom (local_view l f)"
    using local_view_finite [OF ok] by (auto simp: ks_def names_def dest!: in_set_takeD)
  note st = stat_entries_reliable [OF ok io this]
  have more: "fin < length names \<longleftrightarrow> nat lim < length ks"
    using le lim by (auto simp: fin_def len)
  have last: "names ! (fin - 1) = last (take (nat lim) ks)" if "nat lim < length ks"
  proof -
    have pos: "0 < nat lim" using lim by simp
    then have "last (take (nat lim) ks) = ks ! (nat lim - 1)"
      using that by (subst last_conv_nth) auto
    also have "\<dots> = names ! (start + (nat lim - 1))"
      using that le pos unfolding ks [symmetric] by (subst nth_drop) auto
    also have "start + (nat lim - 1) = fin - 1"
      using that len pos by (auto simp: fin_def)
    finally show ?thesis by simp
  qed
  have "local_list l cur lim f =
      (let (es, f2) = stat_entries l (take (fin - start) (drop start names)) f
       in (Inr \<lparr>page_entries = es,
                next_cursor = (if fin < length names then names ! (fin - 1) else [])\<rparr>, f2))"
    unfolding local_list_def rd Let_def start_def names_def fin_def
    using lim listed_names_view [OF ok] by simp
  also have "\<dots> = (Inr \<lparr>page_entries = map (\<lambda>k. \<lparr>e_hash = k,
                 e_size = int (length (fst (the (local_view l f k)))),
                 e_mod = snd (the (local_view l f k))\<rparr>) (take (nat lim) ks),
              next_cursor = (if nat lim < length ks then last (take (nat lim) ks) else [])\<rparr>, f)"
    unfolding page st using more last by simp
  finally show ?thesis by (simp only: Let_def ks_def names_def)
qed

section \<open>The local disk keeps the contracts\<close>

lemma local_backend_simps [simp]:
  "b_exists (local_backend l) = local_exists l" "b_put (local_backend l) = local_put l"
  "b_get (local_backend l) = local_get l" "b_delete (local_backend l) = local_delete l"
  "b_list (local_backend l) = local_list l"
  by (simp_all add: local_backend_def)

lemma local_delete_reliable:
  assumes ok: "local_ok l f" and rel: "local_reliable f" and h: "store_key h"
  shows "\<exists>g. local_reliable g \<and>
    local_delete l h f = (if local_view l f h = None then Inl ErrNotFound else Inr (), g)"
proof -
  note plain = store_key_plain [OF h]
  have pop: "pop_io f = (None, f)" using rel by (simp add: local_reliable_def pop_io_reliable)
  show ?thesis
    using rel local_view_None [OF ok h] local_ok_no_dir [OF ok h] os_find_key [OF ok plain]
    by (auto simp: local_delete_def os_remove_def pop local_reliable_def split: option.splits)
qed

interpretation local_disk: ordered_store "local_backend l" "local_view l" "local_ok l" local_reliable
proof (unfold_locales, unfold local_backend_simps, goal_cases)
  case 1 then show ?case by (rule local_exists_law)
next
  case (2 w h r sz res w') then show ?case
    using local_put_law [of l w h r sz res w'] by (cases res) auto
next
  case 3 then show ?case by (rule local_put_present)
next
  case 4 then show ?case by (rule local_get_law)
next
  case (5 w h res w') then show ?case
    using local_delete_law [of l w h res w'] by (cases res) auto
next
  case 6 then show ?case by (auto simp: local_view_def split: if_splits)
next
  case 7 then show ?case by (rule local_view_finite)
next
  case (8 w h r sz res w') then show ?case
    using local_put_law [of l w h r sz res w'] by (cases res) auto
next
  case (9 w h r sz e w') then show ?case using local_put_law [of l w h r sz "Inl e" w'] by simp
next
  case (10 w h e w') then show ?case using local_delete_law [of l w h "Inl e" w'] by simp
next
  case 11 then show ?case by (rule local_delete_reliable)
next
  case (12 w lim cur) then show ?case using local_list_reliable by (intro exI [of _ w]) simp
qed

end
