(* ===== verification/LocalRace.thy ===== *)
theory LocalRace
  imports LocalContract
begin

text \<open>
  Concurrent uploads to one cache directory. An upload is the sequence of file system calls
  \<open>(*Local).Put\<close> makes, one call per step, and any number of uploads interleave their steps.
  The hard link is the only step that publishes: it fails when the name exists, so of several
  uploads of one hash at most one succeeds, and no reader ever sees a partial artifact.
\<close>

section \<open>An upload as a sequence of calls\<close>

record upload =
  u_hash :: string
  u_body :: reader
  u_size :: int

datatype put_pc =
  PStat
| PTemp
| PWrite string nat
| PClose string nat nat bool
| PLink string nat
| PRemove string "storage_err + unit"
| PDone "storage_err + unit"

fun put_step :: "local_dir \<Rightarrow> upload \<Rightarrow> put_pc \<Rightarrow> fs \<Rightarrow> put_pc \<times> fs" where
  "put_step l u PStat f =
     (case os_stat (local_path l (u_hash u)) f of
        (Inr _, g) \<Rightarrow> (PDone (Inl ErrAlreadyExists), g)
      | (Inl e, g) \<Rightarrow> (if e = ENotExist then PTemp else PDone (Inl (ErrOther ''stat'')), g))"
| "put_step l u PTemp f =
     (case os_create_temp (l_dir l) (u_hash u @ tmp_infix) f of
        (Inl _, g) \<Rightarrow> (PDone (Inl (ErrOther ''create temp file'')), g)
      | (Inr (tmp, ino), g) \<Rightarrow> (PWrite tmp ino, g))"
| "put_step l u (PWrite tmp ino) f =
     (let (d, rerr) = copy_limit (u_body u) (u_size u);
          ((n, werr), g) = os_write ino d f
      in (PClose tmp ino n (rerr \<or> werr), g))"
| "put_step l u (PClose tmp ino n failed) f =
     (let (cerr, g) = os_close f
      in (if failed then PRemove tmp (Inl (ErrOther ''write artifact''))
          else if cerr then PRemove tmp (Inl (ErrOther ''close temp file''))
          else if int n \<noteq> u_size u then PRemove tmp (Inl (ErrOther ''short write''))
          else PLink tmp ino, g))"
| "put_step l u (PLink tmp ino) f =
     (case os_link tmp (local_path l (u_hash u)) f of
        (Inr _, g) \<Rightarrow> (PRemove tmp (Inr ()), g)
      | (Inl EExist, g) \<Rightarrow> (PRemove tmp (Inl ErrAlreadyExists), g)
      | (Inl _, g) \<Rightarrow> (PRemove tmp (Inl (ErrOther ''finalize artifact'')), g))"
| "put_step l u (PRemove tmp res) f = (let (_, g) = os_remove tmp f in (PDone res, g))"
| "put_step l u (PDone res) f = (PDone res, f)"

fun put_steps :: "nat \<Rightarrow> local_dir \<Rightarrow> upload \<Rightarrow> put_pc \<Rightarrow> fs \<Rightarrow> put_pc \<times> fs" where
  "put_steps 0 l u pc f = (pc, f)"
| "put_steps (Suc n) l u pc f = (let (pc', g) = put_step l u pc f in put_steps n l u pc' g)"

text \<open>Undisturbed, the steps are the operation.\<close>

lemma put_steps_done [simp]: "put_steps n l u (PDone res) f = (PDone res, f)"
  by (induction n) auto

lemma put_steps_sequential:
  "put_steps 6 l u PStat f =
     (case local_put l (u_hash u) (u_body u) (u_size u) f of (res, g) \<Rightarrow> (PDone res, g))"
  by (auto simp: eval_nat_numeral local_put_def local_put_body_def Let_def
      split: prod.splits sum.splits os_err.splits)

section \<open>Interleaving\<close>

type_synonym race = "fs \<times> (nat \<Rightarrow> put_pc)"

inductive race_step :: "local_dir \<Rightarrow> (nat \<Rightarrow> upload) \<Rightarrow> race \<Rightarrow> race \<Rightarrow> bool"
  for l :: local_dir and ups :: "nat \<Rightarrow> upload" where
  race_stepI: "put_step l (ups i) (pcs i) f = (pc', g) \<Longrightarrow> race_step l ups (f, pcs) (g, pcs(i := pc'))"

inductive_cases race_stepE: "race_step l ups c c'"

inductive race_reach :: "local_dir \<Rightarrow> (nat \<Rightarrow> upload) \<Rightarrow> fs \<Rightarrow> race \<Rightarrow> bool"
  for l :: local_dir and ups :: "nat \<Rightarrow> upload" and f0 :: fs where
  race_init: "race_reach l ups f0 (f0, \<lambda>_. PStat)"
| race_next: "race_reach l ups f0 c \<Longrightarrow> race_step l ups c c' \<Longrightarrow> race_reach l ups f0 c'"

fun put_succeeded :: "put_pc \<Rightarrow> bool" where
  "put_succeeded (PRemove _ res) \<longleftrightarrow> res = Inr ()"
| "put_succeeded (PDone res) \<longleftrightarrow> res = Inr ()"
| "put_succeeded _ \<longleftrightarrow> False"

section \<open>The invariant\<close>

fun pc_tmp :: "put_pc \<Rightarrow> string option" where
  "pc_tmp (PWrite tmp _) = Some tmp"
| "pc_tmp (PClose tmp _ _ _) = Some tmp"
| "pc_tmp (PLink tmp _) = Some tmp"
| "pc_tmp (PRemove tmp _) = Some tmp"
| "pc_tmp _ = None"

fun pc_ino :: "put_pc \<Rightarrow> nat option" where
  "pc_ino (PWrite _ i) = Some i"
| "pc_ino (PClose _ i _ _) = Some i"
| "pc_ino (PLink _ i) = Some i"
| "pc_ino _ = None"

definition whole :: "upload \<Rightarrow> byte list \<Rightarrow> bool" where
  "whole u d \<longleftrightarrow> d = take (nat (u_size u)) (rd_data (u_body u)) \<and>
     0 \<le> u_size u \<and> u_size u \<le> int (length (rd_data (u_body u)))"

definition stored :: "local_dir \<Rightarrow> fs \<Rightarrow> upload \<Rightarrow> bool" where
  "stored l f u \<longleftrightarrow> (\<exists>d t. local_view l f (u_hash u) = Some (d, t) \<and> whole u d)"

text \<open>A running upload holds a temporary name of its own, and its inode is not published.\<close>

definition owns_tmp :: "local_dir \<Rightarrow> fs \<Rightarrow> upload \<Rightarrow> string \<Rightarrow> bool" where
  "owns_tmp l f u tmp \<longleftrightarrow>
     (\<exists>r i. path_norm tmp = tmp_key l (u_hash u) r \<and> tmp \<noteq> [] \<and> fs_node f (path_norm tmp) = Some (FileNode i))"

definition pc_data_ok :: "fs \<Rightarrow> upload \<Rightarrow> put_pc \<Rightarrow> bool" where
  "pc_data_ok f u pc \<longleftrightarrow>
     (case pc of
        PClose _ i n failed \<Rightarrow>
          \<not> failed \<longrightarrow> n = length (i_data (inode_of f i)) \<and>
            i_data (inode_of f i) = fst (copy_limit (u_body u) (u_size u))
      | PLink _ i \<Rightarrow> whole u (i_data (inode_of f i))
      | _ \<Rightarrow> True)"

definition pc_ok :: "local_dir \<Rightarrow> fs \<Rightarrow> upload \<Rightarrow> put_pc \<Rightarrow> bool" where
  "pc_ok l f u pc \<longleftrightarrow>
     (\<forall>tmp. pc_tmp pc = Some tmp \<longrightarrow> owns_tmp l f u tmp) \<and>
     (\<forall>tmp i. pc_tmp pc = Some tmp \<and> pc_ino pc = Some i \<longrightarrow>
        fs_node f (path_norm tmp) = Some (FileNode i) \<and> unpublished l f i) \<and>
     pc_data_ok f u pc \<and> (put_succeeded pc \<longrightarrow> stored l f u)"

definition apart :: "(nat \<Rightarrow> put_pc) \<Rightarrow> bool" where
  "apart pcs \<longleftrightarrow>
     (\<forall>i j tmp tmp'. i \<noteq> j \<and> pc_tmp (pcs i) = Some tmp \<and> pc_tmp (pcs j) = Some tmp' \<longrightarrow>
        path_norm tmp \<noteq> path_norm tmp') \<and>
     (\<forall>i j a b. i \<noteq> j \<and> pc_ino (pcs i) = Some a \<and> pc_ino (pcs j) = Some b \<longrightarrow> a \<noteq> b)"

definition race_inv :: "local_dir \<Rightarrow> (nat \<Rightarrow> upload) \<Rightarrow> blob_view \<Rightarrow> race \<Rightarrow> bool" where
  "race_inv l ups v0 c \<longleftrightarrow>
     (case c of (f, pcs) \<Rightarrow>
        local_ok l f \<and> (\<forall>i. pc_ok l f (ups i) (pcs i)) \<and> apart pcs \<and>
        (\<forall>i j. put_succeeded (pcs i) \<and> put_succeeded (pcs j) \<and> u_hash (ups i) = u_hash (ups j) \<longrightarrow> i = j) \<and>
        (\<forall>h. local_view l f h = v0 h \<or>
           (v0 h = None \<and> (\<exists>i. put_succeeded (pcs i) \<and> u_hash (ups i) = h))))"


section \<open>Facts about the calls\<close>

lemma create_temp_fresh:
  assumes "local_ok l f" "plain_name h"
    and "os_create_temp (l_dir l) (h @ tmp_infix) f = (Inr (tmp, i), g)"
  shows "\<exists>r. path_norm tmp = tmp_key l h r \<and> tmp \<noteq> [] \<and> i = fs_next f \<and>
    fs_node f (tmp_key l h r) = None \<and> fs_node g (tmp_key l h r) = Some (FileNode i) \<and>
    (\<forall>p. p \<noteq> tmp_key l h r \<longrightarrow> fs_node g p = fs_node f p) \<and>
    (\<forall>j. j \<noteq> i \<longrightarrow> inode_of g j = inode_of f j)"
  by (rule create_temp_created [OF assms]) blast

lemma os_link_fail:
  assumes "os_link tmp new f = (Inl e, g)"
  shows "\<exists>xs. g = f\<lparr>fs_io := xs\<rparr>"
proof -
  obtain io f1 where pop: "pop_io f = (io, f1)" by fastforce
  then obtain xs where f1: "f1 = f\<lparr>fs_io := xs\<rparr>" using pop_io_cases by blast
  show ?thesis
    using assms
    by (auto simp: os_link_def pop f1 split: option.splits sum.splits node.splits os_err.splits if_splits)
qed

lemma os_link_success:
  assumes "os_link tmp new f = (Inr u, g)"
  shows "\<exists>xs i. os_find tmp f = Inr (FileNode i) \<and>
    g = f\<lparr>fs_io := xs, fs_names := AList.update (path_norm new) (FileNode i) (fs_names f)\<rparr>"
proof -
  obtain io f1 where pop: "pop_io f = (io, f1)" by fastforce
  then obtain xs where f1: "f1 = f\<lparr>fs_io := xs\<rparr>" using pop_io_cases by blast
  have "os_find tmp f1 = os_find tmp f" by (simp add: os_find_def f1 cong: option.case_cong node.case_cong)
  then show ?thesis
    using assms
    by (auto simp: os_link_def pop f1 split: option.splits sum.splits node.splits os_err.splits if_splits)
qed

section \<open>What one step does\<close>

text \<open>
  The effect of a step, as seen by the other uploads: it keeps every name but the temporary one
  it owns, every inode but its own, and every stored artifact, and publishes at most its hash.
\<close>

definition step_effect ::
  "local_dir \<Rightarrow> upload \<Rightarrow> put_pc \<Rightarrow> fs \<Rightarrow> put_pc \<Rightarrow> fs \<Rightarrow> bool" where
  "step_effect l u pc f pc' g \<longleftrightarrow>
     local_ok l g \<and> pc_ok l g u pc' \<and>
     (\<forall>p nd. fs_node f p = Some nd \<and> (\<forall>t. pc_tmp pc = Some t \<longrightarrow> path_norm t \<noteq> p) \<longrightarrow>
        fs_node g p = Some nd) \<and>
     (\<forall>j. j < fs_next f \<and> pc_ino pc \<noteq> Some j \<longrightarrow>
        inode_of g j = inode_of f j \<and> (unpublished l f j \<longrightarrow> unpublished l g j)) \<and>
     (\<forall>h. local_view l g h = local_view l f h \<or>
        (local_view l f h = None \<and> h = u_hash u \<and> put_succeeded pc')) \<and>
     (put_succeeded pc \<longrightarrow> put_succeeded pc') \<and>
     (put_succeeded pc' \<and> \<not> put_succeeded pc \<longrightarrow> local_view l f (u_hash u) = None) \<and>
     (\<forall>t. pc_tmp pc' = Some t \<longrightarrow> pc_tmp pc = Some t \<or> fs_node f (path_norm t) = None) \<and>
     (\<forall>a. pc_ino pc' = Some a \<longrightarrow> pc_ino pc = Some a \<or> a = fs_next f)"

lemma pc_ok_io [simp]: "pc_ok l (f\<lparr>fs_io := x\<rparr>) u pc = pc_ok l f u pc"
  by (simp add: pc_ok_def owns_tmp_def pc_data_ok_def stored_def cong: put_pc.case_cong)

lemma pc_ok_inactive:
  "pc_tmp pc = None \<Longrightarrow> \<not> put_succeeded pc \<Longrightarrow> pc_ok l f u pc"
  by (cases pc) (auto simp: pc_ok_def pc_data_ok_def)

lemma step_effect_io:
  assumes "local_ok l f" "pc_ok l f u pc'" "put_succeeded pc' \<longleftrightarrow> put_succeeded pc"
    and "pc_tmp pc' = None \<or> pc_tmp pc' = pc_tmp pc" "pc_ino pc' = None \<or> pc_ino pc' = pc_ino pc"
  shows "step_effect l u pc f pc' (f\<lparr>fs_io := xs\<rparr>)"
  using assms by (auto simp: step_effect_def)

lemma effect_stat:
  assumes ok: "local_ok l f" and h: "store_key (u_hash u)"
    and step: "put_step l u PStat f = (pc', g)"
  shows "step_effect l u PStat f pc' g"
proof -
  obtain st f1 where st: "os_stat (local_path l (u_hash u)) f = (st, f1)" by fastforce
  then obtain xs where "g = f\<lparr>fs_io := xs\<rparr>"
    using os_stat_key(1) [OF ok store_key_plain [OF h] st] step by (auto split: sum.splits)
  moreover have "pc_tmp pc' = None" "pc_ino pc' = None" "\<not> put_succeeded pc'"
    using step st by (auto simp: split: sum.splits if_splits)
  ultimately show ?thesis
    using ok by (auto intro: step_effect_io pc_ok_inactive)
qed

lemma effect_temp:
  assumes ok: "local_ok l f" and h: "store_key (u_hash u)"
    and step: "put_step l u PTemp f = (pc', g)"
  shows "step_effect l u PTemp f pc' g"
proof -
  note plain = store_key_plain [OF h]
  obtain ct f1 where ct: "os_create_temp (l_dir l) (u_hash u @ tmp_infix) f = (ct, f1)" by fastforce
  show ?thesis
  proof (cases ct)
    case (Inl e)
    have "\<exists>xs. f1 = f\<lparr>fs_io := xs\<rparr>"
      using ok plain ct by (cases rule: create_temp_cases) (auto simp: Inl)
    then obtain xs where "g = f\<lparr>fs_io := xs\<rparr>" using step ct Inl by auto
    then show ?thesis
      using ok step ct Inl by (auto intro!: step_effect_io pc_ok_inactive)
  next
    case (Inr ti)
    obtain tmp i where ti: "ti = (tmp, i)" by fastforce
    obtain r where
      r: "path_norm tmp = tmp_key l (u_hash u) r" "tmp \<noteq> []" "i = fs_next f"
        "fs_node f (tmp_key l (u_hash u) r) = None"
        "fs_node f1 (tmp_key l (u_hash u) r) = Some (FileNode i)"
        "\<forall>p. p \<noteq> tmp_key l (u_hash u) r \<longrightarrow> fs_node f1 p = fs_node f p"
        "\<forall>j. j \<noteq> i \<longrightarrow> inode_of f1 j = inode_of f j"
      using create_temp_fresh [OF ok plain ct [unfolded Inr ti]] by blast
    have pc: "pc' = PWrite tmp i" "g = f1" using step ct Inr ti by auto
    have keys: "fs_node f1 (local_key l n) = fs_node f (local_key l n)" if "store_key n" for n
      using r(6) tmp_key_not_key [OF plain that] by metis
    have wf: "fs_wf f" using ok by (simp add: local_ok_def)
    have "unpublished l f1 i"
      using keys fs_wf_inode [OF wf] r(3) by (metis less_irrefl unpublished_def)
    then have "pc_ok l f1 u pc'"
      using r(1,2,5) by (auto simp: pc pc_ok_def owns_tmp_def pc_data_ok_def)
    moreover have "unpublished l f1 j" if "unpublished l f j" for j
      using that keys by (simp add: unpublished_def)
    ultimately show ?thesis
      using create_temp_ok [OF ok plain ct] r(1,3,4,6,7)
      by (auto simp: step_effect_def pc) (metis option.distinct(1))
  qed
qed

lemma effect_write:
  assumes ok: "local_ok l f" and own: "pc_ok l f u (PWrite tmp i)"
    and step: "put_step l u (PWrite tmp i) f = (pc', g)"
  shows "step_effect l u (PWrite tmp i) f pc' g"
proof -
  obtain d rerr where cp: "copy_limit (u_body u) (u_size u) = (d, rerr)" by fastforce
  obtain n werr f1 where wr: "os_write i d f = ((n, werr), f1)" by (metis prod.exhaust)
  note w = os_write_ok [OF wr]
  have pc: "pc' = PClose tmp i n (rerr \<or> werr)" "g = f1" using step by (auto simp: cp wr)
  have up: "unpublished l f i" and tmp: "owns_tmp l f u tmp"
    "fs_node f (path_norm tmp) = Some (FileNode i)"
    using own by (auto simp: pc_ok_def)
  have "unpublished l f1 j = unpublished l f j" for j by (simp add: unpublished_def w(2))
  moreover have "owns_tmp l f1 u tmp" using tmp(1) by (simp add: owns_tmp_def w(2))
  moreover have "pc_data_ok f1 u pc'" using w(5,7) by (auto simp: pc pc_data_ok_def cp)
  ultimately show ?thesis
    using ok up tmp w(1) [of l] w(2) w(4) [OF up] w(8)
    by (auto simp: step_effect_def pc pc_ok_def)
qed

lemma effect_close:
  assumes ok: "local_ok l f" and own: "pc_ok l f u (PClose tmp i n failed)"
    and step: "put_step l u (PClose tmp i n failed) f = (pc', g)"
  shows "step_effect l u (PClose tmp i n failed) f pc' g"
proof -
  obtain cerr f1 where cl: "os_close f = (cerr, f1)" by fastforce
  then obtain xs where g: "g = f\<lparr>fs_io := xs\<rparr>"
    using os_close_ok [OF cl] step by auto
  obtain d rerr where cp: "copy_limit (u_body u) (u_size u) = (d, rerr)" by fastforce
  have dat: "whole u (i_data (inode_of f i))" if "\<not> failed" "int n = u_size u"
  proof -
    have d: "i_data (inode_of f i) = d" "int (length d) = u_size u"
      using own that by (auto simp: pc_ok_def pc_data_ok_def cp)
    have eq: "d = take (nat (u_size u)) (rd_data (u_body u))" using copy_limit_take [OF cp d(2)] .
    show ?thesis using d eq arg_cong [OF eq, of length] by (auto simp: whole_def)
  qed
  have "pc_ok l f u pc' \<and> (pc_tmp pc' = Some tmp) \<and> \<not> put_succeeded pc' \<and>
      (pc_ino pc' = None \<or> pc_ino pc' = Some i)"
    using own step dat
    by (auto simp: cl pc_ok_def pc_data_ok_def split: if_splits)
  then show ?thesis unfolding g by (intro step_effect_io [OF ok]) (auto)
qed

lemma effect_done:
  assumes "local_ok l f" "pc_ok l f u (PDone res)"
  shows "step_effect l u (PDone res) f (PDone res) f"
  using assms by (auto simp: step_effect_def)

lemma effect_link:
  assumes ok: "local_ok l f" and h: "store_key (u_hash u)" and own: "pc_ok l f u (PLink tmp i)"
    and step: "put_step l u (PLink tmp i) f = (pc', g)"
  shows "step_effect l u (PLink tmp i) f pc' g"
proof -
  note plain = store_key_plain [OF h]
  obtain lr where ln: "os_link tmp (local_path l (u_hash u)) f = (lr, g)"
    using step by (auto split: prod.splits sum.splits os_err.splits)
  obtain r where tmp: "path_norm tmp = tmp_key l (u_hash u) r" "tmp \<noteq> []"
    "fs_node f (tmp_key l (u_hash u) r) = Some (FileNode i)" and up: "unpublished l f i"
    and dat: "whole u (i_data (inode_of f i))"
    using own by (auto simp: pc_ok_def owns_tmp_def pc_data_ok_def)
  note link = os_link_ok [OF ok h up tmp(1,2) tmp_key_parent tmp(3) ln]
  have name: "path_norm (local_path l (u_hash u)) = local_key l (u_hash u)"
    using local_path_key [OF local_ok_dir [OF ok] plain] .
  show ?thesis
  proof (cases lr)
    case (Inl e)
    have "\<exists>xs. g = f\<lparr>fs_io := xs\<rparr>" using os_link_fail [OF ln [unfolded Inl]] .
    then obtain xs where g: "g = f\<lparr>fs_io := xs\<rparr>" by blast
    have "\<exists>e'. pc' = PRemove tmp (Inl e')" using step ln Inl by (auto split: os_err.splits)
    then show ?thesis
      unfolding g using own by (intro step_effect_io [OF ok]) (auto simp: pc_ok_def pc_data_ok_def)
  next
    case (Inr x)
    then have pc: "pc' = PRemove tmp (Inr ())" using step ln by simp
    from link Inr have v: "local_ok l g" "local_view l f (u_hash u) = None"
      "local_view l g = (local_view l f)(u_hash u \<mapsto> (i_data (inode_of f i), i_mtime (inode_of f i)))"
      by auto
    have free: "fs_node f (local_key l (u_hash u)) = None"
      using local_view_None [OF ok h] v(2) by simp
    have "os_find tmp f = Inr (FileNode i)"
      using tmp ok by (simp add: os_find_def local_ok_def)
    then obtain xs where g: "g = f\<lparr>fs_io := xs, fs_names :=
        AList.update (local_key l (u_hash u)) (FileNode i) (fs_names f)\<rparr>"
      using os_link_success [OF ln [unfolded Inr]] name by auto
    have node: "fs_node g p = (if p = local_key l (u_hash u) then Some (FileNode i) else fs_node f p)" for p
      by (auto simp: g fs_node_def local_key_def)
    have "owns_tmp l g u tmp"
      using tmp tmp_key_not_key [OF plain h] by (auto simp: owns_tmp_def node)
    moreover have "stored l g u" using v(3) dat by (auto simp: stored_def)
    moreover have "unpublished l g j" if "unpublished l f j" "j \<noteq> i" for j
      using that by (auto simp: unpublished_def node)
    moreover have "inode_of g j = inode_of f j" for j by (simp add: g inode_of_def)
    ultimately show ?thesis
      using v free by (auto simp: step_effect_def pc pc_ok_def pc_data_ok_def node)
  qed
qed

lemma effect_remove:
  assumes ok: "local_ok l f" and h: "store_key (u_hash u)" and own: "pc_ok l f u (PRemove tmp res)"
    and step: "put_step l u (PRemove tmp res) f = (pc', g)"
  shows "step_effect l u (PRemove tmp res) f pc' g"
proof -
  note plain = store_key_plain [OF h]
  obtain rr where rm: "os_remove tmp f = (rr, g)" and pc: "pc' = PDone res"
    using step by (auto split: prod.splits)
  obtain r i where tmp: "path_norm tmp = tmp_key l (u_hash u) r" "tmp \<noteq> []"
    "fs_node f (tmp_key l (u_hash u) r) = Some (FileNode i)"
    using own by (auto simp: pc_ok_def owns_tmp_def)
  have keep: "local_ok l g" "local_view l g = local_view l f"
    using os_remove_tmp [OF ok plain tmp rm] by simp_all
  have "(\<exists>xs. g = f\<lparr>fs_io := xs\<rparr>) \<or>
      (\<exists>xs. g = f\<lparr>fs_io := xs, fs_names := AList.delete (tmp_key l (u_hash u) r) (fs_names f)\<rparr>)"
    using os_remove_key [OF ok tmp_name_plain(1) [OF plain, of r] tmp(1) [unfolded tmp_key_def] tmp(2) _ rm]
      tmp(3)
    by (auto simp: tmp_key_def split: sum.splits)
  then have node: "fs_node g p = fs_node f p \<or> (p = tmp_key l (u_hash u) r \<and> fs_node g p = None)"
    and ino: "inode_of g j = inode_of f j" for p j
    by (auto simp: fs_node_def inode_of_def tmp_key_def local_key_def split: if_splits)
  have "unpublished l g j" if "unpublished l f j" for j
    using that node by (metis option.distinct(1) unpublished_def)
  moreover have "stored l g u = stored l f u" by (simp add: stored_def keep)
  moreover have "fs_node g p = Some nd" if "fs_node f p = Some nd" "path_norm tmp \<noteq> p" for p nd
    using that node [of p] tmp(1) by auto
  ultimately show ?thesis
    using own keep ino by (auto simp: step_effect_def pc pc_ok_def pc_data_ok_def)
qed

lemma put_step_effect:
  assumes "local_ok l f" "store_key (u_hash u)" "pc_ok l f u pc" "put_step l u pc f = (pc', g)"
  shows "step_effect l u pc f pc' g"
proof (cases pc)
  case PStat
  then show ?thesis using effect_stat assms by simp
next
  case PTemp
  then show ?thesis using effect_temp assms by simp
next
  case (PWrite tmp i)
  then show ?thesis using effect_write assms by simp
next
  case (PClose tmp i n failed)
  then show ?thesis using effect_close assms by simp
next
  case (PLink tmp i)
  then show ?thesis using effect_link assms by simp
next
  case (PRemove tmp res)
  then show ?thesis using effect_remove assms by simp
next
  case (PDone res)
  then show ?thesis using effect_done [of l f u res] assms by auto
qed

section \<open>The invariant is kept by every interleaving\<close>

lemma pc_ok_frame:
  assumes own: "pc_ok l f u pc"
    and names: "\<And>t. pc_tmp pc = Some t \<Longrightarrow> fs_node g (path_norm t) = fs_node f (path_norm t)"
    and inos: "\<And>i. pc_ino pc = Some i \<Longrightarrow> unpublished l f i \<Longrightarrow>
           unpublished l g i \<and> inode_of g i = inode_of f i"
    and kept: "\<And>a. local_view l f (u_hash u) = Some a \<Longrightarrow> local_view l g (u_hash u) = Some a"
  shows "pc_ok l g u pc"
proof -
  have "owns_tmp l g u t" if "pc_tmp pc = Some t" for t
    using own names [OF that] that by (auto simp: pc_ok_def owns_tmp_def)
  moreover have "fs_node g (path_norm t) = Some (FileNode i) \<and> unpublished l g i"
    if "pc_tmp pc = Some t" "pc_ino pc = Some i" for t i
    using own names [OF that(1)] inos [OF that(2)] that by (auto simp: pc_ok_def)
  moreover have "pc_data_ok g u pc"
  proof (cases pc)
    case (PClose t i n failed)
    then show ?thesis using own inos [of i] by (auto simp: pc_ok_def pc_data_ok_def)
  next
    case (PLink t i)
    then show ?thesis using own inos [of i] by (auto simp: pc_ok_def pc_data_ok_def)
  qed (auto simp: pc_data_ok_def)
  moreover have "stored l g u" if "stored l f u" using that kept by (auto simp: stored_def)
  ultimately show ?thesis using own by (auto simp: pc_ok_def)
qed

lemma pc_tmp_node: "pc_ok l f u pc \<Longrightarrow> pc_tmp pc = Some t \<Longrightarrow> fs_node f (path_norm t) \<noteq> None"
  by (auto simp: pc_ok_def owns_tmp_def)

lemma pc_ino_tmp: "pc_ino pc = Some i \<Longrightarrow> \<exists>t. pc_tmp pc = Some t"
  by (cases pc) auto

lemma pc_ino_below:
  assumes "local_ok l f" "pc_ok l f u pc" "pc_ino pc = Some i"
  shows "i < fs_next f" "unpublished l f i"
proof -
  obtain t where "pc_tmp pc = Some t" using pc_ino_tmp [OF assms(3)] ..
  then have "fs_node f (path_norm t) = Some (FileNode i)" "unpublished l f i"
    using assms(2,3) by (auto simp: pc_ok_def)
  then show "i < fs_next f" "unpublished l f i"
    using assms(1) fs_wf_inode by (auto simp: local_ok_def)
qed

lemma apart_tmp:
  "apart pcs \<Longrightarrow> i \<noteq> j \<Longrightarrow> pc_tmp (pcs i) = Some t \<Longrightarrow> pc_tmp (pcs j) = Some t' \<Longrightarrow>
     path_norm t \<noteq> path_norm t'"
  unfolding apart_def by blast

lemma apart_ino:
  "apart pcs \<Longrightarrow> i \<noteq> j \<Longrightarrow> pc_ino (pcs i) = Some a \<Longrightarrow> pc_ino (pcs j) = Some b \<Longrightarrow> a \<noteq> b"
  unfolding apart_def by blast

text \<open>A step of one upload: the others stay as they were, and all stay apart.\<close>

lemma step_others:
  assumes "local_ok l f" "\<And>i. store_key (u_hash (ups i))" "\<And>j. pc_ok l f (ups j) (pcs j)" "apart pcs"
    and "put_step l (ups i) (pcs i) f = (pc', g)" "j \<noteq> i"
  shows "pc_ok l g (ups j) (pcs j)"
proof (rule pc_ok_frame [OF assms(3)])
  note eff = put_step_effect [OF assms(1-3,5), unfolded step_effect_def]
  show "local_view l g h = Some a" if "local_view l f h = Some a" for h a
    using eff that by (metis option.distinct(1))
  fix t assume t: "pc_tmp (pcs j) = Some t"
  then have "\<forall>t'. pc_tmp (pcs i) = Some t' \<longrightarrow> path_norm t' \<noteq> path_norm t"
    using apart_tmp [OF assms(4,6)] by metis
  moreover have "fs_node g p = Some nd"
    if "fs_node f p = Some nd" "\<forall>t. pc_tmp (pcs i) = Some t \<longrightarrow> path_norm t \<noteq> p" for p nd
    using eff that by blast
  ultimately show "fs_node g (path_norm t) = fs_node f (path_norm t)"
    using pc_tmp_node [OF assms(3) t] by (metis option.exhaust)
next
  note eff = put_step_effect [OF assms(1-3,5), unfolded step_effect_def]
  fix a assume a: "pc_ino (pcs j) = Some a" "unpublished l f a"
  then have "pc_ino (pcs i) \<noteq> Some a" using apart_ino [OF assms(4,6)] by metis
  then show "unpublished l g a \<and> inode_of g a = inode_of f a"
    using eff a pc_ino_below [OF assms(1,3) a(1)] by blast
qed

lemma step_apart:
  assumes "local_ok l f" "\<And>i. store_key (u_hash (ups i))" "\<And>j. pc_ok l f (ups j) (pcs j)" "apart pcs"
    and "put_step l (ups i) (pcs i) f = (pc', g)"
  shows "apart (pcs(i := pc'))"
proof -
  note eff = put_step_effect [OF assms(1-3,5), unfolded step_effect_def]
  have fresh: "path_norm t \<noteq> path_norm t'" if "pc_tmp pc' = Some t" "pc_tmp (pcs j) = Some t'" "j \<noteq> i" for t t' j
    using that eff assms(4) pc_tmp_node [OF assms(3) that(2)] by (metis apart_tmp)
  have fresh_ino: "a \<noteq> b" if "pc_ino pc' = Some a" "pc_ino (pcs j) = Some b" "j \<noteq> i" for a b j
    using that eff assms(4) pc_ino_below(1) [OF assms(1,3) that(2)] by (metis apart_ino less_irrefl)
  show ?thesis
    unfolding apart_def
  proof (intro conjI allI impI; elim conjE)
    fix j k t t' assume "j \<noteq> k" "pc_tmp ((pcs(i := pc')) j) = Some t" "pc_tmp ((pcs(i := pc')) k) = Some t'"
    then show "path_norm t \<noteq> path_norm t'"
      using fresh [of t k t'] fresh [of t' j t] apart_tmp [OF assms(4), of j k t t'] by (auto split: if_splits)
  next
    fix j k a b assume "j \<noteq> k" "pc_ino ((pcs(i := pc')) j) = Some a" "pc_ino ((pcs(i := pc')) k) = Some b"
    then show "a \<noteq> b"
      using fresh_ino [of a k b] fresh_ino [of b j a] apart_ino [OF assms(4), of j k a b] by (auto split: if_splits)
  qed
qed

lemma race_inv_step:
  assumes inv: "race_inv l ups v0 (f, pcs)" and keys: "\<And>i. store_key (u_hash (ups i))"
    and step: "put_step l (ups i) (pcs i) f = (pc', g)"
  shows "race_inv l ups v0 (g, pcs(i := pc'))"
proof -
  have ok: "local_ok l f" and own: "\<And>j. pc_ok l f (ups j) (pcs j)" and ap: "apart pcs"
    and uniq: "\<And>j k. put_succeeded (pcs j) \<Longrightarrow> put_succeeded (pcs k) \<Longrightarrow>
           u_hash (ups j) = u_hash (ups k) \<Longrightarrow> j = k"
    and seen: "\<And>h. local_view l f h = v0 h \<or>
           (v0 h = None \<and> (\<exists>i. put_succeeded (pcs i) \<and> u_hash (ups i) = h))"
    using inv by (auto simp: race_inv_def)
  note eff = put_step_effect [OF ok keys own step, unfolded step_effect_def]
  have "apart (pcs(i := pc'))" by (rule step_apart [OF ok keys own ap step])
  moreover have "pc_ok l g (ups j) ((pcs(i := pc')) j)" for j
    using eff step_others [where ups = ups, OF ok keys own ap step] by simp
  moreover have new: "j = i" if "put_succeeded (pcs j)" "put_succeeded pc'"
    "u_hash (ups j) = u_hash (ups i)" for j
  proof (cases "put_succeeded (pcs i)")
    case True
    then show ?thesis using uniq that by blast
  next
    case False
    then have "local_view l f (u_hash (ups i)) = None" using eff that(2) by blast
    moreover have "stored l f (ups j)" using own [of j] that(1) by (simp add: pc_ok_def)
    ultimately show ?thesis using that(3) by (auto simp: stored_def)
  qed
  moreover have "local_view l g h = v0 h \<or>
      (v0 h = None \<and> (\<exists>k. put_succeeded ((pcs(i := pc')) k) \<and> u_hash (ups k) = h))" for h
    using seen [of h] eff by (metis fun_upd_apply)
  ultimately show ?thesis
    using eff uniq new by (auto simp: race_inv_def)
qed

lemma race_inv_init:
  assumes "local_ok l f" shows "race_inv l ups (local_view l f) (f, \<lambda>_. PStat)"
  using assms by (auto simp: race_inv_def apart_def intro: pc_ok_inactive)

lemma race_reach_inv:
  assumes "race_reach l ups f0 c" "local_ok l f0" "\<And>i. store_key (u_hash (ups i))"
  shows "race_inv l ups (local_view l f0) c"
  using assms(1)
proof (induction rule: race_reach.induct)
  case race_init
  show ?case by (rule race_inv_init [OF assms(2)])
next
  case (race_next c c')
  from race_next.hyps(2) obtain f pcs i pc' g where
    "c = (f, pcs)" "c' = (g, pcs(i := pc'))" "put_step l (ups i) (pcs i) f = (pc', g)"
    by (auto elim: race_stepE)
  then show ?case using race_inv_step race_next.IH assms(3) by blast
qed

section \<open>Schedules\<close>

text \<open>A schedule names the upload that moves next; running it is a path of \<open>race_step\<close>.\<close>

fun race_run :: "local_dir \<Rightarrow> (nat \<Rightarrow> upload) \<Rightarrow> nat list \<Rightarrow> race \<Rightarrow> race" where
  "race_run l ups [] c = c"
| "race_run l ups (i # is) (f, pcs) =
     (case put_step l (ups i) (pcs i) f of (pc', g) \<Rightarrow> race_run l ups is (g, pcs(i := pc')))"

lemma race_reach_put:
  "race_reach l ups f0 (f, pcs) \<Longrightarrow> put_step l (ups i) (pcs i) f = (pc', g) \<Longrightarrow>
     race_reach l ups f0 (g, pcs(i := pc'))"
  by (rule race_next) (auto intro: race_stepI)

lemma race_run_reach:
  "race_reach l ups f0 c \<Longrightarrow> race_reach l ups f0 (race_run l ups is c)"
  by (induction l ups "is" c rule: race_run.induct)
     (auto split: prod.split dest: race_reach_put)

fun pc_rank :: "put_pc \<Rightarrow> nat" where
  "pc_rank PStat = 6"
| "pc_rank PTemp = 5"
| "pc_rank (PWrite _ _) = 4"
| "pc_rank (PClose _ _ _ _) = 3"
| "pc_rank (PLink _ _) = 2"
| "pc_rank (PRemove _ _) = 1"
| "pc_rank (PDone _) = 0"

lemma put_step_rank:
  "put_step l u pc f = (pc', g) \<Longrightarrow> pc_rank pc' \<le> pc_rank pc - 1"
  by (cases pc) (auto split: prod.splits sum.splits os_err.splits if_splits)

lemma pc_rank_0: "pc_rank pc = 0 \<Longrightarrow> \<exists>res. pc = PDone res"
  by (cases pc) auto

lemma race_run_rank:
  "race_run l ups is (f, pcs) = (f', pcs') \<Longrightarrow> pc_rank (pcs' i) \<le> pc_rank (pcs i) - count_list is i"
proof (induction "is" arbitrary: f pcs)
  case Nil
  then show ?case by simp
next
  case (Cons j js)
  obtain pc' g where st: "put_step l (ups j) (pcs j) f = (pc', g)" by fastforce
  with Cons.prems have "race_run l ups js (g, pcs(j := pc')) = (f', pcs')" by simp
  then have "pc_rank (pcs' i) \<le> pc_rank ((pcs(j := pc')) i) - count_list js i" by (rule Cons.IH)
  then show ?case using put_step_rank [OF st] by (auto split: if_splits)
qed

section \<open>Properties\<close>

text \<open>
  C1. However the uploads to one directory interleave: of the uploads of one hash at most one
  succeeds; a hash whose upload succeeded holds exactly the announced bytes of that upload; an
  artifact present before is still there unchanged; and whatever is visible under a hash is
  either what was there before or the complete artifact of a successful upload.
\<close>

theorem local_race_safe:
  assumes "race_reach l ups f0 (f, pcs)" "local_ok l f0" "\<forall>i. valid_hash (u_hash (ups i))"
  shows "(\<forall>i j. put_succeeded (pcs i) \<and> put_succeeded (pcs j) \<and> u_hash (ups i) = u_hash (ups j) \<longrightarrow> i = j) \<and>
    (\<forall>i. put_succeeded (pcs i) \<longrightarrow>
       (\<exists>t. local_view l f (u_hash (ups i)) =
          Some (take (nat (u_size (ups i))) (rd_data (u_body (ups i))), t))) \<and>
    (\<forall>h a. local_view l f0 h = Some a \<longrightarrow> local_view l f h = Some a) \<and>
    (\<forall>h a. local_view l f h = Some a \<longrightarrow> local_view l f0 h = Some a \<or>
       (\<exists>i. put_succeeded (pcs i) \<and> u_hash (ups i) = h \<and> whole (ups i) (fst a)))"
proof -
  have "race_inv l ups (local_view l f0) (f, pcs)"
    using race_reach_inv [OF assms(1,2)] assms(3) valid_hash_store_key by blast
  then have inv: "\<And>i. pc_ok l f (ups i) (pcs i)"
    "\<And>i j. put_succeeded (pcs i) \<Longrightarrow> put_succeeded (pcs j) \<Longrightarrow> u_hash (ups i) = u_hash (ups j) \<Longrightarrow> i = j"
    "\<And>h. local_view l f h = local_view l f0 h \<or>
       (local_view l f0 h = None \<and> (\<exists>i. put_succeeded (pcs i) \<and> u_hash (ups i) = h))"
    by (auto simp: race_inv_def)
  have st: "stored l f (ups i)" if "put_succeeded (pcs i)" for i
    using inv(1) [of i] that by (simp add: pc_ok_def)
  have "\<exists>i. put_succeeded (pcs i) \<and> u_hash (ups i) = h \<and> whole (ups i) (fst a)"
    if "local_view l f h = Some a" "local_view l f0 h \<noteq> Some a" for h a
  proof -
    note view = that
    obtain i where i: "put_succeeded (pcs i)" "u_hash (ups i) = h"
      using inv(3) [of h] view by auto
    then show ?thesis using st [OF i(1)] view(1) by (auto simp: stored_def)
  qed
  moreover have "local_view l f h = Some a" if "local_view l f0 h = Some a" for h a
    using inv(3) [of h] that by auto
  ultimately show ?thesis
    using inv(2) st by (fastforce simp: stored_def whole_def)
qed

definition race_fs :: fs where
  "race_fs = \<lparr>fs_names = [((False, [''c'']), DirNode)], fs_inodes = [], fs_next = 0,
              fs_rands = [7, 7, 8], fs_io = [], fs_clock = 5, fs_dirsize = 4096\<rparr>"

definition race_ups :: "nat \<Rightarrow> upload" where
  "race_ups i = \<lparr>u_hash = ''ab'', u_body = \<lparr>rd_data = [word_of_nat i, 9], rd_err = False\<rparr>, u_size = 2\<rparr>"

definition race_sched :: "nat list" where "race_sched = [0, 1, 1, 0, 0, 1, 1, 0, 1, 0, 1, 0]"

text \<open>Two uploads of one hash, interleaved call by call: the second wins.\<close>

theorem local_race_safe_witness:
  "\<exists>f pcs. race_run \<lparr>l_dir = ''c''\<rparr> race_ups race_sched (race_fs, \<lambda>_. PStat) = (f, pcs) \<and>
     pcs 0 = PDone (Inl ErrAlreadyExists) \<and> pcs 1 = PDone (Inr ()) \<and>
     (\<exists>t. local_view \<lparr>l_dir = ''c''\<rparr> f ''ab'' = Some ([1, 9], t))"
proof -
  let ?l = "\<lparr>l_dir = ''c''\<rparr>"
  obtain f pcs where run: "race_run ?l race_ups race_sched (race_fs, \<lambda>_. PStat) = (f, pcs)"
    by fastforce
  have "(\<lambda>(f, pcs). (pcs 0, pcs 1)) (race_run ?l race_ups race_sched (race_fs, \<lambda>_. PStat)) =
      (PDone (Inl ErrAlreadyExists), PDone (Inr ()))"
    by code_simp
  then have pc: "pcs 0 = PDone (Inl ErrAlreadyExists)" "pcs 1 = PDone (Inr ())" by (simp_all add: run)
  have reach: "race_reach ?l race_ups race_fs (f, pcs)"
    using race_run_reach [OF race_init] run by metis
  have ok: "local_ok ?l race_fs" by code_simp
  have "valid_hash ''ab''" by code_simp
  then have valid: "\<forall>i. valid_hash (u_hash (race_ups i))" by (simp add: race_ups_def)
  have "put_succeeded (pcs 1)" by (simp only: pc put_succeeded.simps)
  then have "\<exists>t. local_view ?l f (u_hash (race_ups 1)) =
      Some (take (nat (u_size (race_ups 1))) (rd_data (u_body (race_ups 1))), t)"
    using local_race_safe [OF reach ok valid] by blast
  then show ?thesis using run pc by (auto simp: race_ups_def)
qed



end
