(* ===== verification/Store.thy ===== *)
theory Store
  imports Nx_Prelude
begin

text \<open>
  The Postgres store, \<open>internal/store\<close>, over the schema of \<open>internal/db/migrations\<close>: one record
  field per table, one definition per method, each the SQL statement it sends. Constraints
  (primary and foreign keys, \<open>UNIQUE\<close>, \<open>CHECK\<close>, integer ranges) are checked where Postgres
  checks them, with the error codes it reports; a sequence advances even when its insert fails.

  Any statement can be lost with the connection, before or after the server ran it: the field
  \<open>pg_faults\<close> is the schedule of such losses, one item per statement. The arguments \<open>now\<close> are
  the database clock at the statement.
\<close>

section \<open>Tables\<close>

record user =
  usr_id :: int
  usr_email :: string
  usr_pwhash :: string
  usr_created :: time

record session =
  ses_hash :: string
  ses_user :: int
  ses_expires :: time

definition scope_read :: string where "scope_read = ''read''"
definition scope_write :: string where "scope_write = ''write''"

record token =
  tok_id :: int
  tok_name :: string
  tok_scope :: string
  tok_created_by :: "int option"
  tok_created :: time
  tok_last_used :: "time option"
  tok_revoked :: "time option"

text \<open>A row of the table \<open>tokens\<close>: the hash is stored but never read back into a \<open>Token\<close>.\<close>

record token_row =
  row_hash :: string
  row_token :: token

definition storage_local :: string where "storage_local = ''local''"
definition storage_s3 :: string where "storage_s3 = ''s3''"
definition storage_gcs :: string where "storage_gcs = ''gcs''"

record app_settings =
  as_backend :: string
  as_local_dir :: string
  as_s3_bucket :: string
  as_s3_region :: string
  as_s3_prefix :: string
  as_s3_endpoint :: string
  as_s3_path_style :: bool
  as_s3_key_enc :: "string option"
  as_s3_secret_enc :: "string option"
  as_gcs_bucket :: string
  as_gcs_prefix :: string
  as_gcs_creds_enc :: "string option"
  as_ttl_seconds :: int
  as_max_bytes :: int
  as_updated_at :: time
  as_updated_by :: "int option"

record read_stats =
  rs_count :: int
  rs_last :: "time option"

datatype db_fault = DbFine | DbLostBefore | DbLostAfter

record pg =
  pg_users :: "user list"
  pg_user_seq :: int
  pg_sessions :: "session list"
  pg_tokens :: "token_row list"
  pg_token_seq :: int
  pg_settings :: app_settings
  pg_reads :: "(string \<times> read_stats) list"
  pg_faults :: "db_fault list"

text \<open>The state the migrations leave: empty tables and the seeded row of settings.\<close>

definition seeded_settings :: "time \<Rightarrow> app_settings" where
  "seeded_settings now =
     \<lparr>as_backend = storage_local, as_local_dir = ''./data'', as_s3_bucket = [], as_s3_region = [],
      as_s3_prefix = [], as_s3_endpoint = [], as_s3_path_style = False, as_s3_key_enc = None,
      as_s3_secret_enc = None, as_gcs_bucket = [], as_gcs_prefix = [], as_gcs_creds_enc = None,
      as_ttl_seconds = 86400, as_max_bytes = 524288000, as_updated_at = now, as_updated_by = None\<rparr>"

definition migrated_pg :: "time \<Rightarrow> db_fault list \<Rightarrow> pg" where
  "migrated_pg now faults =
     \<lparr>pg_users = [], pg_user_seq = 1, pg_sessions = [], pg_tokens = [], pg_token_seq = 1,
      pg_settings = seeded_settings now, pg_reads = [], pg_faults = faults\<rparr>"

section \<open>Statements and their errors\<close>

datatype store_err = StNotFound | StConflict | StDb

text \<open>What the server answers: rows, or an error with its SQLSTATE code.\<close>

datatype 'a sql = Rows 'a | SqlErr string

definition is_unique_violation :: "string \<Rightarrow> bool" where
  "is_unique_violation code \<longleftrightarrow> code = ''23505''"

definition fk_violation :: string where "fk_violation = ''23503''"
definition check_violation :: string where "check_violation = ''23514''"
definition out_of_range :: string where "out_of_range = ''22003''"

text \<open>Sending one statement; \<open>None\<close> is a lost connection.\<close>

definition pg_call :: "(pg \<Rightarrow> 'a sql \<times> pg) \<Rightarrow> pg \<Rightarrow> 'a sql option \<times> pg" where
  "pg_call q p =
     (case pg_faults p of
        [] \<Rightarrow> map_prod Some id (q p)
      | f # fs \<Rightarrow>
          (let p0 = p\<lparr>pg_faults := fs\<rparr>
           in case f of
                DbFine \<Rightarrow> map_prod Some id (q p0)
              | DbLostBefore \<Rightarrow> (None, p0)
              | DbLostAfter \<Rightarrow> (None, snd (q p0))))"

definition plain_result :: "'a sql option \<Rightarrow> store_err + 'a" where
  "plain_result r = (case r of Some (Rows a) \<Rightarrow> Inr a | _ \<Rightarrow> Inl StDb)"

definition conflict_result :: "'a sql option \<Rightarrow> store_err + 'a" where
  "conflict_result r =
     (case r of
        Some (Rows a) \<Rightarrow> Inr a
      | Some (SqlErr code) \<Rightarrow> Inl (if is_unique_violation code then StConflict else StDb)
      | None \<Rightarrow> Inl StDb)"

text \<open>\<open>QueryRow\<close> without a row is \<open>pgx.ErrNoRows\<close>, which the methods turn into \<open>ErrNotFound\<close>.\<close>

definition row_result :: "'a option sql option \<Rightarrow> store_err + 'a" where
  "row_result r =
     (case r of
        Some (Rows None) \<Rightarrow> Inl StNotFound
      | Some (Rows (Some a)) \<Rightarrow> Inr a
      | _ \<Rightarrow> Inl StDb)"

text \<open>A statement that affected no row is reported as \<open>ErrNotFound\<close>.\<close>

definition affected_result :: "nat sql option \<Rightarrow> store_err + unit" where
  "affected_result r =
     (case r of
        Some (Rows n) \<Rightarrow> (if n = 0 then Inl StNotFound else Inr ())
      | _ \<Rightarrow> Inl StDb)"

section \<open>users.go\<close>

definition user_ids :: "pg \<Rightarrow> int list" where
  "user_ids p = map usr_id (pg_users p)"

definition q_create_user :: "time \<Rightarrow> string \<Rightarrow> string \<Rightarrow> pg \<Rightarrow> user sql \<times> pg" where
  "q_create_user now email pwhash p =
     (let p1 = p\<lparr>pg_user_seq := pg_user_seq p + 1\<rparr>;
          u = \<lparr>usr_id = pg_user_seq p, usr_email = email, usr_pwhash = pwhash, usr_created = now\<rparr>
      in if email \<in> set (map usr_email (pg_users p)) then (SqlErr ''23505'', p1)
         else (Rows u, p1\<lparr>pg_users := pg_users p @ [u]\<rparr>))"

definition create_user :: "time \<Rightarrow> string \<Rightarrow> string \<Rightarrow> pg \<Rightarrow> (store_err + user) \<times> pg" where
  "create_user now email pwhash p = map_prod conflict_result id (pg_call (q_create_user now email pwhash) p)"

definition get_user_by_email :: "string \<Rightarrow> pg \<Rightarrow> (store_err + user) \<times> pg" where
  "get_user_by_email email p =
     map_prod row_result id
       (pg_call (\<lambda>p. (Rows (find (\<lambda>u. usr_email u = email) (pg_users p)), p)) p)"

definition get_user_by_id :: "int \<Rightarrow> pg \<Rightarrow> (store_err + user) \<times> pg" where
  "get_user_by_id i p =
     map_prod row_result id (pg_call (\<lambda>p. (Rows (find (\<lambda>u. usr_id u = i) (pg_users p)), p)) p)"

definition list_users :: "pg \<Rightarrow> (store_err + user list) \<times> pg" where
  "list_users p =
     map_prod plain_result id (pg_call (\<lambda>p. (Rows (sort_key usr_created (pg_users p)), p)) p)"

text \<open>Deleting a user cascades to its sessions and clears the references of tokens and settings.\<close>

definition clear_ref :: "int \<Rightarrow> int option \<Rightarrow> int option" where
  "clear_ref i r = (if r = Some i then None else r)"

definition q_delete_user :: "int \<Rightarrow> pg \<Rightarrow> nat sql \<times> pg" where
  "q_delete_user i p =
     (if i \<in> set (user_ids p)
      then (Rows 1,
            p\<lparr>pg_users := filter (\<lambda>u. usr_id u \<noteq> i) (pg_users p),
              pg_sessions := filter (\<lambda>s. ses_user s \<noteq> i) (pg_sessions p),
              pg_tokens := map (\<lambda>r. r\<lparr>row_token := (row_token r)
                \<lparr>tok_created_by := clear_ref i (tok_created_by (row_token r))\<rparr>\<rparr>) (pg_tokens p),
              pg_settings := (pg_settings p)\<lparr>as_updated_by := clear_ref i (as_updated_by (pg_settings p))\<rparr>\<rparr>)
      else (Rows 0, p))"

definition delete_user :: "int \<Rightarrow> pg \<Rightarrow> (store_err + unit) \<times> pg" where
  "delete_user i p = map_prod affected_result id (pg_call (q_delete_user i) p)"

definition count_users :: "pg \<Rightarrow> (store_err + nat) \<times> pg" where
  "count_users p = map_prod plain_result id (pg_call (\<lambda>p. (Rows (length (pg_users p)), p)) p)"

definition q_update_password :: "int \<Rightarrow> string \<Rightarrow> pg \<Rightarrow> nat sql \<times> pg" where
  "q_update_password i pwhash p =
     (Rows (length (filter (\<lambda>u. usr_id u = i) (pg_users p))),
      p\<lparr>pg_users := map (\<lambda>u. if usr_id u = i then u\<lparr>usr_pwhash := pwhash\<rparr> else u) (pg_users p)\<rparr>)"

definition update_password :: "int \<Rightarrow> string \<Rightarrow> pg \<Rightarrow> (store_err + unit) \<times> pg" where
  "update_password i pwhash p = map_prod affected_result id (pg_call (q_update_password i pwhash) p)"

section \<open>sessions.go\<close>

definition q_create_session :: "string \<Rightarrow> int \<Rightarrow> time \<Rightarrow> pg \<Rightarrow> unit sql \<times> pg" where
  "q_create_session hash uid expires p =
     (if hash \<in> set (map ses_hash (pg_sessions p)) then (SqlErr ''23505'', p)
      else if uid \<notin> set (user_ids p) then (SqlErr fk_violation, p)
      else (Rows (), p\<lparr>pg_sessions := pg_sessions p @
              [\<lparr>ses_hash = hash, ses_user = uid, ses_expires = expires\<rparr>]\<rparr>))"

definition create_session :: "string \<Rightarrow> int \<Rightarrow> time \<Rightarrow> pg \<Rightarrow> (store_err + unit) \<times> pg" where
  "create_session hash uid expires p =
     map_prod plain_result id (pg_call (q_create_session hash uid expires) p)"

definition get_session :: "time \<Rightarrow> string \<Rightarrow> pg \<Rightarrow> (store_err + session) \<times> pg" where
  "get_session now hash p =
     map_prod row_result id
       (pg_call (\<lambda>p. (Rows (find (\<lambda>s. ses_hash s = hash \<and> now < ses_expires s) (pg_sessions p)), p)) p)"

definition delete_session :: "string \<Rightarrow> pg \<Rightarrow> (store_err + unit) \<times> pg" where
  "delete_session hash p =
     map_prod plain_result id
       (pg_call (\<lambda>p. (Rows (), p\<lparr>pg_sessions := filter (\<lambda>s. ses_hash s \<noteq> hash) (pg_sessions p)\<rparr>)) p)"

definition delete_expired_sessions :: "time \<Rightarrow> pg \<Rightarrow> (store_err + unit) \<times> pg" where
  "delete_expired_sessions now p =
     map_prod plain_result id
       (pg_call (\<lambda>p. (Rows (), p\<lparr>pg_sessions := filter (\<lambda>s. now < ses_expires s) (pg_sessions p)\<rparr>)) p)"

section \<open>tokens.go\<close>

definition q_create_token ::
  "time \<Rightarrow> string \<Rightarrow> string \<Rightarrow> string \<Rightarrow> int \<Rightarrow> pg \<Rightarrow> token sql \<times> pg" where
  "q_create_token now name scope hash created_by p =
     (let p1 = p\<lparr>pg_token_seq := pg_token_seq p + 1\<rparr>;
          t = \<lparr>tok_id = pg_token_seq p, tok_name = name, tok_scope = scope,
               tok_created_by = Some created_by, tok_created = now,
               tok_last_used = None, tok_revoked = None\<rparr>
      in if scope \<notin> {scope_read, scope_write} then (SqlErr check_violation, p1)
         else if hash \<in> set (map row_hash (pg_tokens p)) then (SqlErr ''23505'', p1)
         else if created_by \<notin> set (user_ids p) then (SqlErr fk_violation, p1)
         else (Rows t, p1\<lparr>pg_tokens := pg_tokens p @ [\<lparr>row_hash = hash, row_token = t\<rparr>]\<rparr>))"

definition create_token ::
  "time \<Rightarrow> string \<Rightarrow> string \<Rightarrow> string \<Rightarrow> int \<Rightarrow> pg \<Rightarrow> (store_err + token) \<times> pg" where
  "create_token now name scope hash created_by p =
     map_prod conflict_result id (pg_call (q_create_token now name scope hash created_by) p)"

definition list_tokens :: "pg \<Rightarrow> (store_err + token list) \<times> pg" where
  "list_tokens p =
     map_prod plain_result id
       (pg_call (\<lambda>p. (Rows (sort_key (\<lambda>t. - tok_created t) (map row_token (pg_tokens p))), p)) p)"

definition revoke_row :: "time \<Rightarrow> int \<Rightarrow> token_row \<Rightarrow> token_row" where
  "revoke_row now i r =
     (if tok_id (row_token r) = i \<and> tok_revoked (row_token r) = None
      then r\<lparr>row_token := (row_token r)\<lparr>tok_revoked := Some now\<rparr>\<rparr> else r)"

definition q_revoke_token :: "time \<Rightarrow> int \<Rightarrow> pg \<Rightarrow> nat sql \<times> pg" where
  "q_revoke_token now i p =
     (Rows (length (filter (\<lambda>r. tok_id (row_token r) = i \<and> tok_revoked (row_token r) = None) (pg_tokens p))),
      p\<lparr>pg_tokens := map (revoke_row now i) (pg_tokens p)\<rparr>)"

definition revoke_token :: "time \<Rightarrow> int \<Rightarrow> pg \<Rightarrow> (store_err + unit) \<times> pg" where
  "revoke_token now i p = map_prod affected_result id (pg_call (q_revoke_token now i) p)"

definition active_hash :: "string \<Rightarrow> token_row \<Rightarrow> bool" where
  "active_hash hash r \<longleftrightarrow> row_hash r = hash \<and> tok_revoked (row_token r) = None"

definition use_row :: "time \<Rightarrow> string \<Rightarrow> token_row \<Rightarrow> token_row" where
  "use_row now hash r =
     (if active_hash hash r then r\<lparr>row_token := (row_token r)\<lparr>tok_last_used := Some now\<rparr>\<rparr> else r)"

definition q_authenticate :: "time \<Rightarrow> string \<Rightarrow> pg \<Rightarrow> token option sql \<times> pg" where
  "q_authenticate now hash p =
     (Rows (map_option row_token (find (active_hash hash) (map (use_row now hash) (pg_tokens p)))),
      p\<lparr>pg_tokens := map (use_row now hash) (pg_tokens p)\<rparr>)"

definition authenticate :: "time \<Rightarrow> string \<Rightarrow> pg \<Rightarrow> (store_err + token) \<times> pg" where
  "authenticate now hash p = map_prod row_result id (pg_call (q_authenticate now hash) p)"

section \<open>settings.go\<close>

definition get_settings :: "pg \<Rightarrow> (store_err + app_settings) \<times> pg" where
  "get_settings p = map_prod plain_result id (pg_call (\<lambda>p. (Rows (pg_settings p), p)) p)"

text \<open>The columns are \<open>INT\<close> and \<open>BIGINT\<close>, the backend is one of three names, and \<open>updated_by\<close>
  refers to a user.\<close>

definition q_update_settings :: "time \<Rightarrow> app_settings \<Rightarrow> int \<Rightarrow> pg \<Rightarrow> unit sql \<times> pg" where
  "q_update_settings now st updated_by p =
     (if \<not> (- (2 ^ 31) \<le> as_ttl_seconds st \<and> as_ttl_seconds st < 2 ^ 31) \<or>
         \<not> (- (2 ^ 63) \<le> as_max_bytes st \<and> as_max_bytes st < 2 ^ 63) then (SqlErr out_of_range, p)
      else if as_backend st \<notin> {storage_local, storage_s3, storage_gcs} then (SqlErr check_violation, p)
      else if updated_by \<notin> set (user_ids p) then (SqlErr fk_violation, p)
      else (Rows (), p\<lparr>pg_settings := st\<lparr>as_updated_at := now, as_updated_by := Some updated_by\<rparr>\<rparr>))"

definition update_settings :: "time \<Rightarrow> app_settings \<Rightarrow> int \<Rightarrow> pg \<Rightarrow> (store_err + unit) \<times> pg" where
  "update_settings now st updated_by p =
     map_prod plain_result id (pg_call (q_update_settings now st updated_by) p)"

section \<open>cache\_reads.go\<close>

definition q_record_cache_read :: "time \<Rightarrow> string \<Rightarrow> pg \<Rightarrow> unit sql \<times> pg" where
  "q_record_cache_read now hash p =
     (case map_of (pg_reads p) hash of
        None \<Rightarrow> (Rows (), p\<lparr>pg_reads := AList.update hash \<lparr>rs_count = 1, rs_last = Some now\<rparr> (pg_reads p)\<rparr>)
      | Some s \<Rightarrow>
          (if rs_count s + 1 < 2 ^ 63
           then (Rows (), p\<lparr>pg_reads := AList.update hash
                   \<lparr>rs_count = rs_count s + 1, rs_last = Some now\<rparr> (pg_reads p)\<rparr>)
           else (SqlErr out_of_range, p)))"

definition record_cache_read :: "time \<Rightarrow> string \<Rightarrow> pg \<Rightarrow> (store_err + unit) \<times> pg" where
  "record_cache_read now hash p = map_prod plain_result id (pg_call (q_record_cache_read now hash) p)"

definition delete_cache_read_stats :: "string \<Rightarrow> pg \<Rightarrow> (store_err + unit) \<times> pg" where
  "delete_cache_read_stats hash p =
     map_prod plain_result id
       (pg_call (\<lambda>p. (Rows (), p\<lparr>pg_reads := AList.delete hash (pg_reads p)\<rparr>)) p)"

text \<open>No statement is sent for an empty batch.\<close>

definition get_cache_read_stats_batch ::
  "string list \<Rightarrow> pg \<Rightarrow> (store_err + (string \<times> read_stats) list) \<times> pg" where
  "get_cache_read_stats_batch hashes p =
     (if hashes = [] then (Inr [], p)
      else map_prod plain_result id
             (pg_call (\<lambda>p. (Rows (filter (\<lambda>(h, _). h \<in> set hashes) (pg_reads p)), p)) p))"

definition list_all_cache_read_stats :: "pg \<Rightarrow> (store_err + (string \<times> read_stats) list) \<times> pg" where
  "list_all_cache_read_stats p =
     map_prod plain_result id (pg_call (\<lambda>p. (Rows (pg_reads p), p)) p)"

end
