(* ===== verification/StoreInv.thy ===== *)
theory StoreInv
  imports Store
begin

text \<open>
  What the Postgres store keeps: the integrity of its tables under every method of
  \<open>internal/store\<close> and every schedule of lost connections, and the finality of revoking a token
  and of deleting a user over any later sequence of calls.
\<close>

section \<open>The integrity of the tables\<close>

text \<open>Keys are unique, references resolve, serial ids lie below their sequence.\<close>

definition ref_ok :: "user list \<Rightarrow> int option \<Rightarrow> bool" where
  "ref_ok us r \<longleftrightarrow> set_option r \<subseteq> usr_id ` set us"

definition users_wf :: "user list \<Rightarrow> int \<Rightarrow> bool" where
  "users_wf us n \<longleftrightarrow>
     distinct (map usr_email us) \<and> distinct (map usr_id us) \<and> (\<forall>u \<in> set us. usr_id u < n)"

definition sessions_wf :: "user list \<Rightarrow> session list \<Rightarrow> bool" where
  "sessions_wf us ss \<longleftrightarrow> distinct (map ses_hash ss) \<and> (\<forall>s \<in> set ss. ses_user s \<in> usr_id ` set us)"

definition token_ok :: "user list \<Rightarrow> int \<Rightarrow> token \<Rightarrow> bool" where
  "token_ok us n t \<longleftrightarrow>
     tok_id t < n \<and> tok_scope t \<in> {scope_read, scope_write} \<and> ref_ok us (tok_created_by t)"

definition tokens_wf :: "user list \<Rightarrow> int \<Rightarrow> token_row list \<Rightarrow> bool" where
  "tokens_wf us n rs \<longleftrightarrow>
     distinct (map row_hash rs) \<and> distinct (map (\<lambda>r. tok_id (row_token r)) rs) \<and>
     (\<forall>r \<in> set rs. token_ok us n (row_token r))"

definition settings_wf :: "user list \<Rightarrow> app_settings \<Rightarrow> bool" where
  "settings_wf us st \<longleftrightarrow>
     as_backend st \<in> {storage_local, storage_s3, storage_gcs} \<and> ref_ok us (as_updated_by st)"

definition reads_wf :: "(string \<times> read_stats) list \<Rightarrow> bool" where
  "reads_wf al \<longleftrightarrow>
     distinct (map fst al) \<and> (\<forall>(h, s) \<in> set al. 1 \<le> rs_count s \<and> rs_last s \<noteq> None)"

definition pg_wf :: "pg \<Rightarrow> bool" where
  "pg_wf p \<longleftrightarrow>
     users_wf (pg_users p) (pg_user_seq p) \<and> sessions_wf (pg_users p) (pg_sessions p) \<and>
     tokens_wf (pg_users p) (pg_token_seq p) (pg_tokens p) \<and>
     settings_wf (pg_users p) (pg_settings p) \<and> reads_wf (pg_reads p)"

lemma pg_wf_faults [simp]: "pg_wf (p\<lparr>pg_faults := x\<rparr>) = pg_wf p"
  by (simp add: pg_wf_def)

lemma pg_wf_migrated: "pg_wf (migrated_pg now faults)"
  by (simp add: pg_wf_def migrated_pg_def seeded_settings_def users_wf_def sessions_wf_def
      tokens_wf_def settings_wf_def reads_wf_def ref_ok_def)

text \<open>More users resolve more references; renaming passwords changes none.\<close>

lemma users_grow:
  assumes "usr_id ` set us \<subseteq> usr_id ` set us'"
  shows "sessions_wf us ss \<Longrightarrow> sessions_wf us' ss" "tokens_wf us n rs \<Longrightarrow> tokens_wf us' n rs"
    "settings_wf us st \<Longrightarrow> settings_wf us' st"
  using assms unfolding sessions_wf_def tokens_wf_def settings_wf_def token_ok_def ref_ok_def
  by (meson order_trans subsetD)+

lemma pg_wf_users:
  assumes "pg_wf p" "users_wf us' n'" "usr_id ` set (pg_users p) \<subseteq> usr_id ` set us'"
  shows "pg_wf (p\<lparr>pg_users := us', pg_user_seq := n'\<rparr>)"
  using assms users_grow [OF assms(3)] by (simp add: pg_wf_def)

text \<open>
  A call either lost the connection before the statement ran, or ran it on the state without
  the schedule item; in the second case the answer may have been lost.
\<close>

lemma pg_call_cases:
  assumes "pg_call q p = (r, p')"
  shows "\<exists>x. (r = None \<and> p' = p\<lparr>pg_faults := x\<rparr>) \<or>
    (\<exists>a. q (p\<lparr>pg_faults := x\<rparr>) = (a, p') \<and> (r = None \<or> r = Some a))"
proof (cases "pg_faults p")
  case Nil
  then have "p\<lparr>pg_faults := []\<rparr> = p" by simp
  moreover obtain a where "q p = (a, p')" "r = Some a"
    using assms Nil by (cases "q p") (auto simp: pg_call_def)
  ultimately show ?thesis by metis
next
  case (Cons f fs)
  then show ?thesis
    using assms by (cases "q (p\<lparr>pg_faults := fs\<rparr>)") (auto simp: pg_call_def Let_def split: db_fault.splits)
qed

lemma pg_call_keeps:
  assumes "pg_call q p = (r, p')" "P p" "\<And>p x. P (p\<lparr>pg_faults := x\<rparr>) = P p"
    and "\<And>p r p'. q p = (r, p') \<Longrightarrow> P p \<Longrightarrow> P p'"
  shows "P p'"
  using pg_call_cases [OF assms(1)] assms(2-4) by metis

lemma pg_call_Some:
  "pg_call q p = (Some a, p') \<Longrightarrow> \<exists>x. q (p\<lparr>pg_faults := x\<rparr>) = (a, p')"
  using pg_call_cases [of q p "Some a" p'] by auto

lemma pg_call_fine [simp]: "pg_faults p = [] \<Longrightarrow> pg_call q p = map_prod Some id (q p)"
  by (simp add: pg_call_def)

lemma map_prod_id_eq: "map_prod f id x = (r, p) \<longleftrightarrow> (\<exists>a. x = (a, p) \<and> r = f a)"
  by (cases x) auto

section \<open>Statements keep the integrity\<close>

lemma q_create_user_wf:
  assumes "q_create_user now e h p = (r, p')" "pg_wf p"
  shows "pg_wf p'"
proof -
  let ?n = "pg_user_seq p"
  let ?u = "\<lparr>usr_id = ?n, usr_email = e, usr_pwhash = h, usr_created = now\<rparr>"
  have u: "users_wf (pg_users p) ?n" using assms(2) by (simp add: pg_wf_def)
  then have seq: "users_wf (pg_users p) (?n + 1)" by (force simp: users_wf_def)
  show ?thesis
  proof (cases "e \<in> set (map usr_email (pg_users p))")
    case True
    then have "p' = p\<lparr>pg_user_seq := ?n + 1\<rparr>" using assms(1) by (auto simp: q_create_user_def)
    then show ?thesis using assms(2) seq by (simp add: pg_wf_def)
  next
    case False
    then have p': "p' = p\<lparr>pg_users := pg_users p @ [?u], pg_user_seq := ?n + 1\<rparr>"
      using assms(1) by (auto simp: q_create_user_def Let_def)
    have "users_wf (pg_users p @ [?u]) (?n + 1)"
      using seq u False by (auto simp: users_wf_def)
    then show ?thesis unfolding p' using assms(2) by (intro pg_wf_users) auto
  qed
qed

lemma q_delete_user_wf:
  assumes "q_delete_user i p = (r, p')" "pg_wf p"
  shows "pg_wf p'"
proof (cases "i \<in> set (user_ids p)")
  case False
  then show ?thesis using assms by (simp add: q_delete_user_def)
next
  case True
  let ?us = "filter (\<lambda>u. usr_id u \<noteq> i) (pg_users p)"
  have ref: "ref_ok ?us (clear_ref i r)" if "ref_ok (pg_users p) r" for r
    using that by (cases r) (auto simp: ref_ok_def clear_ref_def)
  have "users_wf ?us (pg_user_seq p)"
    using assms(2) by (auto simp: pg_wf_def users_wf_def distinct_map_filter)
  moreover have "sessions_wf ?us (filter (\<lambda>s. ses_user s \<noteq> i) (pg_sessions p))"
    using assms(2) by (auto simp: pg_wf_def sessions_wf_def distinct_map_filter)
  moreover have "tokens_wf ?us (pg_token_seq p) (map (\<lambda>r. r\<lparr>row_token := (row_token r)
        \<lparr>tok_created_by := clear_ref i (tok_created_by (row_token r))\<rparr>\<rparr>) (pg_tokens p))"
    using assms(2) ref by (auto simp: pg_wf_def tokens_wf_def token_ok_def comp_def)
  moreover have "settings_wf ?us ((pg_settings p)\<lparr>as_updated_by := clear_ref i (as_updated_by (pg_settings p))\<rparr>)"
    using assms(2) ref by (auto simp: pg_wf_def settings_wf_def)
  ultimately show ?thesis
    using assms True by (auto simp: q_delete_user_def pg_wf_def)
qed

lemma q_update_password_wf:
  assumes "q_update_password i h p = (r, p')" "pg_wf p"
  shows "pg_wf p'"
proof -
  let ?f = "\<lambda>u::user. if usr_id u = i then u\<lparr>usr_pwhash := h\<rparr> else u"
  have eqs: "map usr_email (map ?f us) = map usr_email us" "map usr_id (map ?f us) = map usr_id us" for us
    by (induction us) auto
  then have ids: "usr_id ` set (map ?f us) = usr_id ` set us" for us by (metis list.set_map)
  have "users_wf (map ?f (pg_users p)) (pg_user_seq p)"
    using assms(2) unfolding pg_wf_def users_wf_def eqs by auto
  then have "pg_wf (p\<lparr>pg_users := map ?f (pg_users p), pg_user_seq := pg_user_seq p\<rparr>)"
    using assms(2) ids by (intro pg_wf_users) (simp_all only: order_refl)
  then show ?thesis using assms(1) by (simp add: q_update_password_def)
qed

lemma q_create_session_wf:
  "q_create_session h i e p = (r, p') \<Longrightarrow> pg_wf p \<Longrightarrow> pg_wf p'"
  by (auto simp: q_create_session_def pg_wf_def sessions_wf_def user_ids_def split: if_splits)

lemma filter_sessions_wf:
  "pg_wf p \<Longrightarrow> pg_wf (p\<lparr>pg_sessions := filter P (pg_sessions p)\<rparr>)"
  by (auto simp: pg_wf_def sessions_wf_def distinct_map_filter)

lemma q_create_token_wf:
  assumes "q_create_token now n s h i p = (r, p')" "pg_wf p"
  shows "pg_wf p'"
proof -
  let ?n = "pg_token_seq p"
  have tok: "tokens_wf (pg_users p) (?n + 1) (pg_tokens p)" 
    "\<forall>r \<in> set (pg_tokens p). tok_id (row_token r) < ?n"
    using assms(2) by (auto simp: pg_wf_def tokens_wf_def token_ok_def)
  show ?thesis
  proof (cases "s \<in> {scope_read, scope_write} \<and> h \<notin> set (map row_hash (pg_tokens p)) \<and> i \<in> set (user_ids p)")
    case False
    then have "p' = p\<lparr>pg_token_seq := ?n + 1\<rparr>"
      using assms(1) by (auto simp: q_create_token_def Let_def split: if_splits)
    then show ?thesis using tok assms(2) by (simp add: pg_wf_def)
  next
    case True
    then have p': "p' = p\<lparr>pg_token_seq := ?n + 1, pg_tokens := pg_tokens p @
        [\<lparr>row_hash = h, row_token = \<lparr>tok_id = ?n, tok_name = n, tok_scope = s,
          tok_created_by = Some i, tok_created = now, tok_last_used = None, tok_revoked = None\<rparr>\<rparr>]\<rparr>"
      using assms(1) by (auto simp: q_create_token_def Let_def)
    have "tokens_wf (pg_users p') (pg_token_seq p') (pg_tokens p')"
      using tok True by (auto simp: p' tokens_wf_def token_ok_def ref_ok_def user_ids_def)
    then show ?thesis using assms(2) by (simp add: p' pg_wf_def)
  qed
qed

text \<open>Updates that touch only the time stamps of tokens.\<close>

lemma map_tokens_wf:
  assumes "pg_wf p"
    and "\<And>r. row_hash (f r) = row_hash r" "\<And>r. tok_id (row_token (f r)) = tok_id (row_token r)"
    "\<And>r. tok_scope (row_token (f r)) = tok_scope (row_token r)"
    "\<And>r. tok_created_by (row_token (f r)) = tok_created_by (row_token r)"
  shows "pg_wf (p\<lparr>pg_tokens := map f (pg_tokens p)\<rparr>)"
  using assms by (auto simp: pg_wf_def tokens_wf_def token_ok_def comp_def)

lemma q_revoke_token_wf:
  "q_revoke_token now i p = (r, p') \<Longrightarrow> pg_wf p \<Longrightarrow> pg_wf p'"
  using map_tokens_wf [of p "revoke_row now i"] by (auto simp: q_revoke_token_def revoke_row_def)

lemma q_authenticate_wf:
  "q_authenticate now h p = (r, p') \<Longrightarrow> pg_wf p \<Longrightarrow> pg_wf p'"
  using map_tokens_wf [of p "use_row now h"] by (auto simp: q_authenticate_def use_row_def)

lemma q_update_settings_wf:
  "q_update_settings now st i p = (r, p') \<Longrightarrow> pg_wf p \<Longrightarrow> pg_wf p'"
  by (auto simp: q_update_settings_def pg_wf_def settings_wf_def ref_ok_def user_ids_def split: if_splits)

lemma reads_update_wf:
  assumes "pg_wf p" "1 \<le> rs_count s" "rs_last s \<noteq> None"
  shows "pg_wf (p\<lparr>pg_reads := AList.update h s (pg_reads p)\<rparr>)"
proof -
  have "set (AList.update h s al) \<subseteq> insert (h, s) (set al)" for al by (induction al) auto
  then have "reads_wf (AList.update h s (pg_reads p))"
    using assms by (fastforce simp: pg_wf_def reads_wf_def distinct_fst_update)
  then show ?thesis using assms(1) by (simp add: pg_wf_def)
qed

lemma q_record_cache_read_wf:
  assumes "q_record_cache_read now h p = (r, p')" "pg_wf p"
  shows "pg_wf p'"
proof (cases "map_of (pg_reads p) h")
  case None
  then show ?thesis using assms reads_update_wf by (auto simp: q_record_cache_read_def)
next
  case (Some s)
  then have "(h, s) \<in> set (pg_reads p)" by (rule map_of_SomeD)
  then have "1 \<le> rs_count s" using assms(2) by (auto simp: pg_wf_def reads_wf_def)
  then show ?thesis
    using assms reads_update_wf Some by (auto simp: q_record_cache_read_def split: if_splits)
qed

lemma delete_reads_wf:
  "pg_wf p \<Longrightarrow> pg_wf (p\<lparr>pg_reads := AList.delete h (pg_reads p)\<rparr>)"
  by (auto simp: pg_wf_def reads_wf_def AList.delete_eq distinct_map_filter)

section \<open>Every method keeps the integrity\<close>

text \<open>The effect of one writing statement, and one call of a method of \<open>Store\<close>.\<close>

inductive pg_write :: "pg \<Rightarrow> pg \<Rightarrow> bool" where
  wr_create_user: "pg_write p (snd (q_create_user now e h p))"
| wr_delete_user: "pg_write p (snd (q_delete_user i p))"
| wr_update_password: "pg_write p (snd (q_update_password i h p))"
| wr_create_session: "pg_write p (snd (q_create_session h i t p))"
| wr_filter_sessions: "pg_write p (p\<lparr>pg_sessions := filter P (pg_sessions p)\<rparr>)"
| wr_create_token: "pg_write p (snd (q_create_token now n s h i p))"
| wr_revoke_token: "pg_write p (snd (q_revoke_token now i p))"
| wr_authenticate: "pg_write p (snd (q_authenticate now h p))"
| wr_update_settings: "pg_write p (snd (q_update_settings now st i p))"
| wr_record_read: "pg_write p (snd (q_record_cache_read now h p))"
| wr_delete_reads: "pg_write p (p\<lparr>pg_reads := AList.delete h (pg_reads p)\<rparr>)"
| wr_none: "pg_write p p"

inductive pg_step :: "pg \<Rightarrow> pg \<Rightarrow> bool" where
  st_create_user: "pg_step p (snd (create_user now e h p))"
| st_get_user_by_email: "pg_step p (snd (get_user_by_email e p))"
| st_get_user_by_id: "pg_step p (snd (get_user_by_id i p))"
| st_list_users: "pg_step p (snd (list_users p))"
| st_delete_user: "pg_step p (snd (delete_user i p))"
| st_count_users: "pg_step p (snd (count_users p))"
| st_update_password: "pg_step p (snd (update_password i h p))"
| st_create_session: "pg_step p (snd (create_session h i t p))"
| st_get_session: "pg_step p (snd (get_session now h p))"
| st_delete_session: "pg_step p (snd (delete_session h p))"
| st_delete_expired: "pg_step p (snd (delete_expired_sessions now p))"
| st_create_token: "pg_step p (snd (create_token now n s h i p))"
| st_list_tokens: "pg_step p (snd (list_tokens p))"
| st_revoke_token: "pg_step p (snd (revoke_token now i p))"
| st_authenticate: "pg_step p (snd (authenticate now h p))"
| st_get_settings: "pg_step p (snd (get_settings p))"
| st_update_settings: "pg_step p (snd (update_settings now st i p))"
| st_record_read: "pg_step p (snd (record_cache_read now h p))"
| st_delete_reads: "pg_step p (snd (delete_cache_read_stats h p))"
| st_read_batch: "pg_step p (snd (get_cache_read_stats_batch hs p))"
| st_read_all: "pg_step p (snd (list_all_cache_read_stats p))"

lemma pg_call_write:
  assumes "\<And>p. pg_write p (snd (q p))"
  shows "\<exists>x. pg_write (p\<lparr>pg_faults := x\<rparr>) (snd (pg_call q p))"
  using pg_call_cases [of q p "fst (pg_call q p)" "snd (pg_call q p)"] assms wr_none
  by (metis prod.collapse snd_conv)

lemma pg_step_write:
  assumes "pg_step p p'"
  shows "\<exists>x. pg_write (p\<lparr>pg_faults := x\<rparr>) p'"
proof -
  have [simp]: "p\<lparr>pg_faults := pg_faults p\<rparr> = p" by simp
  have id: "\<exists>x. pg_write (p\<lparr>pg_faults := x\<rparr>) p"
    by (rule exI [of _ "pg_faults p"]) (simp add: wr_none)
  from assms show ?thesis
    by cases
      (auto simp: create_user_def get_user_by_email_def get_user_by_id_def list_users_def
        delete_user_def count_users_def update_password_def create_session_def get_session_def
        delete_session_def delete_expired_sessions_def create_token_def list_tokens_def
        revoke_token_def authenticate_def get_settings_def update_settings_def
        record_cache_read_def delete_cache_read_stats_def get_cache_read_stats_batch_def
        list_all_cache_read_stats_def id intro!: pg_call_write pg_write.intros)
qed

lemma pg_write_wf:
  assumes "pg_write p p'" "pg_wf p"
  shows "pg_wf p'"
  using assms(1)
proof cases
qed (use assms(2) in \<open>auto simp: prod_eq_iff intro: filter_sessions_wf delete_reads_wf
    q_create_user_wf q_delete_user_wf q_update_password_wf q_create_session_wf q_create_token_wf
    q_revoke_token_wf q_authenticate_wf q_update_settings_wf q_record_cache_read_wf\<close>)

text \<open>The states the tables can be in, from the migrated ones on.\<close>

inductive pg_reach :: "pg \<Rightarrow> bool" where
  reach_init: "pg_reach (migrated_pg now faults)"
| reach_step: "pg_reach p \<Longrightarrow> pg_step p p' \<Longrightarrow> pg_reach p'"

inductive pg_steps :: "pg \<Rightarrow> pg \<Rightarrow> bool" for p :: pg where
  steps_refl: "pg_steps p p"
| steps_step: "pg_steps p p' \<Longrightarrow> pg_step p' p'' \<Longrightarrow> pg_steps p p''"

lemma pg_step_wf: "pg_step p p' \<Longrightarrow> pg_wf p \<Longrightarrow> pg_wf p'"
  using pg_step_write pg_write_wf by fastforce

lemma pg_reach_wf: "pg_reach p \<Longrightarrow> pg_wf p"
  by (induction rule: pg_reach.induct) (auto simp: pg_wf_migrated intro: pg_step_wf)

lemma pg_steps_wf: "pg_steps p p' \<Longrightarrow> pg_wf p \<Longrightarrow> pg_wf p'"
  by (induction rule: pg_steps.induct) (auto intro: pg_step_wf)

lemma pg_steps_keep:
  assumes "pg_steps p p'" "I p" "pg_wf p" "\<And>p x. I (p\<lparr>pg_faults := x\<rparr>) = I p"
    and "\<And>p p'. pg_write p p' \<Longrightarrow> pg_wf p \<Longrightarrow> I p \<Longrightarrow> I p'"
  shows "I p'"
  using assms(1)
proof (induction rule: pg_steps.induct)
  case (steps_step p1 p2)
  then obtain x where "pg_write (p1\<lparr>pg_faults := x\<rparr>) p2" using pg_step_write by blast
  then show ?case
    using assms(4,5) steps_step(1,3) assms(3) pg_steps_wf [of p p1] by (metis pg_wf_faults)
qed (rule assms(2))

section \<open>Revocation and deletion are final\<close>

definition revoked :: "string \<Rightarrow> pg \<Rightarrow> bool" where
  "revoked h p \<longleftrightarrow> (\<exists>r \<in> set (pg_tokens p). row_hash r = h \<and> tok_revoked (row_token r) \<noteq> None)"

lemma revoked_faults [simp]: "revoked h (p\<lparr>pg_faults := x\<rparr>) = revoked h p"
  by (simp add: revoked_def)

lemma revoked_map:
  assumes "revoked h p" "\<And>r. row_hash (f r) = row_hash r"
    "\<And>r. tok_revoked (row_token r) \<noteq> None \<Longrightarrow> tok_revoked (row_token (f r)) \<noteq> None"
    "pg_tokens p' = map f (pg_tokens p)"
  shows "revoked h p'"
  using assms unfolding revoked_def by fastforce

lemma revoked_write:
  assumes "pg_write p p'" "revoked h p"
  shows "revoked h p'"
  using assms(1)
proof cases
  case (wr_delete_user i)
  let ?f = "\<lambda>r. r\<lparr>row_token := (row_token r)
    \<lparr>tok_created_by := clear_ref i (tok_created_by (row_token r))\<rparr>\<rparr>"
  have "pg_tokens p' = map ?f (pg_tokens p) \<or> pg_tokens p' = pg_tokens p"
    using wr_delete_user by (auto simp: q_delete_user_def)
  then show ?thesis
  proof
    assume "pg_tokens p' = map ?f (pg_tokens p)"
    then show ?thesis by (rule revoked_map [OF assms(2), rotated 2]) auto
  next
    assume "pg_tokens p' = pg_tokens p"
    then show ?thesis using assms(2) by (simp add: revoked_def)
  qed
next
  case (wr_revoke_token now i)
  then show ?thesis
    by (intro revoked_map [OF assms(2), of "revoke_row now i"]) (auto simp: q_revoke_token_def revoke_row_def)
next
  case (wr_authenticate now h')
  then show ?thesis
    by (intro revoked_map [OF assms(2), of "use_row now h'"]) (auto simp: q_authenticate_def use_row_def)
next
  case (wr_create_token now n s h' i)
  then show ?thesis using assms(2) by (auto simp: q_create_token_def Let_def revoked_def)
qed (use assms(2) in \<open>auto simp: revoked_def q_create_user_def q_update_password_def
  q_create_session_def q_update_settings_def q_record_cache_read_def Let_def split: option.splits\<close>)

lemma revoked_steps:
  "pg_steps p p' \<Longrightarrow> revoked h p \<Longrightarrow> pg_wf p \<Longrightarrow> revoked h p'"
  by (erule pg_steps_keep) (auto intro: revoked_write)

lemma distinct_hash_eq:
  "pg_wf p \<Longrightarrow> r \<in> set (pg_tokens p) \<Longrightarrow> r' \<in> set (pg_tokens p) \<Longrightarrow> row_hash r = row_hash r' \<Longrightarrow> r = r'"
  by (auto simp: pg_wf_def tokens_wf_def distinct_map inj_on_def)

lemma distinct_id_eq:
  "pg_wf p \<Longrightarrow> r \<in> set (pg_tokens p) \<Longrightarrow> r' \<in> set (pg_tokens p) \<Longrightarrow>
   tok_id (row_token r) = tok_id (row_token r') \<Longrightarrow> r = r'"
  by (auto simp: pg_wf_def tokens_wf_def distinct_map inj_on_def)

lemma use_row_active: "active_hash h (use_row now h' r) = active_hash h r"
  by (auto simp: use_row_def active_hash_def)

lemma use_row_token:
  "active_hash h r \<Longrightarrow> row_token (use_row now h r) = (row_token r)\<lparr>tok_last_used := Some now\<rparr>"
  by (simp add: use_row_def)

text \<open>What a successful authentication says of the tables.\<close>

lemma q_authenticate_find:
  "q_authenticate now h p =
     (Rows (map_option (\<lambda>r. (row_token r)\<lparr>tok_last_used := Some now\<rparr>) (find (active_hash h) (pg_tokens p))),
      p\<lparr>pg_tokens := map (use_row now h) (pg_tokens p)\<rparr>)"
proof -
  have "map_option row_token (find (active_hash h) (map (use_row now h) rs)) =
      map_option (\<lambda>r. (row_token r)\<lparr>tok_last_used := Some now\<rparr>) (find (active_hash h) rs)" for rs
    by (induction rs) (auto simp: use_row_active use_row_token)
  then show ?thesis by (simp add: q_authenticate_def)
qed

lemma authenticate_Inr:
  assumes "authenticate now h p = (Inr t, p')"
  shows "\<exists>r \<in> set (pg_tokens p). row_hash r = h \<and> tok_revoked (row_token r) = None \<and>
    t = (row_token r)\<lparr>tok_last_used := Some now\<rparr>"
proof -
  obtain r' where r': "pg_call (q_authenticate now h) p = (r', p')" "row_result r' = Inr t"
    using assms by (auto simp: authenticate_def map_prod_id_eq)
  then obtain a where a: "r' = Some (Rows (Some a))" "a = t"
    by (auto simp: row_result_def split: option.splits sql.splits)
  then obtain x where "q_authenticate now h (p\<lparr>pg_faults := x\<rparr>) = (Rows (Some t), p')"
    using pg_call_Some r'(1) by blast
  then obtain r where r: "find (active_hash h) (pg_tokens p) = Some r"
    "t = (row_token r)\<lparr>tok_last_used := Some now\<rparr>"
    by (auto simp: q_authenticate_find)
  then show ?thesis using find_Some_mem [OF r(1)] by (auto simp: active_hash_def)
qed

lemma revoked_no_auth:
  assumes "pg_wf p" "revoked h p"
  shows "fst (authenticate now h p) \<in> {Inl StNotFound, Inl StDb}"
proof -
  have "\<not> active_hash h r" if "r \<in> set (pg_tokens p)" for r
    using that assms distinct_hash_eq unfolding revoked_def active_hash_def by metis
  then have "find (active_hash h) (pg_tokens p) = None" by (simp add: find_None_iff)
  then show ?thesis
    by (auto simp: authenticate_def pg_call_def q_authenticate_find row_result_def Let_def
        split: list.splits db_fault.splits)
qed

lemma revoke_token_Inr:
  assumes "revoke_token now i p = (Inr (), p')"
  shows "pg_tokens p' = map (revoke_row now i) (pg_tokens p) \<and> pg_users p' = pg_users p"
    and "\<exists>r \<in> set (pg_tokens p). tok_id (row_token r) = i \<and> tok_revoked (row_token r) = None"
proof -
  obtain r' where r': "pg_call (q_revoke_token now i) p = (r', p')" "affected_result r' = Inr ()"
    using assms by (auto simp: revoke_token_def map_prod_id_eq)
  then obtain n where n: "r' = Some (Rows n)" "n \<noteq> 0"
    by (auto simp: affected_result_def split: option.splits sql.splits if_splits)
  then obtain x where q: "q_revoke_token now i (p\<lparr>pg_faults := x\<rparr>) = (Rows n, p')"
    using pg_call_Some r'(1) by blast
  then show "pg_tokens p' = map (revoke_row now i) (pg_tokens p) \<and> pg_users p' = pg_users p"
    by (auto simp: q_revoke_token_def)
  from q n show "\<exists>r \<in> set (pg_tokens p). tok_id (row_token r) = i \<and> tok_revoked (row_token r) = None"
    by (auto simp: q_revoke_token_def filter_empty_conv)
qed

lemma revoke_token_revoked:
  assumes "revoke_token now i p = (Inr (), p')" "r \<in> set (pg_tokens p)" "tok_id (row_token r) = i"
  shows "revoked (row_hash r) p'"
proof -
  have "revoke_row now i r \<in> set (pg_tokens p')"
    using revoke_token_Inr(1) [OF assms(1)] assms(2) by simp
  moreover have "row_hash (revoke_row now i r) = row_hash r"
    "tok_revoked (row_token (revoke_row now i r)) \<noteq> None"
    using assms(3) by (auto simp: revoke_row_def)
  ultimately show ?thesis unfolding revoked_def by blast
qed

text \<open>
  C9. Once \<open>RevokeToken\<close> reported success for a token, no later sequence of store calls
  (lost connections included) makes its secret authenticate again: \<open>Authenticate\<close> answers
  not-found or a database error.
\<close>

theorem revocation_is_final:
  assumes "pg_reach p" "r \<in> set (pg_tokens p)"
    and "revoke_token now (tok_id (row_token r)) p = (Inr (), p1)" "pg_steps p1 p2"
  shows "fst (authenticate now' (row_hash r) p2) \<in> {Inl StNotFound, Inl StDb}"
proof -
  have "pg_step p p1" using assms(3) st_revoke_token by (metis snd_conv)
  then have "pg_wf p1" using assms(1) pg_reach_wf pg_step_wf by blast
  then show ?thesis
    using assms revoke_token_revoked revoked_steps pg_steps_wf revoked_no_auth by metis
qed

text \<open>A deleted user's id is below the sequence and carried by no row.\<close>

definition user_gone :: "int \<Rightarrow> pg \<Rightarrow> bool" where
  "user_gone i p \<longleftrightarrow> i < pg_user_seq p \<and> i \<notin> set (user_ids p)"

lemma user_gone_faults [simp]: "user_gone i (p\<lparr>pg_faults := x\<rparr>) = user_gone i p"
  by (simp add: user_gone_def user_ids_def)

lemma user_gone_write:
  assumes "pg_write p p'" "user_gone i p"
  shows "user_gone i p'"
  using assms(1)
proof cases
  case (wr_update_password j h)
  have "map usr_id (map (\<lambda>u::user. if usr_id u = j then u\<lparr>usr_pwhash := h\<rparr> else u) us) = map usr_id us" for us
    by (induction us) auto
  then show ?thesis
    using assms(2) wr_update_password unfolding user_gone_def user_ids_def q_update_password_def by simp
next
  case (wr_delete_user j)
  then show ?thesis using assms(2) by (auto simp: q_delete_user_def user_gone_def user_ids_def)
qed (use assms(2) in \<open>auto simp: user_gone_def user_ids_def q_create_user_def q_revoke_token_def
  q_authenticate_def q_create_token_def q_create_session_def q_update_settings_def
  q_record_cache_read_def Let_def split: option.splits\<close>)

lemma user_gone_steps:
  "pg_steps p p' \<Longrightarrow> user_gone i p \<Longrightarrow> pg_wf p \<Longrightarrow> user_gone i p'"
  by (erule pg_steps_keep) (auto intro: user_gone_write)

lemma delete_user_Inr:
  assumes "delete_user i p = (Inr (), p')"
  shows "i \<in> set (user_ids p) \<and> pg_user_seq p' = pg_user_seq p \<and>
    pg_users p' = filter (\<lambda>u. usr_id u \<noteq> i) (pg_users p)"
proof -
  obtain r' where r': "pg_call (q_delete_user i) p = (r', p')" "affected_result r' = Inr ()"
    using assms by (auto simp: delete_user_def map_prod_id_eq)
  then obtain n where n: "r' = Some (Rows n)" "n \<noteq> 0"
    by (auto simp: affected_result_def split: option.splits sql.splits if_splits)
  then obtain x where q: "q_delete_user i (p\<lparr>pg_faults := x\<rparr>) = (Rows n, p')"
    using pg_call_Some r'(1) by blast
  then show ?thesis using n by (auto simp: q_delete_user_def user_ids_def split: if_splits)
qed

lemma get_user_by_id_Inr:
  "get_user_by_id i p = (Inr u, p') \<Longrightarrow> u \<in> set (pg_users p) \<and> usr_id u = i"
  by (auto simp: get_user_by_id_def pg_call_def row_result_def Let_def map_prod_id_eq
      split: list.splits db_fault.splits option.splits sql.splits dest: find_Some_mem)

lemma get_session_Inr:
  "get_session now h p = (Inr s, p') \<Longrightarrow> s \<in> set (pg_sessions p) \<and> ses_hash s = h \<and> now < ses_expires s"
  by (auto simp: get_session_def pg_call_def row_result_def Let_def map_prod_id_eq
      split: list.splits db_fault.splits option.splits sql.splits dest: find_Some_mem)

text \<open>
  C10. After \<open>DeleteUser\<close> succeeded, in every later state of the database the id resolves to
  no user, no session of the user is left or can be made, and no token or settings row refers
  to it.
\<close>

theorem user_deletion_is_final:
  assumes "pg_reach p" "delete_user i p = (Inr (), p1)" "pg_steps p1 p2"
  shows "(\<forall>u. fst (get_user_by_id i p2) \<noteq> Inr u) \<and>
    (\<forall>now h s. fst (get_session now h p2) = Inr s \<longrightarrow> ses_user s \<noteq> i) \<and>
    (\<forall>r \<in> set (pg_tokens p2). tok_created_by (row_token r) \<noteq> Some i) \<and>
    as_updated_by (pg_settings p2) \<noteq> Some i"
proof -
  have wf: "pg_wf p" using assms(1) by (rule pg_reach_wf)
  have "pg_step p p1" using assms(2) st_delete_user by (metis snd_conv)
  then have wf1: "pg_wf p1" using wf pg_step_wf by blast
  have "user_gone i p1"
    using delete_user_Inr [OF assms(2)] wf
    by (auto simp: user_gone_def user_ids_def pg_wf_def users_wf_def)
  then have gone: "user_gone i p2" and wf2: "pg_wf p2"
    using assms(3) wf1 user_gone_steps pg_steps_wf by blast+
  then have no: "i \<notin> usr_id ` set (pg_users p2)" by (simp add: user_gone_def user_ids_def)
  have "\<forall>u. fst (get_user_by_id i p2) \<noteq> Inr u"
    using no get_user_by_id_Inr by (metis image_eqI prod.collapse)
  moreover have "\<forall>now h s. fst (get_session now h p2) = Inr s \<longrightarrow> ses_user s \<noteq> i"
    using no wf2 get_session_Inr by (metis pg_wf_def prod.collapse sessions_wf_def)
  moreover have "ref_ok (pg_users p2) r \<Longrightarrow> r \<noteq> Some i" for r
    using no by (auto simp: ref_ok_def)
  ultimately show ?thesis
    using wf2 by (auto simp: pg_wf_def tokens_wf_def settings_wf_def token_ok_def)
qed

section \<open>A concrete history\<close>

text \<open>One user and one read token, used by the witnesses.\<close>

definition pg_one_user :: pg where
  "pg_one_user = snd (create_user 1 ''a@b'' ''pw'' (migrated_pg 0 []))"

definition pg_one_token :: pg where
  "pg_one_token = snd (create_token 2 ''ci'' ''read'' ''h'' 1 pg_one_user)"

lemma pg_one_token_reach: "pg_reach pg_one_token"
  unfolding pg_one_token_def pg_one_user_def
  by (rule reach_step [OF reach_step [OF reach_init st_create_user] st_create_token])

lemma pg_one_token_value:
  "pg_tokens pg_one_token = [\<lparr>row_hash = ''h'', row_token = \<lparr>tok_id = 1, tok_name = ''ci'',
     tok_scope = ''read'', tok_created_by = Some 1, tok_created = 2, tok_last_used = None,
     tok_revoked = None\<rparr>\<rparr>]" "pg_faults pg_one_token = []"
  by code_simp+

theorem revocation_is_final_witness:
  "revoke_token 3 1 pg_one_token = (Inr (), snd (revoke_token 3 1 pg_one_token)) \<and>
   fst (authenticate 2 ''h'' pg_one_token) \<noteq> Inl StNotFound \<and>
   fst (authenticate 9 ''h'' (snd (create_token 4 ''x'' ''read'' ''h2'' 1
     (snd (revoke_token 3 1 pg_one_token))))) \<in> {Inl StNotFound, Inl StDb}"
proof (intro conjI)
  show rev: "revoke_token 3 1 pg_one_token = (Inr (), snd (revoke_token 3 1 pg_one_token))"
    by code_simp
  show "fst (authenticate 2 ''h'' pg_one_token) \<noteq> Inl StNotFound" by code_simp
  let ?r = "hd (pg_tokens pg_one_token)"
  have r: "?r \<in> set (pg_tokens pg_one_token)" "row_hash ?r = ''h''" "tok_id (row_token ?r) = 1"
    by (simp_all add: pg_one_token_value)
  have "pg_steps (snd (revoke_token 3 1 pg_one_token))
      (snd (create_token 4 ''x'' ''read'' ''h2'' 1 (snd (revoke_token 3 1 pg_one_token))))"
    by (intro steps_step [OF steps_refl] st_create_token)
  then show "fst (authenticate 9 ''h'' (snd (create_token 4 ''x'' ''read'' ''h2'' 1
      (snd (revoke_token 3 1 pg_one_token))))) \<in> {Inl StNotFound, Inl StDb}"
    using revocation_is_final [OF pg_one_token_reach r(1)] rev r by metis
qed

theorem user_deletion_is_final_witness:
  "delete_user 1 pg_one_token = (Inr (), snd (delete_user 1 pg_one_token)) \<and>
   pg_tokens (snd (delete_user 1 pg_one_token)) \<noteq> [] \<and>
   tok_created_by (row_token (hd (pg_tokens (snd (delete_user 1 pg_one_token))))) \<noteq> Some 1"
proof (intro conjI)
  show del: "delete_user 1 pg_one_token = (Inr (), snd (delete_user 1 pg_one_token))"
    by code_simp
  show ne: "pg_tokens (snd (delete_user 1 pg_one_token)) \<noteq> []" by code_simp
  show "tok_created_by (row_token (hd (pg_tokens (snd (delete_user 1 pg_one_token))))) \<noteq> Some 1"
    using user_deletion_is_final [OF pg_one_token_reach del steps_refl] hd_in_set [OF ne] by blast
qed

end
