(* ===== verification/GoEncoding.thy ===== *)
theory GoEncoding
  imports Nx_Prelude
begin

text \<open>
  The codecs of the standard library the secrets pass through: \<open>encoding/hex\<close> for digests,
  \<open>encoding/base64\<close> with the standard padded alphabet (settings key and ciphertexts) and the raw
  URL alphabet (tokens and session ids). Byte slices are strings of 8-bit characters.
\<close>

section \<open>hex\<close>

definition hex_digits :: string where "hex_digits = ''0123456789abcdef''"

definition hex_encode :: "string \<Rightarrow> string" where
  "hex_encode s = concat (map (\<lambda>c. let n = (of_char c :: nat) in
     [hex_digits ! (n div 16), hex_digits ! (n mod 16)]) s)"

section \<open>base64\<close>

definition b64_letters :: string where
  "b64_letters = ''ABCDEFGHIJKLMNOPQRSTUVWXYZabcdefghijklmnopqrstuvwxyz0123456789''"

definition b64_std :: string where "b64_std = b64_letters @ ''+/''"
definition b64_url :: string where "b64_url = b64_letters @ ''-_''"

text \<open>Three bytes become four characters; \<open>pad\<close> says whether a short last group is filled up.\<close>

fun b64_encode :: "string \<Rightarrow> bool \<Rightarrow> string \<Rightarrow> string" where
  "b64_encode al pad [] = []"
| "b64_encode al pad [a] =
     (let x = of_char a :: nat
      in [al ! (x div 4), al ! ((x mod 4) * 16)] @ (if pad then ''=='' else []))"
| "b64_encode al pad [a, b] =
     (let x = of_char a :: nat; y = of_char b :: nat
      in [al ! (x div 4), al ! ((x mod 4) * 16 + y div 16), al ! ((y mod 16) * 4)]
         @ (if pad then ''='' else []))"
| "b64_encode al pad (a # b # c # r) =
     (let x = of_char a :: nat; y = of_char b :: nat; z = of_char c :: nat
      in [al ! (x div 4), al ! ((x mod 4) * 16 + y div 16), al ! ((y mod 16) * 4 + z div 64),
          al ! (z mod 64)] @ b64_encode al pad r)"

definition b64_value :: "string \<Rightarrow> char \<Rightarrow> nat option" where
  "b64_value al c = map_of (zip al [0..<64]) c"

text \<open>The bytes four six-bit values stand for.\<close>

definition b64_byte1 :: "nat \<Rightarrow> nat \<Rightarrow> char" where "b64_byte1 p q = char_of (p * 4 + q div 16)"
definition b64_byte2 :: "nat \<Rightarrow> nat \<Rightarrow> char" where "b64_byte2 q r = char_of ((q mod 16) * 16 + r div 4)"
definition b64_byte3 :: "nat \<Rightarrow> nat \<Rightarrow> char" where "b64_byte3 r s = char_of ((r mod 4) * 64 + s)"

text \<open>
  \<open>StdEncoding.DecodeString\<close>: line breaks are skipped; padding is required and may be followed by
  nothing; the unused bits of the last character are ignored.
\<close>

fun b64_groups :: "string \<Rightarrow> string \<Rightarrow> string option" where
  "b64_groups al [] = Some []"
| "b64_groups al (a # b # c # d # rest) =
     (case (b64_value al a, b64_value al b) of
        (Some p, Some q) \<Rightarrow>
          (if c = CHR ''='' then
             (if d = CHR ''='' \<and> rest = [] then Some [b64_byte1 p q] else None)
           else (case b64_value al c of
                   None \<Rightarrow> None
                 | Some r \<Rightarrow>
                     (if d = CHR ''='' then
                        (if rest = [] then Some [b64_byte1 p q, b64_byte2 q r] else None)
                      else (case (b64_value al d, b64_groups al rest) of
                              (Some s, Some out) \<Rightarrow>
                                Some (b64_byte1 p q # b64_byte2 q r # b64_byte3 r s # out)
                            | _ \<Rightarrow> None))))
      | _ \<Rightarrow> None)"
| "b64_groups al _ = None"

definition b64_std_encode :: "string \<Rightarrow> string" where
  "b64_std_encode s = b64_encode b64_std True s"

definition b64_std_decode :: "string \<Rightarrow> string option" where
  "b64_std_decode s = b64_groups b64_std (filter (\<lambda>c. c \<noteq> CHR 0x0A \<and> c \<noteq> CHR 0x0D) s)"

definition b64_rawurl_encode :: "string \<Rightarrow> string" where
  "b64_rawurl_encode s = b64_encode b64_url False s"

section \<open>Round trip\<close>

lemma b64_std_nth:
  assumes "n < 64"
  shows "b64_value b64_std (b64_std ! n) = Some n" "b64_std ! n \<noteq> CHR ''=''"
    "b64_std ! n \<noteq> CHR 0x0A" "b64_std ! n \<noteq> CHR 0x0D"
proof -
  have "list_all (\<lambda>n. b64_value b64_std (b64_std ! n) = Some n \<and> b64_std ! n \<noteq> CHR ''='' \<and>
      b64_std ! n \<noteq> CHR 0x0A \<and> b64_std ! n \<noteq> CHR 0x0D) [0..<64]"
    by code_simp
  with assms show "b64_value b64_std (b64_std ! n) = Some n" "b64_std ! n \<noteq> CHR ''=''"
    "b64_std ! n \<noteq> CHR 0x0A" "b64_std ! n \<noteq> CHR 0x0D"
    by (simp_all add: list_all_iff)
qed

lemma b64_bytes:
  fixes x y z :: nat
  shows "b64_byte1 (x div 4) ((x mod 4) * 16) = char_of x"
    "y < 256 \<Longrightarrow> b64_byte1 (x div 4) ((x mod 4) * 16 + y div 16) = char_of x"
    "y < 256 \<Longrightarrow> b64_byte2 ((x mod 4) * 16 + y div 16) ((y mod 16) * 4) = char_of y"
    "y < 256 \<Longrightarrow> z < 256 \<Longrightarrow>
       b64_byte2 ((x mod 4) * 16 + y div 16) ((y mod 16) * 4 + z div 64) = char_of y"
    "z < 256 \<Longrightarrow> b64_byte3 ((y mod 16) * 4 + z div 64) (z mod 64) = char_of z"
proof -
  have yz: "y < 256 \<Longrightarrow> y div 16 < 16" "z < 256 \<Longrightarrow> z div 64 < 4" by auto
  show "b64_byte1 (x div 4) ((x mod 4) * 16) = char_of x"
    "y < 256 \<Longrightarrow> b64_byte1 (x div 4) ((x mod 4) * 16 + y div 16) = char_of x"
    using yz by (simp_all add: b64_byte1_def)
  have "y < 256 \<Longrightarrow> ((x mod 4) * 16 + y div 16) mod 16 = y div 16"
    "z < 256 \<Longrightarrow> ((y mod 16) * 4 + z div 64) div 4 = y mod 16"
    "z < 256 \<Longrightarrow> ((y mod 16) * 4 + z div 64) mod 4 = z div 64"
    using yz by (auto simp: mod_mult_self3 add.commute [of "_ * _"])
  then show "y < 256 \<Longrightarrow> b64_byte2 ((x mod 4) * 16 + y div 16) ((y mod 16) * 4) = char_of y"
    "y < 256 \<Longrightarrow> z < 256 \<Longrightarrow>
       b64_byte2 ((x mod 4) * 16 + y div 16) ((y mod 16) * 4 + z div 64) = char_of y"
    "z < 256 \<Longrightarrow> b64_byte3 ((y mod 16) * 4 + z div 64) (z mod 64) = char_of z"
    by (simp_all add: b64_byte2_def b64_byte3_def)
qed

lemma b64_index:
  fixes x y z :: nat
  shows "x < 256 \<Longrightarrow> x div 4 < 64" "(x mod 4) * 16 < 64" "(y mod 16) * 4 < 64"
    "y < 256 \<Longrightarrow> (x mod 4) * 16 + y div 16 < 64" "z < 256 \<Longrightarrow> (y mod 16) * 4 + z div 64 < 64"
    "z mod 64 < 64"
proof -
  have "x mod 4 < 4" "y mod 16 < 16" by auto
  moreover have "y < 256 \<Longrightarrow> y div 16 < 16" "z < 256 \<Longrightarrow> z div 64 < 4" by auto
  ultimately show "x < 256 \<Longrightarrow> x div 4 < 64" "(x mod 4) * 16 < 64" "(y mod 16) * 4 < 64"
    "y < 256 \<Longrightarrow> (x mod 4) * 16 + y div 16 < 64" "z < 256 \<Longrightarrow> (y mod 16) * 4 + z div 64 < 64"
    "z mod 64 < 64"
    by linarith+
qed

lemma b64_groups_encode: "b64_groups b64_std (b64_encode b64_std True s) = Some s"
  by (induction b64_std True s rule: b64_encode.induct)
    (simp_all add: b64_std_nth b64_bytes b64_index Let_def)

lemma b64_encode_chars:
  "set (b64_encode al False s) \<subseteq> (\<lambda>n. al ! n) ` {..<64}"
proof (induction al False s rule: b64_encode.induct)
  case (4 al a b c r)
  then show ?case by (auto simp: Let_def b64_index)
qed (auto simp: Let_def b64_index)

lemma b64_encode_pad_chars:
  "set (b64_encode al True s) \<subseteq> insert (CHR ''='') ((\<lambda>n. al ! n) ` {..<64})"
proof (induction al True s rule: b64_encode.induct)
  case (4 al a b c r)
  then show ?case by (auto simp: Let_def b64_index)
qed (auto simp: Let_def b64_index)

lemma b64_std_roundtrip [simp]: "b64_std_decode (b64_std_encode s) = Some s"
proof -
  have "c \<noteq> CHR 0x0A \<and> c \<noteq> CHR 0x0D" if "c \<in> set (b64_encode b64_std True s)" for c
  proof -
    from that consider "c = CHR ''=''" | n where "n < 64" "c = b64_std ! n"
      using b64_encode_pad_chars [of b64_std s] by blast
    then show ?thesis by cases (simp_all add: b64_std_nth)
  qed
  then have "filter (\<lambda>c. c \<noteq> CHR 0x0A \<and> c \<noteq> CHR 0x0D) (b64_encode b64_std True s) = b64_encode b64_std True s"
    by (intro filter_True) blast
  then show ?thesis by (simp add: b64_std_decode_def b64_std_encode_def b64_groups_encode)
qed

section \<open>Raw URL encoding\<close>

lemma b64_url_chars:
  assumes "n < 64"
  shows "b64_url ! n \<in> set b64_url"
  using assms by (intro nth_mem) (simp add: b64_url_def b64_letters_def)

lemma b64_rawurl_chars: "set (b64_rawurl_encode s) \<subseteq> set b64_url"
  using b64_encode_chars [of b64_url s] b64_url_chars by (force simp: b64_rawurl_encode_def)

lemma b64_rawurl_length: "length (b64_rawurl_encode s) = (4 * length s + 2) div 3"
  unfolding b64_rawurl_encode_def
  by (induction b64_url False s rule: b64_encode.induct) (simp_all add: Let_def)

lemma b64_url_inj: "n < 64 \<Longrightarrow> m < 64 \<Longrightarrow> b64_url ! n = b64_url ! m \<longleftrightarrow> n = m"
proof -
  have "distinct b64_url" "length b64_url = 64" by code_simp+
  then show "n < 64 \<Longrightarrow> m < 64 \<Longrightarrow> b64_url ! n = b64_url ! m \<longleftrightarrow> n = m"
    by (simp add: nth_eq_iff_index_eq)
qed

lemma hex_nth: "n < 16 \<Longrightarrow> hex_digits ! n \<in> set hex_digits"
  by (intro nth_mem) (simp add: hex_digits_def)

lemma hex_digits_inj: "n < 16 \<Longrightarrow> m < 16 \<Longrightarrow> hex_digits ! n = hex_digits ! m \<longleftrightarrow> n = m"
proof -
  have "distinct hex_digits" "length hex_digits = 16" by code_simp+
  then show "n < 16 \<Longrightarrow> m < 16 \<Longrightarrow> hex_digits ! n = hex_digits ! m \<longleftrightarrow> n = m"
    by (simp add: nth_eq_iff_index_eq)
qed

lemma hex_encode_Cons [simp]:
  "hex_encode (c # s) = hex_digits ! (of_char c div 16) # hex_digits ! (of_char c mod 16) # hex_encode s"
  by (simp add: hex_encode_def Let_def)

lemma hex_encode_Nil [simp]: "hex_encode [] = []"
  by (simp add: hex_encode_def)

lemma hex_encode_inj: "hex_encode s = hex_encode t \<longleftrightarrow> s = t"
proof (induction s arbitrary: t)
  case Nil
  then show ?case by (cases t) auto
next
  case (Cons c s)
  show ?case
  proof (cases t)
    case (Cons d t')
    have "(of_char c :: nat) div 16 = of_char d div 16 \<and> (of_char c :: nat) mod 16 = of_char d mod 16 \<longleftrightarrow> c = d"
      by (metis div_mult_mod_eq of_char_eq_iff)
    moreover have "(of_char c :: nat) div 16 < 16" "(of_char d :: nat) div 16 < 16"
      using nat_of_char_less_256 [of c] nat_of_char_less_256 [of d] by linarith+
    ultimately show ?thesis using Cons.IH Cons by (auto simp: hex_digits_inj)
  qed auto
qed

end
