(* ===== verification/Auth.thy ===== *)
theory Auth
  imports StoreInv GoEncoding
begin

text \<open>
  Bearer tokens, \<open>internal/auth/auth.go\<close>: the scopes, the decision \<open>Authorize\<close> makes over the
  interface \<open>TokenAuthenticator\<close>, hashing, generation and extraction from a header. SHA-256 is an
  argument \<open>sha\<close>, random bytes are drawn by the caller (\<open>None\<close> when the source fails).
  The interface is a locale, provided by the Postgres store.
\<close>

section \<open>auth.go\<close>

datatype scope = ScopeRead | ScopeWrite

text \<open>The constants are 0 and 1: what may be written may be read.\<close>

instantiation scope :: linorder
begin

definition less_eq_scope :: "scope \<Rightarrow> scope \<Rightarrow> bool" where
  "less_eq_scope s t \<longleftrightarrow> s = ScopeRead \<or> t = ScopeWrite"

definition less_scope :: "scope \<Rightarrow> scope \<Rightarrow> bool" where
  "less_scope s t \<longleftrightarrow> s = ScopeRead \<and> t = ScopeWrite"

instance
proof
  fix s t u :: scope
  show "s < t \<longleftrightarrow> s \<le> t \<and> \<not> t \<le> s" by (cases s; cases t) (simp_all add: less_eq_scope_def less_scope_def)
  show "s \<le> s" by (cases s) (simp_all add: less_eq_scope_def)
  show "s \<le> t \<Longrightarrow> t \<le> u \<Longrightarrow> s \<le> u" by (auto simp: less_eq_scope_def)
  show "s \<le> t \<Longrightarrow> t \<le> s \<Longrightarrow> s = t" by (auto simp: less_eq_scope_def)
  show "s \<le> t \<or> t \<le> s" by (cases s; cases t) (simp_all add: less_eq_scope_def)
qed

end

record 'w authn_if =
  a_authenticate :: "time \<Rightarrow> string \<Rightarrow> 'w \<Rightarrow> (store_err + token) \<times> 'w"

definition hash_token :: "(string \<Rightarrow> string) \<Rightarrow> string \<Rightarrow> string" where
  "hash_token sha token = hex_encode (sha token)"

text \<open>The result is an error, or the pair \<open>validToken\<close>, \<open>allowed\<close>.\<close>

definition authorize ::
  "'w authn_if \<Rightarrow> (string \<Rightarrow> string) \<Rightarrow> time \<Rightarrow> string \<Rightarrow> scope \<Rightarrow> 'w \<Rightarrow> (store_err + bool \<times> bool) \<times> 'w" where
  "authorize ai sha now token scope w =
     (if token = [] then (Inr (False, False), w)
      else (case a_authenticate ai now (hash_token sha token) w of
              (Inl StNotFound, w1) \<Rightarrow> (Inr (False, False), w1)
            | (Inl e, w1) \<Rightarrow> (Inl e, w1)
            | (Inr tok, w1) \<Rightarrow>
                (if scope = ScopeWrite then (Inr (True, tok_scope tok = scope_write), w1)
                 else (Inr (True, True), w1))))"

definition token_prefix :: string where "token_prefix = ''nxc_''"

definition generate_token :: "string option \<Rightarrow> string option" where
  "generate_token rnd = map_option (\<lambda>buf. token_prefix @ b64_rawurl_encode buf) rnd"

definition bearer_prefix :: string where "bearer_prefix = ''Bearer ''"

definition extract_bearer :: "string \<Rightarrow> string" where
  "extract_bearer h =
     (if \<not> has_prefix bearer_prefix h then [] else trim_space (trim_prefix bearer_prefix h))"

section \<open>The interface TokenAuthenticator\<close>

text \<open>
  \<open>grant w\<close> is the scope each token hash has; authenticating answers from it and leaves it as it is.
\<close>

locale token_authenticator =
  fixes ai :: "'w authn_if"
    and grant :: "'w \<Rightarrow> string \<Rightarrow> string option"
  assumes auth_law:
    "a_authenticate ai now h w = (res, w') \<Longrightarrow>
       grant w' = grant w \<and>
       (case res of Inr t \<Rightarrow> grant w h = Some (tok_scope t) | Inl e \<Rightarrow> e = StNotFound \<longrightarrow> grant w h = None)"
begin

lemma authorize_keeps: "authorize ai sha now token scope w = (res, w') \<Longrightarrow> grant w' = grant w"
  by (auto simp: authorize_def dest!: auth_law split: if_splits prod.splits sum.splits store_err.splits)

text \<open>A token is valid when its hash has a scope; it may write only with the scope to write.\<close>

lemma authorize_decides:
  assumes "authorize ai sha now token scope w = (Inr (valid, allowed), w')"
  shows "valid \<longleftrightarrow> token \<noteq> [] \<and> grant w (hash_token sha token) \<noteq> None"
    "allowed \<longleftrightarrow> valid \<and> (scope = ScopeWrite \<longrightarrow> grant w (hash_token sha token) = Some scope_write)"
proof -
  show "valid \<longleftrightarrow> token \<noteq> [] \<and> grant w (hash_token sha token) \<noteq> None"
    "allowed \<longleftrightarrow> valid \<and> (scope = ScopeWrite \<longrightarrow> grant w (hash_token sha token) = Some scope_write)"
    using assms
    by (auto simp: authorize_def dest!: auth_law split: if_splits prod.splits sum.splits store_err.splits)
qed

lemma authorize_error:
  "authorize ai sha now token scope w = (Inl e, w') \<Longrightarrow> e \<noteq> StNotFound \<and> token \<noteq> []"
  by (auto simp: authorize_def split: if_splits prod.splits sum.splits store_err.splits)

end

text \<open>The Postgres store as the provider.\<close>

definition pg_authn :: "pg authn_if" where
  "pg_authn = \<lparr>a_authenticate = authenticate\<rparr>"

definition pg_grant :: "pg \<Rightarrow> string \<Rightarrow> string option" where
  "pg_grant p h = map_option (\<lambda>r. tok_scope (row_token r)) (find (active_hash h) (pg_tokens p))"

lemma find_map_keep:
  "(\<And>x. P (f x) = P x) \<Longrightarrow> find P (map f xs) = map_option f (find P xs)"
  by (induction xs) auto

lemma pg_grant_use: "pg_grant (p\<lparr>pg_tokens := map (use_row now h) (pg_tokens p)\<rparr>) = pg_grant p"
proof
  fix k
  have "tok_scope (row_token (use_row now h r)) = tok_scope (row_token r)" for r
    by (simp add: use_row_def)
  then show "pg_grant (p\<lparr>pg_tokens := map (use_row now h) (pg_tokens p)\<rparr>) k = pg_grant p k"
    by (simp add: pg_grant_def find_map_keep use_row_active option.map_comp comp_def)
qed

lemma pg_grant_faults [simp]: "pg_grant (p\<lparr>pg_faults := x\<rparr>) = pg_grant p"
  by (simp add: pg_grant_def fun_eq_iff)

lemma authenticate_law:
  assumes "authenticate now h p = (res, p')"
  shows "pg_grant p' = pg_grant p \<and>
    (case res of Inr t \<Rightarrow> pg_grant p h = Some (tok_scope t) | Inl e \<Rightarrow> e = StNotFound \<longrightarrow> pg_grant p h = None)"
proof -
  obtain r where r: "pg_call (q_authenticate now h) p = (r, p')" "res = row_result r"
    using assms by (auto simp: authenticate_def map_prod_id_eq)
  have q: "q_authenticate now h (p\<lparr>pg_faults := x\<rparr>) =
      (Rows (map_option (\<lambda>r. (row_token r)\<lparr>tok_last_used := Some now\<rparr>) (find (active_hash h) (pg_tokens p))),
       p\<lparr>pg_faults := x, pg_tokens := map (use_row now h) (pg_tokens p)\<rparr>)" for x
    by (simp add: q_authenticate_find)
  from pg_call_cases [OF r(1)] obtain x where "(r = None \<and> p' = p\<lparr>pg_faults := x\<rparr>) \<or>
      (\<exists>a. q_authenticate now h (p\<lparr>pg_faults := x\<rparr>) = (a, p') \<and> (r = None \<or> r = Some a))" by blast
  then show ?thesis
    using pg_grant_use [where p = "p\<lparr>pg_faults := x\<rparr>" and now = now and h = h]
    by (auto simp: q r(2) row_result_def pg_grant_def [of p h] split: option.splits)
qed

interpretation pg_tokens: token_authenticator pg_authn pg_grant
  by unfold_locales (use authenticate_law in \<open>auto simp: pg_authn_def\<close>)

section \<open>A generated token travels unchanged\<close>

lemma b64_url_not_space:
  "c \<in> set (token_prefix @ b64_url) \<Longrightarrow> \<forall>w \<in> set space_runes. w \<noteq> [] \<and> hd w \<noteq> c \<and> last w \<noteq> c"
proof -
  have "list_all (\<lambda>c. list_all (\<lambda>w. w \<noteq> [] \<and> hd w \<noteq> c \<and> last w \<noteq> c) space_runes) (token_prefix @ b64_url)"
    by code_simp
  then show "c \<in> set (token_prefix @ b64_url) \<Longrightarrow> \<forall>w \<in> set space_runes. w \<noteq> [] \<and> hd w \<noteq> c \<and> last w \<noteq> c"
    by (simp add: list_all_iff)
qed

lemma strip_runes_same:
  assumes "s \<noteq> []" "\<forall>w \<in> set rs. w \<noteq> [] \<and> hd w \<noteq> hd s"
  shows "strip_runes n rs s = s"
proof -
  have "\<not> has_prefix w s" if "w \<in> set rs" for w
    using assms that by (cases w; cases s) (auto simp: has_prefix_def)
  then have "find (\<lambda>r. has_prefix r s) rs = None" by (simp add: find_None_iff)
  then show ?thesis by (cases n) simp_all
qed

lemma trim_space_same:
  assumes "s \<noteq> []" "\<forall>w \<in> set space_runes. w \<noteq> [] \<and> hd w \<noteq> hd s"
    "\<forall>w \<in> set space_runes. w \<noteq> [] \<and> last w \<noteq> last s"
  shows "trim_space s = s"
proof -
  have "strip_runes (length s) space_runes s = s" by (rule strip_runes_same [OF assms(1,2)])
  moreover have "strip_runes (length s) (map rev space_runes) (rev s) = rev s"
    using assms(1,3) by (intro strip_runes_same) (auto simp: hd_rev)
  ultimately show ?thesis by (simp add: trim_space_def Let_def)
qed

lemma generate_token_chars: "generate_token rnd = Some t \<Longrightarrow> t \<noteq> [] \<and> set t \<subseteq> set (token_prefix @ b64_url)"
  by (auto simp: generate_token_def token_prefix_def dest!: b64_rawurl_chars [THEN subsetD])

lemma generate_token_trim:
  assumes "generate_token rnd = Some t"
  shows "trim_space t = t"
proof -
  have t: "t \<noteq> []" "set t \<subseteq> set (token_prefix @ b64_url)" using generate_token_chars [OF assms] by auto
  then have "hd t \<in> set (token_prefix @ b64_url)" "last t \<in> set (token_prefix @ b64_url)"
    using t hd_in_set last_in_set by blast+
  then show ?thesis using t(1) b64_url_not_space by (intro trim_space_same) blast+
qed

lemma extract_bearer_token: "trim_space t = t \<Longrightarrow> extract_bearer (bearer_prefix @ t) = t"
  by (simp add: extract_bearer_def)

end
