(* ===== verification/Session.thy ===== *)
theory Session
  imports Auth
begin

text \<open>
  Admin sessions, \<open>internal/session/session.go\<close>: password verification, login, logout and the
  resolution of a cookie to a user. Package bcrypt is an argument, as are SHA-256 and the random
  bytes of a session id; only the lifetime of new sessions is state of the manager, everything
  else is in the store.
\<close>

section \<open>Passwords and session ids\<close>

text \<open>
  \<open>CompareHashAndPassword\<close> and \<open>GenerateFromPassword\<close>; the latter draws a salt and fails on a
  password it does not take.
\<close>

record bcrypt =
  bc_compare :: "string \<Rightarrow> string \<Rightarrow> bool"
  bc_generate :: "string \<Rightarrow> string \<Rightarrow> string option"

definition hash_password :: "bcrypt \<Rightarrow> string \<Rightarrow> string \<Rightarrow> string option" where
  "hash_password bc salt password = bc_generate bc salt password"

definition verify_password :: "bcrypt \<Rightarrow> string \<Rightarrow> string \<Rightarrow> bool" where
  "verify_password bc hash password = bc_compare bc hash password"

definition generate_id :: "string option \<Rightarrow> string option" where
  "generate_id rnd = map_option b64_rawurl_encode rnd"

definition hash_id :: "(string \<Rightarrow> string) \<Rightarrow> string \<Rightarrow> string" where
  "hash_id sha i = hex_encode (sha i)"

definition dummy_hash :: string where
  "dummy_hash = ''$2a$10$N9qo8uLOickgx2ZMRZoMyeIjZAgcfl7p92ldGxad68LJZdL17lhWy''"

section \<open>The manager\<close>

datatype login_err = InvalidCredentials | LoginStore store_err | LoginRandom

text \<open>
  \<open>Login\<close> returns its result and the password hashes it ran a comparison against: the one of the
  user, or the dummy when the email is unknown.
\<close>

definition login ::
  "bcrypt \<Rightarrow> (string \<Rightarrow> string) \<Rightarrow> duration \<Rightarrow> time \<Rightarrow> string option \<Rightarrow> string \<Rightarrow> string \<Rightarrow> pg \<Rightarrow>
     ((login_err + string) \<times> string list) \<times> pg" where
  "login bc sha ttl now rnd email password p =
     (case get_user_by_email email p of
        (Inl StNotFound, p1) \<Rightarrow> ((Inl InvalidCredentials, [dummy_hash]), p1)
      | (Inl e, p1) \<Rightarrow> ((Inl (LoginStore e), []), p1)
      | (Inr u, p1) \<Rightarrow>
          (if \<not> bc_compare bc (usr_pwhash u) password
           then ((Inl InvalidCredentials, [usr_pwhash u]), p1)
           else (case generate_id rnd of
                   None \<Rightarrow> ((Inl LoginRandom, [usr_pwhash u]), p1)
                 | Some raw \<Rightarrow>
                     (case create_session (hash_id sha raw) (usr_id u) (time_add now ttl) p1 of
                        (Inl e, p2) \<Rightarrow> ((Inl (LoginStore e), [usr_pwhash u]), p2)
                      | (Inr _, p2) \<Rightarrow> ((Inr raw, [usr_pwhash u]), p2)))))"

definition logout :: "(string \<Rightarrow> string) \<Rightarrow> string \<Rightarrow> pg \<Rightarrow> (store_err + unit) \<times> pg" where
  "logout sha raw p = (if raw = [] then (Inr (), p) else delete_session (hash_id sha raw) p)"

definition current_user :: "(string \<Rightarrow> string) \<Rightarrow> time \<Rightarrow> string \<Rightarrow> pg \<Rightarrow> (store_err + user) \<times> pg" where
  "current_user sha now raw p =
     (if raw = [] then (Inl StNotFound, p)
      else (case get_session now (hash_id sha raw) p of
              (Inl e, p1) \<Rightarrow> (Inl e, p1)
            | (Inr sess, p1) \<Rightarrow> get_user_by_id (ses_user sess) p1))"

section \<open>What a session stands for\<close>

text \<open>A read leaves the tables as they are.\<close>

definition same_tables :: "pg \<Rightarrow> pg \<Rightarrow> bool" where
  "same_tables p p' \<longleftrightarrow> (\<exists>x. p' = p\<lparr>pg_faults := x\<rparr>)"

lemma same_tables_refl [simp]: "same_tables p p"
  unfolding same_tables_def by (rule exI [of _ "pg_faults p"]) simp

lemma same_tables_trans: "same_tables p p' \<Longrightarrow> same_tables p' p'' \<Longrightarrow> same_tables p p''"
  by (auto simp: same_tables_def)

lemma same_tablesD:
  "same_tables p p' \<Longrightarrow> pg_users p' = pg_users p \<and> pg_sessions p' = pg_sessions p \<and> pg_tokens p' = pg_tokens p \<and>
     pg_settings p' = pg_settings p \<and> pg_reads p' = pg_reads p \<and> pg_user_seq p' = pg_user_seq p"
  by (auto simp: same_tables_def)

lemma read_call_same:
  assumes "pg_call (\<lambda>p. (q p, p)) p = (r, p')"
  shows "same_tables p p'"
  using pg_call_cases [OF assms] by (auto simp: same_tables_def)

lemma get_user_by_email_same: "get_user_by_email e p = (r, p') \<Longrightarrow> same_tables p p'"
  by (auto simp: get_user_by_email_def map_prod_id_eq dest: read_call_same)

lemma get_user_by_id_same: "get_user_by_id i p = (r, p') \<Longrightarrow> same_tables p p'"
  by (auto simp: get_user_by_id_def map_prod_id_eq dest: read_call_same)

lemma get_session_same: "get_session now h p = (r, p') \<Longrightarrow> same_tables p p'"
  by (auto simp: get_session_def map_prod_id_eq dest: read_call_same)

lemma get_user_by_email_Inr:
  "get_user_by_email e p = (Inr u, p') \<Longrightarrow> u \<in> set (pg_users p) \<and> usr_email u = e"
  by (auto simp: get_user_by_email_def pg_call_def row_result_def Let_def map_prod_id_eq
      split: list.splits db_fault.splits option.splits sql.splits dest: find_Some_mem)

lemma current_user_same: "current_user sha now raw p = (r, p') \<Longrightarrow> same_tables p p'"
  by (auto simp: current_user_def split: if_splits prod.splits sum.splits
      dest: get_session_same get_user_by_id_same intro: same_tables_trans)

text \<open>A cookie resolves only to the user of a stored session that has not expired.\<close>

lemma current_user_Inr:
  assumes "current_user sha now raw p = (Inr u, p')"
  shows "raw \<noteq> [] \<and> u \<in> set (pg_users p) \<and>
    (\<exists>s \<in> set (pg_sessions p). ses_hash s = hash_id sha raw \<and> now < ses_expires s \<and> ses_user s = usr_id u)"
proof -
  obtain sess p1 where s: "raw \<noteq> []" "get_session now (hash_id sha raw) p = (Inr sess, p1)"
    "get_user_by_id (ses_user sess) p1 = (Inr u, p')"
    using assms by (auto simp: current_user_def split: if_splits prod.splits sum.splits)
  have "pg_users p1 = pg_users p" using same_tablesD [OF get_session_same [OF s(2)]] by blast
  then show ?thesis using s get_session_Inr [OF s(2)] get_user_by_id_Inr [OF s(3)] by auto
qed

lemma session_hash_eq:
  assumes "pg_wf p" "s \<in> set (pg_sessions p)" "s' \<in> set (pg_sessions p)" "ses_hash s' = ses_hash s"
  shows "s' = s"
proof -
  have "inj_on ses_hash (set (pg_sessions p))"
    using assms(1) unfolding pg_wf_def sessions_wf_def distinct_map by blast
  then show ?thesis using assms(2-4) by (meson inj_onD)
qed

lemma user_id_eq:
  assumes "pg_wf p" "u \<in> set (pg_users p)" "u' \<in> set (pg_users p)" "usr_id u' = usr_id u"
  shows "u' = u"
proof -
  have "inj_on usr_id (set (pg_users p))"
    using assms(1) unfolding pg_wf_def users_wf_def distinct_map by blast
  then show ?thesis using assms(2-4) by (meson inj_onD)
qed

lemma user_email_eq:
  assumes "pg_wf p" "u \<in> set (pg_users p)" "u' \<in> set (pg_users p)" "usr_email u' = usr_email u"
  shows "u' = u"
proof -
  have "inj_on usr_email (set (pg_users p))"
    using assms(1) unfolding pg_wf_def users_wf_def distinct_map by blast
  then show ?thesis using assms(2-4) by (meson inj_onD)
qed

lemma find_unique:
  assumes "x \<in> set xs" "P x" "\<And>y. y \<in> set xs \<Longrightarrow> P y \<Longrightarrow> y = x"
  shows "find P xs = Some x"
proof (cases "find P xs")
  case None
  then show ?thesis using assms(1,2) by (auto simp: find_None_iff)
next
  case (Some y)
  then show ?thesis using assms(3) [of y] find_Some_mem [OF Some] by simp
qed

text \<open>With a database that answers, a live session resolves to its user.\<close>

lemma current_user_live:
  assumes "pg_wf p" "pg_faults p = []" "raw \<noteq> []" "s \<in> set (pg_sessions p)" "ses_hash s = hash_id sha raw"
    and "now < ses_expires s" "u \<in> set (pg_users p)" "usr_id u = ses_user s"
  shows "current_user sha now raw p = (Inr u, p)"
proof -
  have "find (\<lambda>s. ses_hash s = hash_id sha raw \<and> now < ses_expires s) (pg_sessions p) = Some s"
  proof (rule find_unique [OF assms(4)])
    fix s' assume "s' \<in> set (pg_sessions p)" "ses_hash s' = hash_id sha raw \<and> now < ses_expires s'"
    then show "s' = s" using session_hash_eq [OF assms(1,4)] assms(5) by metis
  qed (use assms(5,6) in simp)
  moreover have "find (\<lambda>u. usr_id u = ses_user s) (pg_users p) = Some u"
  proof (rule find_unique [OF assms(7)])
    fix u' assume "u' \<in> set (pg_users p)" "usr_id u' = ses_user s"
    then show "u' = u" using user_id_eq [OF assms(1,7)] assms(8) by metis
  qed (rule assms(8))
  ultimately show ?thesis
    using assms(2,3) by (simp add: current_user_def get_session_def get_user_by_id_def row_result_def)
qed

lemma create_session_Inr:
  assumes "create_session h i t p = (Inr u, p')"
  shows "h \<notin> set (map ses_hash (pg_sessions p)) \<and> i \<in> set (user_ids p) \<and> pg_users p' = pg_users p \<and>
    pg_sessions p' = pg_sessions p @ [\<lparr>ses_hash = h, ses_user = i, ses_expires = t\<rparr>]"
proof -
  obtain r where r: "pg_call (q_create_session h i t) p = (r, p')" "plain_result r = Inr u"
    using assms by (auto simp: create_session_def map_prod_id_eq)
  then obtain a where "r = Some (Rows a)"
    by (auto simp: plain_result_def split: option.splits sql.splits)
  then obtain x where "q_create_session h i t (p\<lparr>pg_faults := x\<rparr>) = (Rows a, p')"
    using pg_call_Some r(1) by blast
  then show ?thesis by (auto simp: q_create_session_def user_ids_def split: if_splits)
qed

lemma login_Inr:
  assumes "login bc sha ttl now rnd email password p = ((Inr raw, cmp), p')"
  shows "\<exists>u buf. u \<in> set (pg_users p) \<and> usr_email u = email \<and> bc_compare bc (usr_pwhash u) password \<and>
    rnd = Some buf \<and> raw = b64_rawurl_encode buf \<and> pg_users p' = pg_users p \<and>
    pg_sessions p' = pg_sessions p @
      [\<lparr>ses_hash = hash_id sha raw, ses_user = usr_id u, ses_expires = now + ttl\<rparr>]"
proof -
  obtain u p1 buf r where u: "get_user_by_email email p = (Inr u, p1)" "bc_compare bc (usr_pwhash u) password"
    "rnd = Some buf" "raw = b64_rawurl_encode buf"
    "create_session (hash_id sha raw) (usr_id u) (time_add now ttl) p1 = (Inr r, p')"
    using assms by (auto simp: login_def generate_id_def
        split: prod.splits sum.splits store_err.splits if_splits option.splits)
  note same_tablesD [OF get_user_by_email_same [OF u(1)]]
  then show ?thesis
    using u get_user_by_email_Inr [OF u(1)] create_session_Inr [OF u(5)] by (auto simp: time_add_def)
qed

section \<open>Properties\<close>

lemma login_steps: "login bc sha ttl now rnd email password p = (r, p') \<Longrightarrow> pg_steps p p'"
proof -
  assume l: "login bc sha ttl now rnd email password p = (r, p')"
  obtain g p1 where g: "get_user_by_email email p = (g, p1)" by fastforce
  have s1: "pg_steps p p1"
    using steps_step [OF steps_refl st_get_user_by_email, of p email] g by simp
  have "p' = p1 \<or> (\<exists>h i t. p' = snd (create_session h i t p1))"
    using l g by (simp add: login_def split: sum.splits store_err.splits if_splits option.splits prod.splits)
      (metis snd_conv)+
  then show "pg_steps p p'" using s1 steps_step [OF s1 st_create_session] by metis
qed

lemma login_resolves:
  assumes "pg_wf p" "pg_faults p' = []"
    and "login bc sha ttl now rnd email password p = ((Inr raw, cmp), p')" "rnd \<noteq> Some []"
  shows "\<exists>u \<in> set (pg_users p). usr_email u = email \<and> bc_compare bc (usr_pwhash u) password \<and>
    (\<forall>now'. fst (current_user sha now' raw p') = (if now' < now + ttl then Inr u else Inl StNotFound))"
proof -
  obtain u buf where u: "u \<in> set (pg_users p)" "usr_email u = email" "bc_compare bc (usr_pwhash u) password"
    "rnd = Some buf" "raw = b64_rawurl_encode buf" "pg_users p' = pg_users p"
    "pg_sessions p' = pg_sessions p @ [\<lparr>ses_hash = hash_id sha raw, ses_user = usr_id u, ses_expires = now + ttl\<rparr>]"
    using login_Inr [OF assms(3)] by blast
  have wf: "pg_wf p'" using pg_steps_wf [OF login_steps [OF assms(3)] assms(1)] .
  have raw: "raw \<noteq> []" using u(4,5) assms(4) b64_rawurl_length [of buf] by (cases buf) auto
  have new: "hash_id sha raw \<notin> ses_hash ` set (pg_sessions p)"
    using wf u(7) by (auto simp: pg_wf_def sessions_wf_def)
  have uniq: "ses_expires s = now + ttl"
    if "s \<in> set (pg_sessions p')" "ses_hash s = hash_id sha raw" for s
    using that u(7) new by (auto simp: image_iff)
  have "fst (current_user sha now' raw p') = (if now' < now + ttl then Inr u else Inl StNotFound)" for now'
  proof (cases "now' < now + ttl")
    case True
    have "current_user sha now' raw p' = (Inr u, p')"
      using True u by (intro current_user_live [OF wf assms(2) raw]) auto
    then show ?thesis using True by simp
  next
    case False
    then have "find (\<lambda>s. ses_hash s = hash_id sha raw \<and> now' < ses_expires s) (pg_sessions p') = None"
      using uniq by (auto simp: find_None_iff)
    then show ?thesis
      using False raw assms(2) by (simp add: current_user_def get_session_def row_result_def)
  qed
  then show ?thesis using u(1-3) by blast
qed

text \<open>
  C18. A successful login is one with the stored email and a password bcrypt accepts for
  it; the cookie it returns resolves to that user at every instant before now plus the lifetime
  the manager was set to, and at none from then on.
\<close>

theorem login_session_lifetime:
  assumes "pg_reach p" "pg_faults p' = []"
    and "login bc sha ttl now rnd email password p = ((Inr raw, cmp), p')" "rnd \<noteq> Some []"
  shows "\<exists>u \<in> set (pg_users p). usr_email u = email \<and> bc_compare bc (usr_pwhash u) password \<and>
    (\<forall>now'. fst (current_user sha now' raw p') = (if now' < now + ttl then Inr u else Inl StNotFound))"
  using login_resolves [OF pg_reach_wf [OF assms(1)] assms(2-4)] .

text \<open>
  C19. A login attempt with an unknown email and one with a wrong password are told apart
  neither by their answer nor by the number of bcrypt comparisons, which is one in both cases,
  and neither changes the tables.
\<close>

theorem login_no_enumeration:
  assumes "pg_faults p = []" "pg_wf p"
    and "find (\<lambda>u. usr_email u = email) (pg_users p) = None"
    and "u \<in> set (pg_users p)" "\<not> bc_compare bc (usr_pwhash u) password"
  shows "fst (fst (login bc sha ttl now rnd email password p)) =
      fst (fst (login bc sha ttl now rnd (usr_email u) password p)) \<and>
    length (snd (fst (login bc sha ttl now rnd email password p))) = 1 \<and>
    length (snd (fst (login bc sha ttl now rnd (usr_email u) password p))) = 1 \<and>
    snd (login bc sha ttl now rnd email password p) = p \<and>
    snd (login bc sha ttl now rnd (usr_email u) password p) = p"
proof -
  have f: "find (\<lambda>v. usr_email v = usr_email u) (pg_users p) = Some u"
    using user_email_eq [OF assms(2,4)] by (intro find_unique [OF assms(4)]) auto
  show ?thesis
    using assms f by (simp add: login_def get_user_by_email_def row_result_def)
qed

section \<open>A concrete login\<close>

definition toy_bcrypt :: bcrypt where
  "toy_bcrypt = \<lparr>bc_compare = (\<lambda>h p. h = p), bc_generate = (\<lambda>_ p. if length p \<le> 72 then Some p else None)\<rparr>"

definition id_sha :: "string \<Rightarrow> string" where "id_sha s = s"

definition one_login :: "((login_err + string) \<times> string list) \<times> pg" where
  "one_login = login toy_bcrypt id_sha 100 5 (Some ''xyz'') ''a@b'' ''pw'' pg_one_user"

lemma pg_one_user_reach: "pg_reach pg_one_user"
  unfolding pg_one_user_def by (rule reach_step [OF reach_init st_create_user])

lemma one_login_value:
  "login toy_bcrypt id_sha 100 5 (Some ''xyz'') ''a@b'' ''pw'' pg_one_user = ((Inr ''eHl6'', [''pw'']), snd one_login)"
  "pg_faults (snd one_login) = []"
  by code_simp+

theorem login_session_lifetime_witness:
  "map_sum id usr_email (fst (current_user id_sha 104 ''eHl6'' (snd one_login))) = Inr ''a@b'' \<and>
   fst (current_user id_sha 105 ''eHl6'' (snd one_login)) = Inl StNotFound"
proof -
  have "(Some ''xyz'' :: string option) \<noteq> Some []" by simp
  then obtain u where "usr_email u = ''a@b''" "\<forall>now'. fst (current_user id_sha now' ''eHl6'' (snd one_login)) =
      (if now' < 5 + 100 then Inr u else Inl StNotFound)"
    using login_session_lifetime [OF pg_one_user_reach one_login_value(2) one_login_value(1)] by blast
  then show ?thesis by simp
qed

theorem login_no_enumeration_witness:
  "fst (fst (login toy_bcrypt id_sha 100 5 None ''no@b'' ''bad'' pg_one_user)) =
     fst (fst (login toy_bcrypt id_sha 100 5 None ''a@b'' ''bad'' pg_one_user)) \<and>
   length (snd (fst (login toy_bcrypt id_sha 100 5 None ''no@b'' ''bad'' pg_one_user))) = 1"
proof -
  let ?u = "hd (pg_users pg_one_user)"
  have f: "pg_faults pg_one_user = []" by code_simp
  have n: "find (\<lambda>u. usr_email u = ''no@b'') (pg_users pg_one_user) = None" by code_simp
  have "pg_users pg_one_user = [\<lparr>usr_id = 1, usr_email = ''a@b'', usr_pwhash = ''pw'', usr_created = 1\<rparr>]" by code_simp
  then have u: "?u \<in> set (pg_users pg_one_user)" "usr_email ?u = ''a@b''" "\<not> bc_compare toy_bcrypt (usr_pwhash ?u) ''bad''"
    by (simp_all add: toy_bcrypt_def)
  show ?thesis
    using login_no_enumeration [OF f pg_reach_wf [OF pg_one_user_reach] n u(1,3), of id_sha 100 5 None] u(2) by simp
qed

end
