(* ===== verification/GoHttp.thy ===== *)
theory GoHttp
  imports Nx_Prelude
begin

text \<open>
  The parts of \<open>net/http\<close> and \<open>encoding/json\<close> the handlers use: responses with their headers
  and cookies, JSON values (numbers as the decoder distinguishes them, instants as a constructor
  of their own), the helpers \<open>http.Error\<close> and those of \<open>internal/adminapi/json.go\<close>, and decoding
  an object into the fields of a struct.
\<close>

section \<open>Values and responses\<close>

datatype json =
  JNull
| JBool bool
| JInt int
| JFloat string
| JStr string
| JTime time
| JArr "json list"
| JObj "(string \<times> json) list"

datatype body = NoBody | Text string | Octets "byte list" | JsonBody json

record cookie =
  ck_name :: string
  ck_value :: string
  ck_path :: string
  ck_http_only :: bool
  ck_secure :: bool
  ck_strict :: bool
  ck_max_age :: int

text \<open>\<open>rs_cut\<close>: the body was cut off while it was streamed.\<close>

record response =
  rs_status :: int
  rs_headers :: "(string \<times> string) list"
  rs_cookies :: "cookie list"
  rs_body :: body
  rs_cut :: bool

definition plain_response :: "int \<Rightarrow> response" where
  "plain_response code = \<lparr>rs_status = code, rs_headers = [], rs_cookies = [], rs_body = NoBody, rs_cut = False\<rparr>"

definition http_error :: "string \<Rightarrow> int \<Rightarrow> response" where
  "http_error msg code =
     (plain_response code)\<lparr>rs_headers := [(''Content-Type'', ''text/plain; charset=utf-8''),
        (''X-Content-Type-Options'', ''nosniff'')], rs_body := Text (msg @ [CHR 0x0A])\<rparr>"

definition write_json :: "int \<Rightarrow> json \<Rightarrow> response" where
  "write_json status v =
     (plain_response status)\<lparr>rs_headers := [(''Content-Type'', ''application/json'')], rs_body := JsonBody v\<rparr>"

definition write_error :: "int \<Rightarrow> string \<Rightarrow> response" where
  "write_error status message = write_json status (JObj [(''error'', JStr message)])"

lemma plain_response_simps [simp]:
  "rs_status (plain_response c) = c" "rs_headers (plain_response c) = []"
  "rs_cookies (plain_response c) = []" "rs_body (plain_response c) = NoBody"
  "rs_cut (plain_response c) = False"
  by (simp_all add: plain_response_def)

lemma status_simps [simp]:
  "rs_status (http_error m c) = c" "rs_status (write_json c v) = c" "rs_status (write_error c m) = c"
  by (simp_all add: http_error_def write_json_def write_error_def)

lemma json_body_simps [simp]:
  "rs_body (write_json c v) = JsonBody v" "rs_cookies (write_json c v) = []"
  "rs_cookies (write_error c m) = []" "rs_cookies (http_error m c) = []"
  by (simp_all add: http_error_def write_json_def write_error_def)

section \<open>Decoding into a struct\<close>

text \<open>
  A field name of the input matches a struct field exactly or else with ASCII letter case
  ignored; with \<open>DisallowUnknownFields\<close> a name that matches none is an error. Fields are set in
  the order of the input, \<open>null\<close> leaves a field as it is (and clears a pointer).
\<close>

definition match_field :: "string list \<Rightarrow> string \<Rightarrow> string option" where
  "match_field names n =
     (if n \<in> set names then Some n else find (\<lambda>m. to_lower m = to_lower n) names)"

fun decode_fields :: "string list \<Rightarrow> (string \<Rightarrow> json \<Rightarrow> 'r \<Rightarrow> 'r option) \<Rightarrow> (string \<times> json) list \<Rightarrow> 'r \<Rightarrow> 'r option" where
  "decode_fields names set_field [] r = Some r"
| "decode_fields names set_field ((n, v) # fs) r =
     (case match_field names n of
        None \<Rightarrow> None
      | Some m \<Rightarrow> (case set_field m v r of None \<Rightarrow> None | Some r' \<Rightarrow> decode_fields names set_field fs r'))"

text \<open>The first value of the request body, \<open>None\<close> when there is none or it does not parse.\<close>

definition decode_json :: "string list \<Rightarrow> (string \<Rightarrow> json \<Rightarrow> 'r \<Rightarrow> 'r option) \<Rightarrow> 'r \<Rightarrow> json option \<Rightarrow> 'r option" where
  "decode_json names set_field zero b =
     (case b of
        Some (JObj fs) \<Rightarrow> decode_fields names set_field fs zero
      | Some JNull \<Rightarrow> Some zero
      | _ \<Rightarrow> None)"

definition decode_str :: "(string \<Rightarrow> 'r) \<Rightarrow> 'r \<Rightarrow> json \<Rightarrow> 'r option" where
  "decode_str f old v = (case v of JStr s \<Rightarrow> Some (f s) | JNull \<Rightarrow> Some old | _ \<Rightarrow> None)"

definition decode_bool :: "(bool \<Rightarrow> 'r) \<Rightarrow> 'r \<Rightarrow> json \<Rightarrow> 'r option" where
  "decode_bool f old v = (case v of JBool b \<Rightarrow> Some (f b) | JNull \<Rightarrow> Some old | _ \<Rightarrow> None)"

text \<open>A 64-bit integer field takes no fraction, no exponent and no number out of its range.\<close>

definition decode_int :: "(int \<Rightarrow> 'r) \<Rightarrow> 'r \<Rightarrow> json \<Rightarrow> 'r option" where
  "decode_int f old v =
     (case v of
        JInt i \<Rightarrow> (if - (2 ^ 63) \<le> i \<and> i < 2 ^ 63 then Some (f i) else None)
      | JNull \<Rightarrow> Some old
      | _ \<Rightarrow> None)"

definition decode_opt_str :: "(string option \<Rightarrow> 'r) \<Rightarrow> json \<Rightarrow> 'r option" where
  "decode_opt_str f v = (case v of JStr s \<Rightarrow> Some (f (Some s)) | JNull \<Rightarrow> Some (f None) | _ \<Rightarrow> None)"

fun decode_strings :: "json list \<Rightarrow> string list option" where
  "decode_strings [] = Some []"
| "decode_strings (v # vs) =
     (case (v, decode_strings vs) of
        (JStr s, Some ss) \<Rightarrow> Some (s # ss)
      | (JNull, Some ss) \<Rightarrow> Some ([] # ss)
      | _ \<Rightarrow> None)"

definition decode_str_list :: "(string list \<Rightarrow> 'r) \<Rightarrow> json \<Rightarrow> 'r option" where
  "decode_str_list f v =
     (case v of JArr vs \<Rightarrow> map_option f (decode_strings vs) | JNull \<Rightarrow> Some (f []) | _ \<Rightarrow> None)"

end
