(* ===== verification/CacheServer.thy ===== *)
theory CacheServer
  imports Auth Storage GoHttp
begin

text \<open>
  The cache server, \<open>internal/server/server.go\<close>: the Nx remote cache protocol over the three
  interfaces it is given, a storage backend, a token authenticator and a read tracker. The
  tracking goroutine a download starts is a pending task of the server state, run at any later
  moment. The world the interfaces work on is a type parameter.
\<close>

section \<open>State and operations\<close>

record 'w reads_if =
  r_record :: "time \<Rightarrow> string \<Rightarrow> 'w \<Rightarrow> (store_err + unit) \<times> 'w"

record 'w cache_deps =
  cd_backend :: "'w backend_if"
  cd_authn :: "'w authn_if"
  cd_reads :: "'w reads_if"
  cd_sha :: "string \<Rightarrow> string"

record 'w cache_srv =
  cs_world :: 'w
  cs_max :: int
  cs_tasks :: "string list"

definition new_server :: "'w \<Rightarrow> int \<Rightarrow> 'w cache_srv" where
  "new_server w max_entry = \<lparr>cs_world = w, cs_max = max_entry, cs_tasks = []\<rparr>"

definition set_max_entry_bytes :: "int \<Rightarrow> 'w cache_srv \<Rightarrow> 'w cache_srv" where
  "set_max_entry_bytes n s = s\<lparr>cs_max := n\<rparr>"

text \<open>
  A request as the handlers see it: the path value, the \<open>Authorization\<close> header, the body and its
  announced length (-1 when unknown); \<open>cq_now\<close> is the database clock.
\<close>

record cache_req =
  cq_hash :: string
  cq_auth :: string
  cq_body :: reader
  cq_len :: int
  cq_now :: time

definition handle_health :: response where
  "handle_health = (plain_response 200)\<lparr>rs_body := Text ''ok''\<rparr>"

text \<open>The guard both handlers start with: a refusal, or the world to go on with.\<close>

definition guard_request ::
  "'w cache_deps \<Rightarrow> scope \<Rightarrow> cache_req \<Rightarrow> 'w \<Rightarrow> response option \<times> 'w" where
  "guard_request d scope q w =
     (if \<not> valid_hash (cq_hash q) then (Some (http_error ''invalid hash'' 400), w)
      else (case authorize (cd_authn d) (cd_sha d) (cq_now q) (extract_bearer (cq_auth q)) scope w of
              (Inl _, w1) \<Rightarrow> (Some (http_error ''internal error'' 500), w1)
            | (Inr (valid, allowed), w1) \<Rightarrow>
                (if \<not> valid then (Some (http_error ''Missing or invalid authentication token'' 401), w1)
                 else if \<not> allowed then (Some (http_error ''Access forbidden'' 403), w1)
                 else (None, w1))))"

definition stream_response :: "reader \<Rightarrow> int \<Rightarrow> response" where
  "stream_response rd sz =
     (plain_response 200)\<lparr>rs_headers := (''Content-Type'', ''application/octet-stream'') #
          (if sz > 0 then [(''Content-Length'', format_int sz)] else []),
        rs_body := Octets (rd_data rd), rs_cut := rd_err rd\<rparr>"

definition handle_get :: "'w cache_deps \<Rightarrow> cache_req \<Rightarrow> 'w cache_srv \<Rightarrow> response \<times> 'w cache_srv" where
  "handle_get d q s =
     (case guard_request d ScopeRead q (cs_world s) of
        (Some r, w1) \<Rightarrow> (r, s\<lparr>cs_world := w1\<rparr>)
      | (None, w1) \<Rightarrow>
          (case b_get (cd_backend d) (cq_hash q) w1 of
             (Inl ErrNotFound, w2) \<Rightarrow> (http_error ''not found'' 404, s\<lparr>cs_world := w2\<rparr>)
           | (Inl _, w2) \<Rightarrow> (http_error ''internal error'' 500, s\<lparr>cs_world := w2\<rparr>)
           | (Inr (rd, sz), w2) \<Rightarrow>
               (stream_response rd sz, s\<lparr>cs_world := w2, cs_tasks := cs_tasks s @ [cq_hash q]\<rparr>)))"

definition handle_put :: "'w cache_deps \<Rightarrow> cache_req \<Rightarrow> 'w cache_srv \<Rightarrow> response \<times> 'w cache_srv" where
  "handle_put d q s =
     (case guard_request d ScopeWrite q (cs_world s) of
        (Some r, w1) \<Rightarrow> (r, s\<lparr>cs_world := w1\<rparr>)
      | (None, w1) \<Rightarrow>
          (if cq_len q \<le> 0 then (http_error ''Content-Length header is required'' 411, s\<lparr>cs_world := w1\<rparr>)
           else if cq_len q > cs_max s
           then (http_error ''artifact exceeds maximum allowed size'' 413, s\<lparr>cs_world := w1\<rparr>)
           else (case b_put (cd_backend d) (cq_hash q) (cq_body q) (cq_len q) w1 of
                   (Inr _, w2) \<Rightarrow> (plain_response 200, s\<lparr>cs_world := w2\<rparr>)
                 | (Inl ErrAlreadyExists, w2) \<Rightarrow> (http_error ''artifact already exists'' 409, s\<lparr>cs_world := w2\<rparr>)
                 | (Inl _, w2) \<Rightarrow> (http_error ''internal error'' 500, s\<lparr>cs_world := w2\<rparr>))))"

text \<open>The goroutine of a download: one \<open>RecordCacheRead\<close>, its error only logged.\<close>

definition run_read_task :: "'w cache_deps \<Rightarrow> time \<Rightarrow> nat \<Rightarrow> 'w cache_srv \<Rightarrow> 'w cache_srv" where
  "run_read_task d now i s =
     (if i < length (cs_tasks s)
      then s\<lparr>cs_world := snd (r_record (cd_reads d) now (cs_tasks s ! i) (cs_world s)),
             cs_tasks := take i (cs_tasks s) @ drop (Suc i) (cs_tasks s)\<rparr>
      else s)"

section \<open>Routes\<close>

text \<open>
  The patterns of \<open>Handler\<close> over the unescaped segments of a path: a \<open>GET\<close> pattern also takes
  \<open>HEAD\<close>; a path that matches under another method only is answered 405.
\<close>

datatype cache_target = RHealth | RGet string | RPut string | RNoMethod | RNoRoute

definition cache_route :: "string \<Rightarrow> string list \<Rightarrow> cache_target" where
  "cache_route meth segs =
     (let get = (meth = ''GET'' \<or> meth = ''HEAD'') in
      case segs of
        [a] \<Rightarrow> (if a = ''health'' then (if get then RHealth else RNoMethod) else RNoRoute)
      | [a, b, h] \<Rightarrow>
          (if a = ''v1'' \<and> b = ''cache'' \<and> h \<noteq> []
           then (if get then RGet h else if meth = ''PUT'' then RPut h else RNoMethod)
           else RNoRoute)
      | _ \<Rightarrow> RNoRoute)"

text \<open>A response to \<open>HEAD\<close> goes out without its body.\<close>

definition head_only :: "string \<Rightarrow> response \<Rightarrow> response" where
  "head_only meth r = (if meth = ''HEAD'' then r\<lparr>rs_body := NoBody\<rparr> else r)"

definition cache_serve ::
  "'w cache_deps \<Rightarrow> string \<Rightarrow> string list \<Rightarrow> cache_req \<Rightarrow> 'w cache_srv \<Rightarrow> response \<times> 'w cache_srv" where
  "cache_serve d meth segs q s =
     (case cache_route meth segs of
        RHealth \<Rightarrow> (head_only meth handle_health, s)
      | RGet h \<Rightarrow> map_prod (head_only meth) id (handle_get d (q\<lparr>cq_hash := h\<rparr>) s)
      | RPut h \<Rightarrow> handle_put d (q\<lparr>cq_hash := h\<rparr>) s
      | RNoMethod \<Rightarrow> (http_error ''Method Not Allowed'' 405, s)
      | RNoRoute \<Rightarrow> (http_error ''404 page not found'' 404, s))"

section \<open>The worlds the server runs in\<close>

text \<open>The constructor's arguments, and what the bearer token of a request allows.\<close>

definition server_deps ::
  "'w backend_if \<Rightarrow> 'w authn_if \<Rightarrow> 'w reads_if \<Rightarrow> (string \<Rightarrow> string) \<Rightarrow> 'w cache_deps" where
  "server_deps bk ai ri sha = \<lparr>cd_backend = bk, cd_authn = ai, cd_reads = ri, cd_sha = sha\<rparr>"

lemma server_deps_simps [simp]:
  "cd_backend (server_deps bk ai ri sha) = bk" "cd_authn (server_deps bk ai ri sha) = ai"
  "cd_reads (server_deps bk ai ri sha) = ri" "cd_sha (server_deps bk ai ri sha) = sha"
  by (simp_all add: server_deps_def)

definition granted_scope :: "string \<Rightarrow> scope" where
  "granted_scope s = (if s = scope_write then ScopeWrite else ScopeRead)"

definition may_use ::
  "('w \<Rightarrow> string \<Rightarrow> string option) \<Rightarrow> (string \<Rightarrow> string) \<Rightarrow> 'w \<Rightarrow> cache_req \<Rightarrow> scope \<Rightarrow> bool" where
  "may_use grant sha w q scope \<longleftrightarrow>
     (let t = extract_bearer (cq_auth q)
      in t \<noteq> [] \<and> (case grant w (hash_token sha t) of None \<Rightarrow> False | Some s \<Rightarrow> scope \<le> granted_scope s))"

lemma may_use_scopes:
  "may_use grant sha w q ScopeRead \<longleftrightarrow>
     extract_bearer (cq_auth q) \<noteq> [] \<and> grant w (hash_token sha (extract_bearer (cq_auth q))) \<noteq> None"
  "may_use grant sha w q ScopeWrite \<longleftrightarrow>
     extract_bearer (cq_auth q) \<noteq> [] \<and> grant w (hash_token sha (extract_bearer (cq_auth q))) = Some scope_write"
  by (auto simp: may_use_def Let_def granted_scope_def less_eq_scope_def split: option.splits if_splits)

text \<open>
  The three interfaces over one world: what tokens grant and what is stored do not disturb
  each other.
\<close>

locale cache_world = guarded_store bk view ok + token_authenticator ai grant
  for bk :: "'w backend_if" and view :: "'w \<Rightarrow> blob_view" and ok :: "'w \<Rightarrow> bool"
    and ai :: "'w authn_if" and grant :: "'w \<Rightarrow> string \<Rightarrow> string option" +
  fixes ri :: "'w reads_if"
  assumes auth_frame:
      "a_authenticate ai now h w = (res_a, w') \<Longrightarrow> view w' = view w \<and> (ok w \<longrightarrow> ok w')"
    and put_frame: "b_put bk h r sz w = (res_p, w') \<Longrightarrow> grant w' = grant w"
    and get_frame: "b_get bk h w = (res_g, w') \<Longrightarrow> grant w' = grant w"
    and record_frame:
      "r_record ri now h w = (res_r, w') \<Longrightarrow> view w' = view w \<and> (ok w \<longrightarrow> ok w') \<and> grant w' = grant w"
begin

lemma authorize_frame:
  "authorize ai sha now token scope w = (res, w') \<Longrightarrow> view w' = view w \<and> (ok w \<longrightarrow> ok w')"
  by (auto simp: authorize_def dest!: auth_frame split: if_splits prod.splits sum.splits store_err.splits)

lemma guard_cases:
  assumes "guard_request (server_deps bk ai ri sha) scope q w = (r, w1)"
  shows "view w1 = view w \<and> (ok w \<longrightarrow> ok w1) \<and> grant w1 = grant w \<and>
    (r = None \<longrightarrow> valid_hash (cq_hash q) \<and> may_use grant sha w q scope) \<and>
    (\<forall>resp. r = Some resp \<longrightarrow>
       (rs_status resp = 400 \<and> \<not> valid_hash (cq_hash q) \<or>
        valid_hash (cq_hash q) \<and>
        (rs_status resp = 500 \<or> rs_status resp = 401 \<and> \<not> may_use grant sha w q ScopeRead \<or>
         rs_status resp = 403 \<and> may_use grant sha w q ScopeRead \<and> scope = ScopeWrite \<and> \<not> may_use grant sha w q ScopeWrite)))"
proof (cases "valid_hash (cq_hash q)")
  case False
  then show ?thesis using assms by (auto simp: guard_request_def)
next
  case True
  let ?t = "extract_bearer (cq_auth q)"
  obtain res w2 where a: "authorize ai sha (cq_now q) ?t scope w = (res, w2)" by fastforce
  have f: "view w2 = view w \<and> (ok w \<longrightarrow> ok w2) \<and> grant w2 = grant w"
    using authorize_frame [OF a] authorize_keeps [OF a] by simp
  show ?thesis
  proof (cases res)
    case (Inl e)
    then show ?thesis using assms True a f by (auto simp: guard_request_def)
  next
    case (Inr va)
    obtain v al where va: "va = (v, al)" by fastforce
    note d = authorize_decides [OF a [unfolded Inr va]]
    show ?thesis
      using assms True a f Inr va d
      by (cases scope) (auto simp: guard_request_def may_use_scopes split: if_splits)
  qed
qed

text \<open>A download changes nothing that is stored or granted; what it answers is what is stored.\<close>

lemma get_frame_srv:
  assumes "handle_get (server_deps bk ai ri sha) q s = (r, s')" "ok (cs_world s)"
  shows "view (cs_world s') = view (cs_world s) \<and> ok (cs_world s') \<and> grant (cs_world s') = grant (cs_world s)"
proof -
  obtain g w1 where g: "guard_request (server_deps bk ai ri sha) ScopeRead q (cs_world s) = (g, w1)" by fastforce
  note c = guard_cases [OF g]
  show ?thesis
  proof (cases g)
    case (Some x)
    then show ?thesis using assms g c by (auto simp: handle_get_def)
  next
    case None
    obtain res w2 where b: "b_get bk (cq_hash q) w1 = (res, w2)" by fastforce
    have k: "store_key (cq_hash q)" using c None valid_hash_store_key by blast
    have "view w2 = view w1 \<and> ok w2" using get_law [OF _ k b] c assms(2) by blast
    moreover have "cs_world s' = w2"
      using assms(1) g None b by (auto simp: handle_get_def split: sum.splits prod.splits storage_err.splits)
    ultimately show ?thesis using c get_frame [OF b] by simp
  qed
qed

lemma get_answers:
  assumes "handle_get (server_deps bk ai ri sha) q s = (r, s')" "ok (cs_world s)"
  shows "(rs_status r = 200 \<longrightarrow> valid_hash (cq_hash q) \<and> may_use grant sha (cs_world s) q ScopeRead \<and>
      (\<exists>d t. view (cs_world s) (cq_hash q) = Some (d, t) \<and>
         (\<exists>b. rs_body r = Octets b \<and> (if rs_cut r then \<exists>k. b = take k d else b = d)) \<and>
         (d \<noteq> [] \<longrightarrow> (''Content-Length'', format_int (int (length d))) \<in> set (rs_headers r)))) \<and>
    (rs_status r = 404 \<longrightarrow> valid_hash (cq_hash q) \<and> may_use grant sha (cs_world s) q ScopeRead \<and>
      view (cs_world s) (cq_hash q) = None) \<and>
    (rs_status r = 401 \<longrightarrow> \<not> may_use grant sha (cs_world s) q ScopeRead) \<and> rs_status r \<in> {200, 400, 401, 404, 500}"
proof -
  obtain g w1 where g: "guard_request (server_deps bk ai ri sha) ScopeRead q (cs_world s) = (g, w1)" by fastforce
  note c = guard_cases [OF g]
  show ?thesis
  proof (cases g)
    case (Some x)
    then have "r = x" using assms(1) g by (simp add: handle_get_def)
    then show ?thesis using c Some by auto
  next
    case None
    obtain res w2 where b: "b_get bk (cq_hash q) w1 = (res, w2)" by fastforce
    have k: "valid_hash (cq_hash q)" "may_use grant sha (cs_world s) q ScopeRead" "store_key (cq_hash q)"
      using c None valid_hash_store_key by blast+
    have "ok w1" "view w1 = view (cs_world s)" using c assms(2) by blast+
    note l = get_law [OF this(1) k(3) b, unfolded this(2)]
    show ?thesis
    proof (cases res)
      case (Inl e)
      then have "r = (if e = ErrNotFound then http_error ''not found'' 404 else http_error ''internal error'' 500)"
        using assms(1) g None b by (auto simp: handle_get_def split: storage_err.splits)
      then show ?thesis using l k Inl by auto
    next
      case (Inr x)
      then obtain rd n where x: "x = (rd, n)" by fastforce
      obtain d t where d: "view (cs_world s) (cq_hash q) = Some (d, t)" "n = int (length d)"
        "if rd_err rd then \<exists>k. rd_data rd = take k d else rd_data rd = d"
        using l Inr x by auto
      have "r = stream_response rd n" using assms(1) g None b Inr x by (simp add: handle_get_def)
      then show ?thesis using k d by (simp add: stream_response_def)
    qed
  qed
qed

text \<open>What an upload may do to the store.\<close>

lemma put_effect:
  assumes "handle_put (server_deps bk ai ri sha) q s = (r, s')" "ok (cs_world s)"
  shows "ok (cs_world s') \<and> grant (cs_world s') = grant (cs_world s) \<and> cs_max s' = cs_max s \<and>
    (view (cs_world s') = view (cs_world s) \<or>
     valid_hash (cq_hash q) \<and> may_use grant sha (cs_world s) q ScopeWrite \<and> 0 < cq_len q \<and> cq_len q \<le> cs_max s \<and>
     (\<forall>k. k \<noteq> cq_hash q \<or> view (cs_world s) (cq_hash q) \<noteq> None \<longrightarrow> view (cs_world s') k = view (cs_world s) k)) \<and>
    (rs_status r = 200 \<longrightarrow> view (cs_world s) (cq_hash q) = None \<and>
       valid_hash (cq_hash q) \<and> may_use grant sha (cs_world s) q ScopeWrite \<and> 0 < cq_len q \<and> cq_len q \<le> cs_max s \<and>
       (cq_len q \<le> int (length (rd_data (cq_body q))) \<longrightarrow>
         (\<exists>t. view (cs_world s') = (view (cs_world s))(cq_hash q \<mapsto> (take (nat (cq_len q)) (rd_data (cq_body q)), t))))) \<and>
    (rs_status r = 409 \<longrightarrow> view (cs_world s) (cq_hash q) \<noteq> None) \<and>
    (rs_status r \<in> {400, 401, 403, 411, 413, 409} \<longrightarrow> view (cs_world s') = view (cs_world s)) \<and>
    rs_status r \<in> {200, 400, 401, 403, 409, 411, 413, 500}"
proof -
  obtain g w1 where g: "guard_request (server_deps bk ai ri sha) ScopeWrite q (cs_world s) = (g, w1)" by fastforce
  note c = guard_cases [OF g]
  show ?thesis
  proof (cases g)
    case (Some x)
    then have "r = x" "s' = s\<lparr>cs_world := w1\<rparr>" using assms(1) g by (simp_all add: handle_put_def)
    then show ?thesis using c Some assms(2) by auto
  next
    case None
    have k: "valid_hash (cq_hash q)" "may_use grant sha (cs_world s) q ScopeWrite" "store_key (cq_hash q)"
      using c None valid_hash_store_key by blast+
    have w1: "ok w1" "view w1 = view (cs_world s)" "grant w1 = grant (cs_world s)" using c assms(2) by blast+
    show ?thesis
    proof (cases "0 < cq_len q \<and> cq_len q \<le> cs_max s")
      case False
      then have "rs_status r \<in> {411, 413}" "s' = s\<lparr>cs_world := w1\<rparr>"
        using assms(1) g None by (auto simp: handle_put_def split: if_splits)
      then show ?thesis using w1 by auto
    next
      case True
      obtain res w2 where b: "b_put bk (cq_hash q) (cq_body q) (cq_len q) w1 = (res, w2)" by fastforce
      note l = put_guard [OF w1(1) k(3) b, unfolded w1(2)]
      have s': "s' = s\<lparr>cs_world := w2\<rparr>"
        "rs_status r = (case res of Inr _ \<Rightarrow> 200 | Inl e \<Rightarrow> if e = ErrAlreadyExists then 409 else 500)"
        using assms(1) g None b True by (auto simp: handle_put_def split: sum.splits storage_err.splits)
      have none: "view (cs_world s) (cq_hash q) = None" if "res = Inr u" for u
        using put_present [OF w1(1) k(3), of "cq_body q" "cq_len q"] b that w1(2) by (metis Inl_Inr_False fst_conv)
      have "view w2 = view (cs_world s)" if "res = Inl ErrAlreadyExists"
        using l that by (auto simp: fun_eq_iff)
      then show ?thesis
        using l s' k True none w1(3) put_frame [OF b] by (cases res) auto
    qed
  qed
qed

end

section \<open>Runs of the server\<close>

text \<open>Any requests, and the pending tasks in any order between them.\<close>

inductive cache_step :: "'w cache_deps \<Rightarrow> 'w cache_srv \<Rightarrow> 'w cache_srv \<Rightarrow> bool" for d where
  step_serve: "cache_step d s (snd (cache_serve d meth segs q s))"
| step_task: "cache_step d s (run_read_task d now i s)"

inductive cache_steps :: "'w cache_deps \<Rightarrow> 'w cache_srv \<Rightarrow> 'w cache_srv \<Rightarrow> bool" for d s where
  run_none: "cache_steps d s s"
| run_step: "cache_steps d s s' \<Longrightarrow> cache_step d s' s'' \<Longrightarrow> cache_steps d s s''"

context cache_world
begin

lemma serve_keeps:
  assumes "cache_serve (server_deps bk ai ri sha) meth segs q s = (r, s')" "ok (cs_world s)"
  shows "ok (cs_world s') \<and> grant (cs_world s') = grant (cs_world s) \<and>
    (\<forall>k a. view (cs_world s) k = Some a \<longrightarrow> view (cs_world s') k = Some a)"
proof (cases "cache_route meth segs")
  case (RGet h)
  obtain r1 s1 where g: "handle_get (server_deps bk ai ri sha) (q\<lparr>cq_hash := h\<rparr>) s = (r1, s1)" by fastforce
  then have "s' = s1" using assms(1) RGet by (simp add: cache_serve_def)
  then show ?thesis using get_frame_srv [OF g assms(2)] by metis
next
  case (RPut h)
  then have p: "handle_put (server_deps bk ai ri sha) (q\<lparr>cq_hash := h\<rparr>) s = (r, s')"
    using assms(1) by (simp add: cache_serve_def)
  note e = put_effect [OF p assms(2)]
  have "view (cs_world s') k = view (cs_world s) k" if "view (cs_world s) k \<noteq> None" for k
    using conjunct1 [OF conjunct2 [OF conjunct2 [OF conjunct2 [OF e]]]] that
    by (metis cache_req.select_convs(1) cache_req.surjective cache_req.update_convs(1))
  then show ?thesis using conjunct1 [OF e] conjunct1 [OF conjunct2 [OF e]] by (metis option.distinct(1))
qed (use assms in \<open>auto simp: cache_serve_def\<close>)

lemma task_keeps:
  assumes "ok (cs_world s)"
  shows "ok (cs_world (run_read_task (server_deps bk ai ri sha) now i s)) \<and>
    view (cs_world (run_read_task (server_deps bk ai ri sha) now i s)) = view (cs_world s) \<and>
    grant (cs_world (run_read_task (server_deps bk ai ri sha) now i s)) = grant (cs_world s)"
proof -
  obtain res w' where "r_record ri now (cs_tasks s ! i) (cs_world s) = (res, w')" by fastforce
  moreover from record_frame [OF this]
  have "view w' = view (cs_world s)" "ok w'" "grant w' = grant (cs_world s)" using assms by blast+
  ultimately show ?thesis using assms by (simp add: run_read_task_def)
qed

lemma steps_keep:
  assumes "cache_steps (server_deps bk ai ri sha) s s'" "ok (cs_world s)"
  shows "ok (cs_world s') \<and> grant (cs_world s') = grant (cs_world s) \<and>
    (\<forall>k a. view (cs_world s) k = Some a \<longrightarrow> view (cs_world s') k = Some a)"
  using assms(1)
proof (induction rule: cache_steps.induct)
  case run_none
  then show ?case using assms(2) by simp
next
  case (run_step s1 s2)
  from run_step.hyps(2) show ?case
  proof cases
    case (step_serve meth segs q)
    then show ?thesis
      using serve_keeps [of sha meth segs q s1 _ s2] run_step.IH by (metis prod.collapse)
  next
    case (step_task now i)
    then show ?thesis using task_keeps [of s1 sha now i] run_step.IH by simp
  qed
qed

text \<open>An artifact that was uploaded is what every later download delivers.\<close>

lemma put_then_get:
  assumes "ok (cs_world s)" "handle_put (server_deps bk ai ri sha) q s = (r, s1)" "rs_status r = 200"
    and "cq_len q \<le> int (length (rd_data (cq_body q)))"
    and "cache_steps (server_deps bk ai ri sha) s1 s2"
    and "handle_get (server_deps bk ai ri sha) q' s2 = (r', s3)" "cq_hash q' = cq_hash q"
    and "may_use grant sha (cs_world s) q' ScopeRead"
  shows "rs_status r' \<in> {200, 500} \<and>
    (rs_status r' = 200 \<and> \<not> rs_cut r' \<longrightarrow>
       rs_body r' = Octets (take (nat (cq_len q)) (rd_data (cq_body q))))"
proof -
  note p = put_effect [OF assms(2,1)]
  then obtain t where t: "view (cs_world s1) (cq_hash q) = Some (take (nat (cq_len q)) (rd_data (cq_body q)), t)"
    using assms(3,4) by auto
  have ok1: "ok (cs_world s1)" and g1: "grant (cs_world s1) = grant (cs_world s)" using p by blast+
  note k = steps_keep [OF assms(5) ok1]
  have v2: "view (cs_world s2) (cq_hash q') = Some (take (nat (cq_len q)) (rd_data (cq_body q)), t)"
    using k t assms(7) by simp
  have may: "may_use grant sha (cs_world s2) q' ScopeRead"
    using assms(8) k g1 by (simp add: may_use_def)
  have ok2: "ok (cs_world s2)" using k by blast
  note a = get_answers [OF assms(6) ok2]
  have vh: "valid_hash (cq_hash q')" using p assms(3,7) by auto
  have "rs_status r' \<noteq> 400"
  proof -
    obtain g w1 where g: "guard_request (server_deps bk ai ri sha) ScopeRead q' (cs_world s2) = (g, w1)" by fastforce
    show ?thesis
    proof (cases g)
      case (Some x)
      then have "r' = x" using assms(6) g by (simp add: handle_get_def)
      then show ?thesis using guard_cases [OF g] Some vh by auto
    next
      case None
      then show ?thesis using assms(6) g
        by (auto simp: handle_get_def stream_response_def split: prod.splits sum.splits storage_err.splits)
    qed
  qed
  then have "rs_status r' \<in> {200, 500}" using a v2 may by auto
  moreover have "rs_body r' = Octets (take (nat (cq_len q)) (rd_data (cq_body q)))"
    if "rs_status r' = 200 \<and> \<not> rs_cut r'"
    using conjunct1 [OF a] that v2 by auto
  ultimately show ?thesis by blast
qed

end

end
