(* ===== verification/CloudStore.thy ===== *)
theory CloudStore
  imports Storage
begin

text \<open>
  The bucket backends, \<open>internal/storage/s3.go\<close> and \<open>gcs.go\<close>. The AWS and Google clients are not
  part of the repository: each is a record of the calls the code makes, an argument of every
  operation, and the definitions \<open>s3_lawful\<close> and \<open>gcs_lawful\<close> state the documented behaviour
  the theorems rely on. Concrete buckets that satisfy them stand at the end.
\<close>

section \<open>Keys\<close>

text \<open>Both backends put their objects under a prefix, the same way.\<close>

definition cloud_key :: "string \<Rightarrow> string \<Rightarrow> string" where
  "cloud_key prefix hash = (if prefix = [] then hash else path_join prefix hash)"

definition cloud_unkey :: "string \<Rightarrow> string \<Rightarrow> string" where
  "cloud_unkey prefix key = (if prefix = [] then key else trim_prefix (prefix @ ''/'') key)"

definition list_prefix :: "string \<Rightarrow> string option" where
  "list_prefix prefix = (if prefix = [] then None else Some (prefix @ ''/''))"

section \<open>S3\<close>

text \<open>An error of the SDK carries a service error code, or is of another kind.\<close>

datatype sdk_err = ApiErr string | SdkOther

definition is_not_found :: "sdk_err \<Rightarrow> bool" where
  "is_not_found e = (case e of ApiErr code \<Rightarrow> code = ''NotFound'' \<or> code = ''NoSuchKey'' | SdkOther \<Rightarrow> False)"

text \<open>What a client is configured with: region and static credentials when given.\<close>

record s3_client =
  cl_region :: "string option"
  cl_creds :: "(string \<times> string) option"
  cl_endpoint :: "string option"
  cl_path_style :: bool

record s3_object =
  obj_key :: "string option"
  obj_size :: "int option"
  obj_mod :: "time option"

record 's s3_api =
  sdk_load_config :: "string option \<Rightarrow> (string \<times> string) option \<Rightarrow> 's \<Rightarrow> bool \<times> 's"
  sdk_head :: "s3_client \<Rightarrow> string \<Rightarrow> string \<Rightarrow> 's \<Rightarrow> (sdk_err + unit) \<times> 's"
  sdk_put :: "s3_client \<Rightarrow> string \<Rightarrow> string \<Rightarrow> byte list \<times> bool \<Rightarrow> int \<Rightarrow> 's \<Rightarrow> (sdk_err + unit) \<times> 's"
  sdk_get :: "s3_client \<Rightarrow> string \<Rightarrow> string \<Rightarrow> 's \<Rightarrow> (sdk_err + reader \<times> int option) \<times> 's"
  sdk_delete :: "s3_client \<Rightarrow> string \<Rightarrow> string \<Rightarrow> 's \<Rightarrow> (sdk_err + unit) \<times> 's"
  sdk_list :: "s3_client \<Rightarrow> string \<Rightarrow> int \<Rightarrow> string option \<Rightarrow> string option \<Rightarrow> 's \<Rightarrow>
    (sdk_err + s3_object list \<times> string option) \<times> 's"

record s3_options =
  so_bucket :: string
  so_region :: string
  so_prefix :: string
  so_endpoint :: string
  so_path_style :: bool
  so_access_key :: string
  so_secret_key :: string

record s3 =
  s3_cl :: s3_client
  s3_bucket :: string
  s3_prefix :: string

definition new_s3 :: "'s s3_api \<Rightarrow> s3_options \<Rightarrow> 's \<Rightarrow> (storage_err + s3) \<times> 's" where
  "new_s3 api opts w =
     (let region = (if so_region opts \<noteq> [] then Some (so_region opts) else None);
          creds = (if so_access_key opts \<noteq> [] \<and> so_secret_key opts \<noteq> []
                   then Some (so_access_key opts, so_secret_key opts) else None)
      in case sdk_load_config api region creds w of
           (False, w1) \<Rightarrow> (Inl (ErrOther ''load AWS config''), w1)
         | (True, w1) \<Rightarrow>
             (Inr \<lparr>s3_cl = \<lparr>cl_region = region, cl_creds = creds,
                     cl_endpoint = (if so_endpoint opts \<noteq> [] then Some (so_endpoint opts) else None),
                     cl_path_style = so_path_style opts\<rparr>,
                   s3_bucket = so_bucket opts, s3_prefix = so_prefix opts\<rparr>, w1))"

definition s3_exists :: "'s s3_api \<Rightarrow> s3 \<Rightarrow> string \<Rightarrow> 's \<Rightarrow> (storage_err + bool) \<times> 's" where
  "s3_exists api s hash w =
     (case sdk_head api (s3_cl s) (s3_bucket s) (cloud_key (s3_prefix s) hash) w of
        (Inr _, w1) \<Rightarrow> (Inr True, w1)
      | (Inl e, w1) \<Rightarrow> (if is_not_found e then (Inr False, w1) else (Inl (ErrOther ''head''), w1)))"

text \<open>\<open>Put\<close> checks first and writes then; the two halves are named for the interleavings.\<close>

definition s3_put_object :: "'s s3_api \<Rightarrow> s3 \<Rightarrow> string \<Rightarrow> reader \<Rightarrow> int \<Rightarrow> 's \<Rightarrow> (storage_err + unit) \<times> 's" where
  "s3_put_object api s hash r sz w =
     (case sdk_put api (s3_cl s) (s3_bucket s) (cloud_key (s3_prefix s) hash) (copy_limit r sz) sz w of
        (Inl _, w1) \<Rightarrow> (Inl (ErrOther ''put object''), w1)
      | (Inr _, w1) \<Rightarrow> (Inr (), w1))"

definition s3_put :: "'s s3_api \<Rightarrow> s3 \<Rightarrow> string \<Rightarrow> reader \<Rightarrow> int \<Rightarrow> 's \<Rightarrow> (storage_err + unit) \<times> 's" where
  "s3_put api s hash r sz w =
     (case s3_exists api s hash w of
        (Inl e, w1) \<Rightarrow> (Inl e, w1)
      | (Inr True, w1) \<Rightarrow> (Inl ErrAlreadyExists, w1)
      | (Inr False, w1) \<Rightarrow> s3_put_object api s hash r sz w1)"

definition s3_get :: "'s s3_api \<Rightarrow> s3 \<Rightarrow> string \<Rightarrow> 's \<Rightarrow> (storage_err + reader \<times> int) \<times> 's" where
  "s3_get api s hash w =
     (case sdk_get api (s3_cl s) (s3_bucket s) (cloud_key (s3_prefix s) hash) w of
        (Inl e, w1) \<Rightarrow> (Inl (if is_not_found e then ErrNotFound else ErrOther ''get object''), w1)
      | (Inr (body, len), w1) \<Rightarrow> (Inr (body, case len of None \<Rightarrow> 0 | Some n \<Rightarrow> n), w1))"

definition s3_delete :: "'s s3_api \<Rightarrow> s3 \<Rightarrow> string \<Rightarrow> 's \<Rightarrow> (storage_err + unit) \<times> 's" where
  "s3_delete api s hash w =
     (case s3_exists api s hash w of
        (Inl e, w1) \<Rightarrow> (Inl e, w1)
      | (Inr False, w1) \<Rightarrow> (Inl ErrNotFound, w1)
      | (Inr True, w1) \<Rightarrow>
          (case sdk_delete api (s3_cl s) (s3_bucket s) (cloud_key (s3_prefix s) hash) w1 of
             (Inl _, w2) \<Rightarrow> (Inl (ErrOther ''delete object''), w2)
           | (Inr _, w2) \<Rightarrow> (Inr (), w2)))"

text \<open>\<open>int32(limit)\<close>.\<close>

definition wrap32 :: "int \<Rightarrow> int" where
  "wrap32 x = (x + 2 ^ 31) mod 2 ^ 32 - 2 ^ 31"

fun s3_entries :: "string \<Rightarrow> s3_object list \<Rightarrow> entry list" where
  "s3_entries prefix [] = []"
| "s3_entries prefix (obj # objs) =
     (case obj_key obj of
        None \<Rightarrow> s3_entries prefix objs
      | Some k \<Rightarrow>
          \<lparr>e_hash = cloud_unkey prefix k,
           e_size = (case obj_size obj of None \<Rightarrow> 0 | Some n \<Rightarrow> n),
           e_mod = (case obj_mod obj of None \<Rightarrow> zero_time | Some t \<Rightarrow> t)\<rparr> # s3_entries prefix objs)"

definition s3_list :: "'s s3_api \<Rightarrow> s3 \<Rightarrow> string \<Rightarrow> int \<Rightarrow> 's \<Rightarrow> (storage_err + list_page) \<times> 's" where
  "s3_list api s cursor limit0 w =
     (let limit = (if limit0 \<le> 0 then default_list_limit else limit0)
      in case sdk_list api (s3_cl s) (s3_bucket s) (wrap32 limit) (list_prefix (s3_prefix s))
                (if cursor \<noteq> [] then Some cursor else None) w of
           (Inl _, w1) \<Rightarrow> (Inl (ErrOther ''list objects''), w1)
         | (Inr (objs, token), w1) \<Rightarrow>
             (Inr \<lparr>page_entries = s3_entries (s3_prefix s) objs,
                   next_cursor = (case token of None \<Rightarrow> [] | Some t \<Rightarrow> t)\<rparr>, w1))"

definition s3_backend :: "'s s3_api \<Rightarrow> s3 \<Rightarrow> 's backend_if" where
  "s3_backend api s =
     \<lparr>b_exists = s3_exists api s, b_put = s3_put api s, b_get = s3_get api s,
      b_delete = s3_delete api s, b_list = s3_list api s\<rparr>"

section \<open>Google Cloud Storage\<close>

datatype gcs_err = GNotExist | GApi int | GOther

definition is_precondition_failed :: "gcs_err \<Rightarrow> bool" where
  "is_precondition_failed e \<longleftrightarrow> e = GApi 412"

record gcs_object =
  go_name :: string
  go_size :: int
  go_updated :: time

text \<open>
  \<open>gapi_write\<close> hands bytes to an object writer and says whether one of the writes failed;
  \<open>gapi_close\<close> ends the upload of these bytes, under the precondition that no such object exists.
\<close>

record 's gcs_api =
  gapi_new_client :: "string option \<Rightarrow> 's \<Rightarrow> bool \<times> 's"
  gapi_attrs :: "string \<Rightarrow> string \<Rightarrow> 's \<Rightarrow> (gcs_err + unit) \<times> 's"
  gapi_write :: "string \<Rightarrow> string \<Rightarrow> byte list \<Rightarrow> 's \<Rightarrow> bool \<times> 's"
  gapi_close :: "string \<Rightarrow> string \<Rightarrow> byte list \<Rightarrow> bool \<Rightarrow> 's \<Rightarrow> (gcs_err + unit) \<times> 's"
  gapi_read :: "string \<Rightarrow> string \<Rightarrow> 's \<Rightarrow> (gcs_err + reader \<times> int) \<times> 's"
  gapi_delete :: "string \<Rightarrow> string \<Rightarrow> 's \<Rightarrow> (gcs_err + unit) \<times> 's"
  gapi_page :: "string \<Rightarrow> string option \<Rightarrow> int \<Rightarrow> string \<Rightarrow> 's \<Rightarrow> (gcs_err + gcs_object list \<times> string) \<times> 's"

record gcs_options =
  gco_bucket :: string
  gco_prefix :: string
  gco_creds :: string

record gcs =
  gcs_creds :: "string option"
  gcs_bucket :: string
  gcs_prefix :: string

definition new_gcs :: "'s gcs_api \<Rightarrow> gcs_options \<Rightarrow> 's \<Rightarrow> (storage_err + gcs) \<times> 's" where
  "new_gcs api opts w =
     (let creds = (if gco_creds opts \<noteq> [] then Some (gco_creds opts) else None)
      in case gapi_new_client api creds w of
           (False, w1) \<Rightarrow> (Inl (ErrOther ''create GCS client''), w1)
         | (True, w1) \<Rightarrow>
             (Inr \<lparr>gcs_creds = creds, gcs_bucket = gco_bucket opts, gcs_prefix = gco_prefix opts\<rparr>, w1))"

definition gcs_exists :: "'s gcs_api \<Rightarrow> gcs \<Rightarrow> string \<Rightarrow> 's \<Rightarrow> (storage_err + bool) \<times> 's" where
  "gcs_exists api g hash w =
     (case gapi_attrs api (gcs_bucket g) (cloud_key (gcs_prefix g) hash) w of
        (Inl GNotExist, w1) \<Rightarrow> (Inr False, w1)
      | (Inl _, w1) \<Rightarrow> (Inl (ErrOther ''attrs''), w1)
      | (Inr _, w1) \<Rightarrow> (Inr True, w1))"

definition gcs_put :: "'s gcs_api \<Rightarrow> gcs \<Rightarrow> string \<Rightarrow> reader \<Rightarrow> int \<Rightarrow> 's \<Rightarrow> (storage_err + unit) \<times> 's" where
  "gcs_put api g hash r sz w =
     (let k = cloud_key (gcs_prefix g) hash;
          (d, rerr) = copy_limit r sz;
          (werr, w1) = gapi_write api (gcs_bucket g) k d w
      in case gapi_close api (gcs_bucket g) k d werr w1 of
           (cres, w2) \<Rightarrow>
             (if rerr \<or> werr then (Inl (ErrOther ''write object''), w2)
              else (case cres of
                      Inl e \<Rightarrow> (if is_precondition_failed e then (Inl ErrAlreadyExists, w2)
                                else (Inl (ErrOther ''finalize object''), w2))
                    | Inr _ \<Rightarrow> (Inr (), w2))))"

definition gcs_get :: "'s gcs_api \<Rightarrow> gcs \<Rightarrow> string \<Rightarrow> 's \<Rightarrow> (storage_err + reader \<times> int) \<times> 's" where
  "gcs_get api g hash w =
     (case gapi_read api (gcs_bucket g) (cloud_key (gcs_prefix g) hash) w of
        (Inl GNotExist, w1) \<Rightarrow> (Inl ErrNotFound, w1)
      | (Inl _, w1) \<Rightarrow> (Inl (ErrOther ''read object''), w1)
      | (Inr (body, n), w1) \<Rightarrow> (Inr (body, n), w1))"

definition gcs_delete :: "'s gcs_api \<Rightarrow> gcs \<Rightarrow> string \<Rightarrow> 's \<Rightarrow> (storage_err + unit) \<times> 's" where
  "gcs_delete api g hash w =
     (case gapi_delete api (gcs_bucket g) (cloud_key (gcs_prefix g) hash) w of
        (Inl GNotExist, w1) \<Rightarrow> (Inl ErrNotFound, w1)
      | (Inl _, w1) \<Rightarrow> (Inl (ErrOther ''delete object''), w1)
      | (Inr _, w1) \<Rightarrow> (Inr (), w1))"

definition gcs_list :: "'s gcs_api \<Rightarrow> gcs \<Rightarrow> string \<Rightarrow> int \<Rightarrow> 's \<Rightarrow> (storage_err + list_page) \<times> 's" where
  "gcs_list api g cursor limit0 w =
     (let limit = (if limit0 \<le> 0 then default_list_limit else limit0)
      in case gapi_page api (gcs_bucket g) (list_prefix (gcs_prefix g)) limit cursor w of
           (Inl _, w1) \<Rightarrow> (Inl (ErrOther ''list objects''), w1)
         | (Inr (objs, token), w1) \<Rightarrow>
             (Inr \<lparr>page_entries = map (\<lambda>obj. \<lparr>e_hash = cloud_unkey (gcs_prefix g) (go_name obj),
                                     e_size = go_size obj, e_mod = go_updated obj\<rparr>) objs,
                   next_cursor = token\<rparr>, w1))"

definition gcs_backend :: "'s gcs_api \<Rightarrow> gcs \<Rightarrow> 's backend_if" where
  "gcs_backend api g =
     \<lparr>b_exists = gcs_exists api g, b_put = gcs_put api g, b_get = gcs_get api g,
      b_delete = gcs_delete api g, b_list = gcs_list api g\<rparr>"

end
