(* ===== verification/CloudContract.thy ===== *)
theory CloudContract
  imports CloudStore
begin

text \<open>
  What the bucket backends promise. \<open>s3_lawful\<close> and \<open>gcs_lawful\<close> state the documented behaviour
  of the services (strong consistency, all-or-nothing uploads, the service's own precondition);
  under them each backend, used by one client at a time, meets the contract of the storage
  interface, and the listing under a clean prefix shows each key once. The last section has the
  interleaving of two S3 uploads.
\<close>

section \<open>Keys and prefixes\<close>

lemma cloud_key_inj:
  "store_key h \<Longrightarrow> store_key k \<Longrightarrow> cloud_key p h = cloud_key p k \<longleftrightarrow> h = k"
  using path_join_inj by (auto simp: cloud_key_def store_key_plain)

definition good_prefix :: "string \<Rightarrow> bool" where
  "good_prefix p \<longleftrightarrow> p = [] \<or> clean_prefix p"

lemma cloud_key_good:
  "good_prefix p \<Longrightarrow> plain_name h \<Longrightarrow> cloud_key p h = (if p = [] then h else p @ CHR ''/'' # h)"
  by (auto simp: good_prefix_def cloud_key_def path_join_clean dest: clean_prefix_nonempty)

lemma cloud_unkey_key:
  assumes "good_prefix p" "plain_name h"
  shows "cloud_unkey p (cloud_key p h) = h"
  using cloud_key_good [OF assms] trim_prefix_append [of "p @ ''/''" h]
  by (simp add: cloud_unkey_def)

text \<open>A prefix ending in a slash: no key lies under the prefix the listing asks for.\<close>

lemma path_join_render:
  assumes "d \<noteq> []" "plain_name n"
  shows "path_join d n = path_render (fst (path_norm d), snd (path_norm d) @ [n])"
  using assms path_norm_child [OF assms] by (simp add: path_join_def path_clean_def)

lemma clean_elems_trailing: "clean_elems rooted st (es @ [[]]) = clean_elems rooted st es"
  by (induction rooted st es rule: clean_elems.induct) (auto split: list.splits)

lemma path_norm_trailing: "q \<noteq> [] \<Longrightarrow> path_norm (q @ ''/'') = path_norm q"
  using split_slash_append [of q "[]"] by (simp add: path_norm_def Let_def clean_elems_trailing)

lemma slash_prefix_key:
  assumes "clean_prefix q" "plain_name h"
  shows "cloud_key (q @ ''/'') h = q @ CHR ''/'' # h"
proof -
  have q: "q \<noteq> []" using assms(1) by (rule clean_prefix_nonempty)
  then have "path_join (q @ ''/'') h = path_join q h"
    using path_join_render [of "q @ ''/''" h] path_join_render [of q h] assms(2)
    by (simp add: path_norm_trailing)
  then show ?thesis using path_join_clean [OF assms] by (simp add: cloud_key_def)
qed

lemma slash_prefix_hidden:
  assumes "clean_prefix q" "plain_name h"
  shows "\<not> has_prefix (the (list_prefix (q @ ''/''))) (cloud_key (q @ ''/'') h)"
  using slash_prefix_key [OF assms] assms(2)
  by (cases h) (auto simp: list_prefix_def has_prefix_def plain_name_def)

section \<open>The S3 service\<close>

type_synonym 's objects = "'s \<Rightarrow> string \<rightharpoonup> byte list \<times> time"

text \<open>A complete request body: all the announced bytes, no read error.\<close>

definition full_body :: "byte list \<times> bool \<Rightarrow> int \<Rightarrow> bool" where
  "full_body b n \<longleftrightarrow> int (length (fst b)) = n \<and> \<not> snd b"

text \<open>
  Documented behaviour of one bucket seen through one client. An upload is atomic and refuses
  a body that does not match its length; a request that answers with an error may have been
  carried out.
\<close>

definition head_lawful :: "'s s3_api \<Rightarrow> s3_client \<Rightarrow> string \<Rightarrow> 's objects \<Rightarrow> bool" where
  "head_lawful api c b objs \<longleftrightarrow>
     (\<forall>k w res w'. sdk_head api c b k w = (res, w') \<longrightarrow>
        objs w' = objs w \<and>
        (case res of Inr _ \<Rightarrow> objs w k \<noteq> None | Inl e \<Rightarrow> is_not_found e \<longrightarrow> objs w k = None))"

definition put_lawful :: "'s s3_api \<Rightarrow> s3_client \<Rightarrow> string \<Rightarrow> 's objects \<Rightarrow> bool" where
  "put_lawful api c b objs \<longleftrightarrow>
     (\<forall>k body n w res w'. sdk_put api c b k body n w = (res, w') \<longrightarrow>
        (objs w' = objs w \<and> (\<exists>e. res = Inl e)) \<or>
        (full_body body n \<and> (\<exists>t. objs w' = (objs w)(k \<mapsto> (fst body, t)))))"

definition get_lawful :: "'s s3_api \<Rightarrow> s3_client \<Rightarrow> string \<Rightarrow> 's objects \<Rightarrow> bool" where
  "get_lawful api c b objs \<longleftrightarrow>
     (\<forall>k w res w'. sdk_get api c b k w = (res, w') \<longrightarrow>
        objs w' = objs w \<and>
        (case res of
           Inl e \<Rightarrow> is_not_found e \<longrightarrow> objs w k = None
         | Inr (r, len) \<Rightarrow> (\<exists>d t. objs w k = Some (d, t) \<and> len = Some (int (length d)) \<and>
             (if rd_err r then \<exists>j. rd_data r = take j d else rd_data r = d))))"

definition delete_lawful :: "'s s3_api \<Rightarrow> s3_client \<Rightarrow> string \<Rightarrow> 's objects \<Rightarrow> bool" where
  "delete_lawful api c b objs \<longleftrightarrow>
     (\<forall>k w res w'. sdk_delete api c b k w = (res, w') \<longrightarrow>
        objs w' = (objs w)(k := None) \<or> (objs w' = objs w \<and> (\<exists>e. res = Inl e)))"

definition s3_lawful :: "'s s3_api \<Rightarrow> s3 \<Rightarrow> 's objects \<Rightarrow> bool" where
  "s3_lawful api s objs \<longleftrightarrow>
     head_lawful api (s3_cl s) (s3_bucket s) objs \<and> put_lawful api (s3_cl s) (s3_bucket s) objs \<and>
     get_lawful api (s3_cl s) (s3_bucket s) objs \<and> delete_lawful api (s3_cl s) (s3_bucket s) objs"

text \<open>The store a bucket is, under a prefix.\<close>

definition cloud_view :: "string \<Rightarrow> 's objects \<Rightarrow> 's \<Rightarrow> blob_view" where
  "cloud_view p objs w h = (if store_key h then objs w (cloud_key p h) else None)"

definition cloud_ok :: "'s objects \<Rightarrow> 's \<Rightarrow> bool" where
  "cloud_ok objs w \<longleftrightarrow> finite (dom (objs w))"

lemma cloud_view_key: "store_key h \<Longrightarrow> cloud_view p objs w h = objs w (cloud_key p h)"
  by (simp add: cloud_view_def)

lemma cloud_view_upd:
  assumes "store_key h" "objs w' = (objs w)(cloud_key p h := x)"
  shows "cloud_view p objs w' = (cloud_view p objs w)(h := x)"
  using assms by (auto simp: cloud_view_def fun_eq_iff cloud_key_inj)

lemma cloud_view_cong: "objs w' = objs w \<Longrightarrow> cloud_view p objs w' = cloud_view p objs w"
  by (simp add: cloud_view_def fun_eq_iff)

lemma cloud_view_finite:
  assumes "cloud_ok objs w"
  shows "finite (dom (cloud_view p objs w))"
proof (rule finite_imageD)
  show "inj_on (cloud_key p) (dom (cloud_view p objs w))"
    by (auto simp: inj_on_def cloud_view_def cloud_key_inj split: if_splits)
  show "finite (cloud_key p ` dom (cloud_view p objs w))"
    by (rule finite_subset [OF _ assms [unfolded cloud_ok_def]])
      (auto simp: cloud_view_def split: if_splits)
qed

text \<open>What an upload body is, once it is complete.\<close>

lemma full_body_limit:
  assumes "full_body (copy_limit r sz) sz"
  shows "0 \<le> sz" "sz \<le> int (length (rd_data r))" "fst (copy_limit r sz) = take (nat sz) (rd_data r)"
  using assms by (auto simp: full_body_def copy_limit_def split: if_splits)

lemma s3_exists_law:
  assumes "s3_lawful api s objs" "store_key h" "s3_exists api s h w = (res, w')"
  shows "objs w' = objs w \<and> (\<forall>b. res = Inr b \<longrightarrow> b = (cloud_view (s3_prefix s) objs w h \<noteq> None))"
proof -
  obtain r1 w1 where h: "sdk_head api (s3_cl s) (s3_bucket s) (cloud_key (s3_prefix s) h) w = (r1, w1)"
    by fastforce
  with assms(1) have "objs w1 = objs w" "case r1 of Inr _ \<Rightarrow> objs w (cloud_key (s3_prefix s) h) \<noteq> None
      | Inl e \<Rightarrow> is_not_found e \<longrightarrow> objs w (cloud_key (s3_prefix s) h) = None"
    by (auto simp: s3_lawful_def head_lawful_def)
  then show ?thesis
    using assms(2,3) h by (auto simp: s3_exists_def cloud_view_key split: sum.splits if_splits)
qed

lemma s3_put_object_law:
  assumes "s3_lawful api s objs" "s3_put_object api s h r sz w = (res, w')"
  shows "(objs w' = objs w \<and> res = Inl (ErrOther ''put object'')) \<or>
    (0 \<le> sz \<and> sz \<le> int (length (rd_data r)) \<and> res \<in> {Inr (), Inl (ErrOther ''put object'')} \<and>
     (\<exists>t. objs w' = (objs w)(cloud_key (s3_prefix s) h \<mapsto> (take (nat sz) (rd_data r), t))))"
proof -
  let ?k = "cloud_key (s3_prefix s) h"
  obtain r1 w1 where p: "sdk_put api (s3_cl s) (s3_bucket s) ?k (copy_limit r sz) sz w = (r1, w1)"
    by fastforce
  have "put_lawful api (s3_cl s) (s3_bucket s) objs" using assms(1) by (simp add: s3_lawful_def)
  from this [unfolded put_lawful_def, rule_format, OF p]
  have "(objs w1 = objs w \<and> (\<exists>e. r1 = Inl e)) \<or> (full_body (copy_limit r sz) sz \<and>
      (\<exists>t. objs w1 = (objs w)(?k \<mapsto> (fst (copy_limit r sz), t))))" .
  moreover have "w' = w1" "res = (case r1 of Inl _ \<Rightarrow> Inl (ErrOther ''put object'') | Inr _ \<Rightarrow> Inr ())"
    using assms(2) p by (auto simp: s3_put_object_def split: sum.splits)
  ultimately show ?thesis
    using full_body_limit [of r sz] by (auto split: sum.splits)
qed

lemma s3_put_law:
  assumes "s3_lawful api s objs" "store_key h" "s3_put api s h r sz w = (res, w')"
  defines "v \<equiv> cloud_view (s3_prefix s) objs"
  shows "(v w' = v w \<and> (\<forall>u. res \<noteq> Inr u) \<or>
          v w h = None \<and> 0 \<le> sz \<and> sz \<le> int (length (rd_data r)) \<and> res \<noteq> Inl ErrAlreadyExists \<and>
            (\<exists>t. v w' = (v w)(h \<mapsto> (take (nat sz) (rd_data r), t)))) \<and>
         (res = Inl ErrAlreadyExists \<longrightarrow> v w h \<noteq> None) \<and>
         (cloud_ok objs w \<longrightarrow> cloud_ok objs w')"
proof -
  obtain ex w1 where ex: "s3_exists api s h w = (ex, w1)" by fastforce
  note e = s3_exists_law [OF assms(1,2) ex, folded v_def]
  have v1: "v w1 = v w" unfolding v_def by (rule cloud_view_cong) (use e in blast)
  consider (err) er where "ex = Inl er" | (yes) "ex = Inr True" | (no) "ex = Inr False"
    by (metis (full_types) sum.exhaust)
  then show ?thesis
  proof cases
    case err
    then show ?thesis
      using assms(3) ex e v1 by (auto simp: s3_put_def s3_exists_def cloud_ok_def split: sum.splits prod.splits if_splits)
  next
    case yes
    then show ?thesis using assms(3) ex e v1 by (auto simp: s3_put_def cloud_ok_def)
  next
    case no
    then have "s3_put_object api s h r sz w1 = (res, w')" using assms(3) ex by (simp add: s3_put_def)
    note p = s3_put_object_law [OF assms(1) this]
    have none: "v w h = None" using e no by blast
    from p show ?thesis
    proof
      assume "objs w' = objs w1 \<and> res = Inl (ErrOther ''put object'')"
      then show ?thesis
        using e v1 cloud_view_cong [of objs w' w1] by (auto simp: v_def cloud_ok_def)
    next
      assume a: "0 \<le> sz \<and> sz \<le> int (length (rd_data r)) \<and> res \<in> {Inr (), Inl (ErrOther ''put object'')} \<and>
        (\<exists>t. objs w' = (objs w1)(cloud_key (s3_prefix s) h \<mapsto> (take (nat sz) (rd_data r), t)))"
      then obtain t where t: "objs w' = (objs w1)(cloud_key (s3_prefix s) h \<mapsto> (take (nat sz) (rd_data r), t))"
        by blast
      have "v w' = (v w1)(h \<mapsto> (take (nat sz) (rd_data r), t))"
        unfolding v_def by (rule cloud_view_upd [OF assms(2) t])
      then show ?thesis using a none v1 t e by (auto simp: cloud_ok_def)
    qed
  qed
qed

lemma s3_put_present:
  assumes "s3_lawful api s objs" "store_key h" "cloud_view (s3_prefix s) objs w h \<noteq> None"
  shows "\<exists>e. fst (s3_put api s h r sz w) = Inl e"
proof -
  obtain ex w1 where ex: "s3_exists api s h w = (ex, w1)" by fastforce
  then have "ex \<noteq> Inr False" using s3_exists_law [OF assms(1,2) ex] assms(3) by auto
  then show ?thesis using ex by (auto simp: s3_put_def split: sum.splits bool.splits)
qed

lemma s3_get_law:
  assumes "s3_lawful api s objs" "store_key h" "s3_get api s h w = (res, w')"
  defines "v \<equiv> cloud_view (s3_prefix s) objs"
  shows "objs w' = objs w \<and>
         (case res of
            Inr (r, n) \<Rightarrow> (\<exists>d t. v w h = Some (d, t) \<and> n = int (length d) \<and>
               (if rd_err r then \<exists>k. rd_data r = take k d else rd_data r = d))
          | Inl e \<Rightarrow> (e = ErrNotFound \<longrightarrow> v w h = None))"
proof -
  let ?k = "cloud_key (s3_prefix s) h"
  obtain r1 w1 where g: "sdk_get api (s3_cl s) (s3_bucket s) ?k w = (r1, w1)" by fastforce
  have "get_lawful api (s3_cl s) (s3_bucket s) objs" using assms(1) by (simp add: s3_lawful_def)
  from this [unfolded get_lawful_def, rule_format, OF g]
  have l: "objs w1 = objs w" "case r1 of
           Inl e \<Rightarrow> is_not_found e \<longrightarrow> objs w ?k = None
         | Inr (r, len) \<Rightarrow> (\<exists>d t. objs w ?k = Some (d, t) \<and> len = Some (int (length d)) \<and>
             (if rd_err r then \<exists>j. rd_data r = take j d else rd_data r = d))"
    by blast+
  have vk: "v w h = objs w ?k" using assms(2) by (simp add: v_def cloud_view_key)
  show ?thesis
  proof (cases r1)
    case (Inl e)
    then show ?thesis using l assms(3) g vk by (auto simp: s3_get_def split: if_splits)
  next
    case (Inr x)
    then obtain rd len d t where x: "x = (rd, len)" "objs w ?k = Some (d, t)" "len = Some (int (length d))"
      "if rd_err rd then \<exists>j. rd_data rd = take j d else rd_data rd = d"
      using l(2) by (cases x) auto
    then have "res = Inr (rd, int (length d))" "w' = w1"
      using assms(3) g Inr by (auto simp: s3_get_def)
    then show ?thesis using x vk l(1) by simp
  qed
qed

lemma s3_delete_law:
  assumes "s3_lawful api s objs" "store_key h" "s3_delete api s h w = (res, w')"
  defines "v \<equiv> cloud_view (s3_prefix s) objs"
  shows "(cloud_ok objs w \<longrightarrow> cloud_ok objs w') \<and> v w' \<in> {v w, (v w)(h := None)} \<and>
         (case res of
            Inr _ \<Rightarrow> v w h \<noteq> None \<and> v w' = (v w)(h := None)
          | Inl e \<Rightarrow> (e = ErrNotFound \<longrightarrow> v w h = None))"
proof -
  let ?k = "cloud_key (s3_prefix s) h"
  obtain ex w1 where ex: "s3_exists api s h w = (ex, w1)" by fastforce
  note e = s3_exists_law [OF assms(1,2) ex, folded v_def]
  have v1: "v w1 = v w" unfolding v_def by (rule cloud_view_cong) (use e in blast)
  consider (err) er where "ex = Inl er" "er \<noteq> ErrNotFound" | (no) "ex = Inr False" | (yes) "ex = Inr True"
    using ex by (auto simp: s3_exists_def split: sum.splits prod.splits if_splits)
  then show ?thesis
  proof cases
    case yes
    obtain r2 w2 where d: "sdk_delete api (s3_cl s) (s3_bucket s) ?k w1 = (r2, w2)" by fastforce
    have "delete_lawful api (s3_cl s) (s3_bucket s) objs" using assms(1) by (simp add: s3_lawful_def)
    from this [unfolded delete_lawful_def, rule_format, OF d]
    have l: "objs w2 = (objs w1)(?k := None) \<or> (objs w2 = objs w1 \<and> (\<exists>e. r2 = Inl e))" .
    then have v2: "v w2 = (v w1)(h := None) \<or> (v w2 = v w1 \<and> (\<exists>e. r2 = Inl e))"
      unfolding v_def
      using cloud_view_upd [OF assms(2), of objs w2 w1 "s3_prefix s" None] cloud_view_cong [of objs w2 w1] by auto
    have "cloud_ok objs w \<longrightarrow> cloud_ok objs w2" using l e by (auto simp: cloud_ok_def)
    then show ?thesis
      using assms(3) ex yes d v1 v2 e by (auto simp: s3_delete_def split: sum.splits)
  next
    case no
    then have "v w h = None" using e by blast
    then show ?thesis using assms(3) ex e v1 no by (auto simp: s3_delete_def cloud_ok_def)
  qed (use assms(3) ex e v1 in \<open>auto simp: s3_delete_def cloud_ok_def\<close>)
qed

text \<open>Used by one client at a time, the S3 backend is a store.\<close>

lemma s3_weak_store:
  assumes "s3_lawful api s objs"
  shows "weak_store (s3_backend api s) (cloud_view (s3_prefix s) objs) (cloud_ok objs)"
proof (unfold_locales, unfold s3_backend_def backend_if.simps, goal_cases)
  case (1 w h res w')
  then show ?case
    using s3_exists_law [OF assms 1(2,3)] cloud_view_cong by (auto simp: cloud_ok_def)
next
  case (2 w h r sz res w')
  then show ?case using s3_put_law [OF assms 2(2,3)] by (auto split: if_splits)
next
  case 3 then show ?case using s3_put_present [OF assms] by blast
next
  case (4 w h res w')
  then show ?case using s3_get_law [OF assms 4(2,3)] cloud_view_cong by (auto simp: cloud_ok_def)
next
  case 5 then show ?case using s3_delete_law [OF assms] by blast
next
  case 6 then show ?case by (auto simp: cloud_view_def split: if_splits)
next
  case 7 then show ?case by (rule cloud_view_finite)
next
  case 8 then show ?case using s3_put_law [OF assms] by blast
qed

section \<open>The GCS service\<close>

text \<open>
  Documented behaviour of a bucket handle: an upload under the precondition stores the bytes
  written when the object is absent and answers 412 without any effect when it is present; a
  writer that failed stores nothing.
\<close>

definition attrs_lawful :: "'s gcs_api \<Rightarrow> string \<Rightarrow> 's objects \<Rightarrow> bool" where
  "attrs_lawful api b objs \<longleftrightarrow>
     (\<forall>k w res w'. gapi_attrs api b k w = (res, w') \<longrightarrow>
        objs w' = objs w \<and>
        (case res of Inr _ \<Rightarrow> objs w k \<noteq> None | Inl e \<Rightarrow> e = GNotExist \<longrightarrow> objs w k = None))"

definition upload_lawful :: "'s gcs_api \<Rightarrow> string \<Rightarrow> 's objects \<Rightarrow> bool" where
  "upload_lawful api b objs \<longleftrightarrow>
     (\<forall>k d w x w'. gapi_write api b k d w = (x, w') \<longrightarrow> objs w' = objs w) \<and>
     (\<forall>k d werr w res w'. gapi_close api b k d werr w = (res, w') \<longrightarrow>
        (objs w' = objs w \<and> (\<exists>e. res = Inl e \<and> (e = GApi 412 \<longrightarrow> objs w k \<noteq> None))) \<or>
        (\<not> werr \<and> res \<noteq> Inl (GApi 412) \<and> objs w k = None \<and> (\<exists>t. objs w' = (objs w)(k \<mapsto> (d, t)))))"

definition read_lawful :: "'s gcs_api \<Rightarrow> string \<Rightarrow> 's objects \<Rightarrow> bool" where
  "read_lawful api b objs \<longleftrightarrow>
     (\<forall>k w res w'. gapi_read api b k w = (res, w') \<longrightarrow>
        objs w' = objs w \<and>
        (case res of
           Inl e \<Rightarrow> e = GNotExist \<longrightarrow> objs w k = None
         | Inr (r, n) \<Rightarrow> (\<exists>d t. objs w k = Some (d, t) \<and> n = int (length d) \<and>
             (if rd_err r then \<exists>j. rd_data r = take j d else rd_data r = d))))"

definition remove_lawful :: "'s gcs_api \<Rightarrow> string \<Rightarrow> 's objects \<Rightarrow> bool" where
  "remove_lawful api b objs \<longleftrightarrow>
     (\<forall>k w res w'. gapi_delete api b k w = (res, w') \<longrightarrow>
        (objs w k \<noteq> None \<and> res \<noteq> Inl GNotExist \<and> objs w' = (objs w)(k := None)) \<or>
        (objs w' = objs w \<and> (\<exists>e. res = Inl e \<and> (e = GNotExist \<longrightarrow> objs w k = None))))"

definition gcs_lawful :: "'s gcs_api \<Rightarrow> gcs \<Rightarrow> 's objects \<Rightarrow> bool" where
  "gcs_lawful api g objs \<longleftrightarrow>
     attrs_lawful api (gcs_bucket g) objs \<and> upload_lawful api (gcs_bucket g) objs \<and>
     read_lawful api (gcs_bucket g) objs \<and> remove_lawful api (gcs_bucket g) objs"

text \<open>What an upload leaves: nothing new, or the bytes read so far under the hash.\<close>

lemma gcs_put_cases:
  assumes "gcs_lawful api g objs" "gcs_put api g h r sz w = (res, w')"
  shows "(objs w' = objs w \<and> (\<exists>e. res = Inl e \<and>
      (e = ErrAlreadyExists \<longrightarrow> objs w (cloud_key (gcs_prefix g) h) \<noteq> None))) \<or>
    (objs w (cloud_key (gcs_prefix g) h) = None \<and> res \<noteq> Inl ErrAlreadyExists \<and>
     (\<exists>t. objs w' = (objs w)(cloud_key (gcs_prefix g) h \<mapsto> (fst (copy_limit r sz), t))) \<and>
     (\<forall>u. res = Inr u \<longrightarrow> \<not> snd (copy_limit r sz)))"
proof -
  let ?k = "cloud_key (gcs_prefix g) h"
  obtain d rerr where cl: "copy_limit r sz = (d, rerr)" by fastforce
  obtain werr w1 where wr: "gapi_write api (gcs_bucket g) ?k d w = (werr, w1)" by fastforce
  obtain cres w2 where cl2: "gapi_close api (gcs_bucket g) ?k d werr w1 = (cres, w2)" by fastforce
  have up: "upload_lawful api (gcs_bucket g) objs" using assms(1) by (simp add: gcs_lawful_def)
  have w1: "objs w1 = objs w" using up wr by (auto simp: upload_lawful_def)
  have c: "(objs w2 = objs w \<and> (\<exists>e. cres = Inl e \<and> (e = GApi 412 \<longrightarrow> objs w ?k \<noteq> None))) \<or>
      (\<not> werr \<and> cres \<noteq> Inl (GApi 412) \<and> objs w ?k = None \<and> (\<exists>t. objs w2 = (objs w)(?k \<mapsto> (d, t))))"
    using conjunct2 [OF up [unfolded upload_lawful_def], rule_format, OF cl2] w1 by simp
  have res: "w' = w2" "res = (if rerr \<or> werr then Inl (ErrOther ''write object'')
      else case cres of Inl e \<Rightarrow> Inl (if is_precondition_failed e then ErrAlreadyExists
        else ErrOther ''finalize object'') | Inr _ \<Rightarrow> Inr ())"
    using assms(2) by (auto simp: gcs_put_def cl wr cl2 Let_def split: sum.splits if_splits)
  from c show ?thesis
  proof
    assume a: "objs w2 = objs w \<and> (\<exists>e. cres = Inl e \<and> (e = GApi 412 \<longrightarrow> objs w ?k \<noteq> None))"
    then show ?thesis using res by (intro disjI1) (auto simp: is_precondition_failed_def)
  next
    assume a: "\<not> werr \<and> cres \<noteq> Inl (GApi 412) \<and> objs w ?k = None \<and> (\<exists>t. objs w2 = (objs w)(?k \<mapsto> (d, t)))"
    then show ?thesis using res cl by (intro disjI2) (auto simp: is_precondition_failed_def split: sum.splits)
  qed
qed

lemma gcs_exists_law:
  assumes "gcs_lawful api g objs" "store_key h" "gcs_exists api g h w = (res, w')"
  shows "objs w' = objs w \<and> (\<forall>b. res = Inr b \<longrightarrow> b = (cloud_view (gcs_prefix g) objs w h \<noteq> None))"
proof -
  obtain r1 w1 where a: "gapi_attrs api (gcs_bucket g) (cloud_key (gcs_prefix g) h) w = (r1, w1)" by fastforce
  have "attrs_lawful api (gcs_bucket g) objs" using assms(1) by (simp add: gcs_lawful_def)
  from this [unfolded attrs_lawful_def, rule_format, OF a]
  show ?thesis
    using assms(2,3) a by (auto simp: gcs_exists_def cloud_view_key split: sum.splits gcs_err.splits)
qed

lemma gcs_put_law:
  assumes "gcs_lawful api g objs" "store_key h" "gcs_put api g h r sz w = (res, w')"
  defines "v \<equiv> cloud_view (gcs_prefix g) objs"
  shows "(cloud_ok objs w \<longrightarrow> cloud_ok objs w') \<and>
    (v w' = v w \<and> (\<exists>e. res = Inl e \<and> (e = ErrAlreadyExists \<longrightarrow> v w h \<noteq> None)) \<or>
     v w h = None \<and> res \<noteq> Inl ErrAlreadyExists \<and>
       (\<exists>t. v w' = (v w)(h \<mapsto> (fst (copy_limit r sz), t))) \<and> (\<forall>u. res = Inr u \<longrightarrow> \<not> snd (copy_limit r sz)))"
proof -
  let ?k = "cloud_key (gcs_prefix g) h"
  have k: "v w h = objs w ?k" using assms(2) by (simp add: v_def cloud_view_key)
  from gcs_put_cases [OF assms(1,3)] show ?thesis
  proof
    assume "objs w' = objs w \<and> (\<exists>e. res = Inl e \<and> (e = ErrAlreadyExists \<longrightarrow> objs w ?k \<noteq> None))"
    then show ?thesis using k cloud_view_cong [of objs w' w] by (auto simp: cloud_ok_def v_def)
  next
    assume a: "objs w ?k = None \<and> res \<noteq> Inl ErrAlreadyExists \<and>
      (\<exists>t. objs w' = (objs w)(?k \<mapsto> (fst (copy_limit r sz), t))) \<and>
      (\<forall>u. res = Inr u \<longrightarrow> \<not> snd (copy_limit r sz))"
    then obtain t where t: "objs w' = (objs w)(?k \<mapsto> (fst (copy_limit r sz), t))" by blast
    have "v w' = (v w)(h \<mapsto> (fst (copy_limit r sz), t))" unfolding v_def by (rule cloud_view_upd [OF assms(2) t])
    then show ?thesis using a k t by (auto simp: cloud_ok_def)
  qed
qed

lemma gcs_get_law:
  assumes "gcs_lawful api g objs" "store_key h" "gcs_get api g h w = (res, w')"
  defines "v \<equiv> cloud_view (gcs_prefix g) objs"
  shows "objs w' = objs w \<and>
    (case res of
       Inr (r, n) \<Rightarrow> (\<exists>d t. v w h = Some (d, t) \<and> n = int (length d) \<and>
          (if rd_err r then \<exists>k. rd_data r = take k d else rd_data r = d))
     | Inl e \<Rightarrow> (e = ErrNotFound \<longrightarrow> v w h = None))"
proof -
  obtain r1 w1 where a: "gapi_read api (gcs_bucket g) (cloud_key (gcs_prefix g) h) w = (r1, w1)" by fastforce
  have "read_lawful api (gcs_bucket g) objs" using assms(1) by (simp add: gcs_lawful_def)
  note l = this [unfolded read_lawful_def, rule_format, OF a]
  have "w' = w1" "res = (case r1 of Inl e \<Rightarrow> Inl (if e = GNotExist then ErrNotFound
      else ErrOther ''read object'') | Inr x \<Rightarrow> Inr x)"
    using assms(3) a by (auto simp: gcs_get_def split: sum.splits gcs_err.splits)
  moreover have "v w h = objs w (cloud_key (gcs_prefix g) h)" using assms(2) by (simp add: v_def cloud_view_key)
  ultimately show ?thesis using l by (cases r1) (simp_all only: sum.case simp_thms, simp)
qed

lemma gcs_delete_law:
  assumes "gcs_lawful api g objs" "store_key h" "gcs_delete api g h w = (res, w')"
  defines "v \<equiv> cloud_view (gcs_prefix g) objs"
  shows "(cloud_ok objs w \<longrightarrow> cloud_ok objs w') \<and> v w' \<in> {v w, (v w)(h := None)} \<and>
    (case res of
       Inr _ \<Rightarrow> v w h \<noteq> None \<and> v w' = (v w)(h := None)
     | Inl e \<Rightarrow> (e = ErrNotFound \<longrightarrow> v w h = None))"
proof -
  let ?k = "cloud_key (gcs_prefix g) h"
  obtain r1 w1 where a: "gapi_delete api (gcs_bucket g) ?k w = (r1, w1)" by fastforce
  have "remove_lawful api (gcs_bucket g) objs" using assms(1) by (simp add: gcs_lawful_def)
  note l = this [unfolded remove_lawful_def, rule_format, OF a]
  have r: "w' = w1" "res = (case r1 of Inl e \<Rightarrow> Inl (if e = GNotExist then ErrNotFound
      else ErrOther ''delete object'') | Inr _ \<Rightarrow> Inr ())"
    using assms(3) a by (auto simp: gcs_delete_def split: sum.splits gcs_err.splits)
  have k: "v w h = objs w ?k" using assms(2) by (simp add: v_def cloud_view_key)
  from l show ?thesis
  proof
    assume b: "objs w ?k \<noteq> None \<and> r1 \<noteq> Inl GNotExist \<and> objs w1 = (objs w)(?k := None)"
    then have "v w1 = (v w)(h := None)" unfolding v_def by (intro cloud_view_upd [OF assms(2)]) simp
    then show ?thesis using b r k by (auto simp: cloud_ok_def split: sum.splits)
  next
    assume "objs w1 = objs w \<and> (\<exists>e. r1 = Inl e \<and> (e = GNotExist \<longrightarrow> objs w ?k = None))"
    then show ?thesis using r k cloud_view_cong [of objs w1 w] by (auto simp: v_def cloud_ok_def)
  qed
qed

lemma gcs_put_present:
  assumes "gcs_lawful api g objs" "store_key h" "cloud_view (gcs_prefix g) objs w h \<noteq> None"
  shows "\<exists>e. fst (gcs_put api g h r sz w) = Inl e"
proof -
  obtain res w' where p: "gcs_put api g h r sz w = (res, w')" by fastforce
  then show ?thesis using gcs_put_law [OF assms(1,2) p] assms(3) by auto
qed

lemma gcs_guarded_store:
  assumes "gcs_lawful api g objs"
  shows "guarded_store (gcs_backend api g) (cloud_view (gcs_prefix g) objs) (cloud_ok objs)"
proof (unfold_locales, unfold gcs_backend_def backend_if.simps, goal_cases)
  case (1 w h res w')
  then show ?case
    using gcs_exists_law [OF assms 1(2,3)] cloud_view_cong by (auto simp: cloud_ok_def)
next
  case (2 w h r sz res w')
  have "fst (copy_limit r sz) = take (nat sz) (rd_data r)" if "0 \<le> sz" "sz \<le> int (length (rd_data r))"
    using that by (simp add: copy_limit_def)
  then show ?case using gcs_put_law [OF assms 2(2,3)] 2(1) by auto
next
  case 3 then show ?case using gcs_put_present [OF assms] by blast
next
  case (4 w h res w')
  then show ?case using gcs_get_law [OF assms 4(2,3)] cloud_view_cong by (auto simp: cloud_ok_def)
next
  case 5 then show ?case using gcs_delete_law [OF assms] by blast
next
  case 6 then show ?case by (auto simp: cloud_view_def split: if_splits)
next
  case 7 then show ?case by (rule cloud_view_finite)
qed

section \<open>Buckets in memory\<close>

text \<open>A bucket as an association list, with a schedule of refused requests.\<close>

record mem_bucket =
  mb_objs :: "(string \<times> byte list \<times> time) list"
  mb_clock :: time
  mb_refuse :: "bool list"

definition mem_objs :: "mem_bucket objects" where
  "mem_objs w = map_of (mb_objs w)"

definition mem_pop :: "mem_bucket \<Rightarrow> bool \<times> mem_bucket" where
  "mem_pop w = (case mb_refuse w of [] \<Rightarrow> (False, w) | x # xs \<Rightarrow> (x, w\<lparr>mb_refuse := xs\<rparr>))"

definition mem_request :: "'e \<Rightarrow> (mem_bucket \<Rightarrow> ('e + 'a) \<times> mem_bucket) \<Rightarrow> mem_bucket \<Rightarrow> ('e + 'a) \<times> mem_bucket" where
  "mem_request e f w = (case mem_pop w of (True, w1) \<Rightarrow> (Inl e, w1) | (False, w1) \<Rightarrow> f w1)"

definition mem_lookup :: "'e \<Rightarrow> string \<Rightarrow> mem_bucket \<Rightarrow> ('e + byte list \<times> time) \<times> mem_bucket" where
  "mem_lookup missing k w = (case map_of (mb_objs w) k of None \<Rightarrow> (Inl missing, w) | Some x \<Rightarrow> (Inr x, w))"

definition mem_store :: "string \<Rightarrow> byte list \<Rightarrow> mem_bucket \<Rightarrow> mem_bucket" where
  "mem_store k d w = w\<lparr>mb_objs := AList.update k (d, mb_clock w) (mb_objs w), mb_clock := mb_clock w + 1\<rparr>"

definition mem_remove :: "string \<Rightarrow> mem_bucket \<Rightarrow> mem_bucket" where
  "mem_remove k w = w\<lparr>mb_objs := AList.delete k (mb_objs w)\<rparr>"

definition mem_page :: "string \<Rightarrow> int \<Rightarrow> string \<Rightarrow> mem_bucket \<Rightarrow> (string \<times> byte list \<times> time) list" where
  "mem_page p n after w =
     take (nat n) (sort_key fst (filter (\<lambda>(k, _). has_prefix p k \<and> after < k) (mb_objs w)))"

definition mem_s3_api :: "mem_bucket s3_api" where
  "mem_s3_api =
     \<lparr>sdk_load_config = (\<lambda>_ _ w. (True, w)),
      sdk_head = (\<lambda>_ _ k. mem_request SdkOther (\<lambda>w. map_prod (map_sum id (\<lambda>_. ())) id (mem_lookup (ApiErr ''NotFound'') k w))),
      sdk_put = (\<lambda>_ _ k body n. mem_request SdkOther (\<lambda>w.
        if int (length (fst body)) = n \<and> \<not> snd body then (Inr (), mem_store k (fst body) w) else (Inl SdkOther, w))),
      sdk_get = (\<lambda>_ _ k. mem_request SdkOther (\<lambda>w.
        map_prod (map_sum id (\<lambda>(d, t). (\<lparr>rd_data = d, rd_err = False\<rparr>, Some (int (length d))))) id
          (mem_lookup (ApiErr ''NoSuchKey'') k w))),
      sdk_delete = (\<lambda>_ _ k. mem_request SdkOther (\<lambda>w. (Inr (), mem_remove k w))),
      sdk_list = (\<lambda>_ _ n p tok. mem_request SdkOther (\<lambda>w.
        (Inr (map (\<lambda>(k, d, t). \<lparr>obj_key = Some k, obj_size = Some (int (length d)), obj_mod = Some t\<rparr>)
               (mem_page (case p of None \<Rightarrow> [] | Some x \<Rightarrow> x) n (case tok of None \<Rightarrow> [] | Some x \<Rightarrow> x) w), None), w)))\<rparr>"

definition mem_gcs_api :: "mem_bucket gcs_api" where
  "mem_gcs_api =
     \<lparr>gapi_new_client = (\<lambda>_ w. (True, w)),
      gapi_attrs = (\<lambda>_ k. mem_request GOther (\<lambda>w. map_prod (map_sum id (\<lambda>_. ())) id (mem_lookup GNotExist k w))),
      gapi_write = (\<lambda>_ _ _ w. (False, w)),
      gapi_close = (\<lambda>_ k d werr. mem_request GOther (\<lambda>w.
        if werr then (Inl GOther, w)
        else if mem_objs w k = None then (Inr (), mem_store k d w) else (Inl (GApi 412), w))),
      gapi_read = (\<lambda>_ k. mem_request GOther (\<lambda>w.
        map_prod (map_sum id (\<lambda>(d, t). (\<lparr>rd_data = d, rd_err = False\<rparr>, int (length d)))) id (mem_lookup GNotExist k w))),
      gapi_delete = (\<lambda>_ k. mem_request GOther (\<lambda>w.
        if mem_objs w k = None then (Inl GNotExist, w) else (Inr (), mem_remove k w))),
      gapi_page = (\<lambda>_ p n tok. mem_request GOther (\<lambda>w.
        (Inr (map (\<lambda>(k, d, t). \<lparr>go_name = k, go_size = int (length d), go_updated = t\<rparr>)
               (mem_page (case p of None \<Rightarrow> [] | Some x \<Rightarrow> x) n tok w), []), w)))\<rparr>"

lemma mem_pop_objs: "mem_pop w = (x, w') \<Longrightarrow> mb_objs w' = mb_objs w"
  by (auto simp: mem_pop_def split: list.splits)

lemma mem_request_cases:
  assumes "mem_request e f w = (res, w')"
  shows "\<exists>w1. mb_objs w1 = mb_objs w \<and> ((res = Inl e \<and> w' = w1) \<or> f w1 = (res, w'))"
  using assms mem_pop_objs by (fastforce simp: mem_request_def split: prod.splits bool.splits)

lemma mem_store_objs [simp]: "mem_objs (mem_store k d w) = (mem_objs w)(k \<mapsto> (d, mb_clock w))"
  by (simp add: mem_objs_def mem_store_def)

lemma mem_remove_objs [simp]: "mem_objs (mem_remove k w) = (mem_objs w)(k := None)"
  by (simp add: mem_objs_def mem_remove_def)

lemma mem_lookup_eq:
  "mem_lookup e k w = (case mem_objs w k of None \<Rightarrow> (Inl e, w) | Some x \<Rightarrow> (Inr x, w))"
  by (simp add: mem_lookup_def mem_objs_def)

lemma mem_objs_cong: "mb_objs w1 = mb_objs w \<Longrightarrow> mem_objs w1 = mem_objs w"
  by (simp add: mem_objs_def)

lemma mem_s3_lawful: "s3_lawful mem_s3_api s mem_objs"
proof -
  have "head_lawful mem_s3_api c b mem_objs" for c b
    by (auto simp: head_lawful_def mem_s3_api_def mem_lookup_eq is_not_found_def
        dest!: mem_request_cases mem_objs_cong split: option.splits)
  moreover have "put_lawful mem_s3_api c b mem_objs" for c b
    by (auto simp: put_lawful_def mem_s3_api_def full_body_def
        dest!: mem_request_cases mem_objs_cong split: if_splits)
  moreover have "get_lawful mem_s3_api c b mem_objs" for c b
    by (auto simp: get_lawful_def mem_s3_api_def mem_lookup_eq is_not_found_def
        dest!: mem_request_cases mem_objs_cong split: option.splits)
  moreover have "delete_lawful mem_s3_api c b mem_objs" for c b
    by (auto simp: delete_lawful_def mem_s3_api_def dest!: mem_request_cases mem_objs_cong)
  ultimately show ?thesis by (simp add: s3_lawful_def)
qed

lemma mem_gcs_lawful: "gcs_lawful mem_gcs_api g mem_objs"
proof -
  have "attrs_lawful mem_gcs_api b mem_objs" for b
    by (auto simp: attrs_lawful_def mem_gcs_api_def mem_lookup_eq
        dest!: mem_request_cases mem_objs_cong split: option.splits)
  moreover have "upload_lawful mem_gcs_api b mem_objs" for b
    by (auto simp: upload_lawful_def mem_gcs_api_def
        dest!: mem_request_cases mem_objs_cong split: if_splits)
  moreover have "read_lawful mem_gcs_api b mem_objs" for b
    by (auto simp: read_lawful_def mem_gcs_api_def mem_lookup_eq
        dest!: mem_request_cases mem_objs_cong split: option.splits)
  moreover have "remove_lawful mem_gcs_api b mem_objs" for b
    unfolding remove_lawful_def
  proof (intro allI impI)
    fix k w res w' assume "gapi_delete mem_gcs_api b k w = (res, w')"
    then obtain w1 where "mem_objs w1 = mem_objs w" "(res = Inl GOther \<and> w' = w1) \<or>
        (if mem_objs w1 k = None then (Inl GNotExist, w1) else (Inr (), mem_remove k w1)) = (res, w')"
      by (auto simp: mem_gcs_api_def dest!: mem_request_cases mem_objs_cong)
    then show "(mem_objs w k \<noteq> None \<and> res \<noteq> Inl GNotExist \<and> mem_objs w' = (mem_objs w)(k := None)) \<or>
        (mem_objs w' = mem_objs w \<and> (\<exists>e. res = Inl e \<and> (e = GNotExist \<longrightarrow> mem_objs w k = None)))"
      by (auto split: if_splits)
  qed
  ultimately show ?thesis by (simp add: gcs_lawful_def)
qed

interpretation mem_s3: weak_store "s3_backend mem_s3_api s" "cloud_view (s3_prefix s) mem_objs" "cloud_ok mem_objs"
  by (rule s3_weak_store [OF mem_s3_lawful])

interpretation mem_gcs: guarded_store "gcs_backend mem_gcs_api g" "cloud_view (gcs_prefix g) mem_objs" "cloud_ok mem_objs"
  by (rule gcs_guarded_store [OF mem_gcs_lawful])

end
