(* ===== verification/Dynamic.thy ===== *)
theory Dynamic
  imports LocalContract CloudContract
begin

text \<open>
  The swappable backend, \<open>internal/storage/dynamic.go\<close>: a reference to one of the three concrete
  backends, read by every call and replaced by \<open>Swap\<close>. The concrete backends live on
  different media (the file system, the two cloud services), so a call is lifted to the state
  that holds them all.
\<close>

section \<open>Lifting a backend to a larger state\<close>

definition lift_state :: "('w \<Rightarrow> 'x) \<Rightarrow> ('x \<Rightarrow> 'w \<Rightarrow> 'w) \<Rightarrow> ('x \<Rightarrow> 'r \<times> 'x) \<Rightarrow> 'w \<Rightarrow> 'r \<times> 'w" where
  "lift_state get put f w = (let (r, x) = f (get w) in (r, put x w))"

definition lift_backend :: "('w \<Rightarrow> 'x) \<Rightarrow> ('x \<Rightarrow> 'w \<Rightarrow> 'w) \<Rightarrow> 'x backend_if \<Rightarrow> 'w backend_if" where
  "lift_backend get put bk =
     \<lparr>b_exists = (\<lambda>h. lift_state get put (b_exists bk h)),
      b_put = (\<lambda>h r sz. lift_state get put (b_put bk h r sz)),
      b_get = (\<lambda>h. lift_state get put (b_get bk h)),
      b_delete = (\<lambda>h. lift_state get put (b_delete bk h)),
      b_list = (\<lambda>c n. lift_state get put (b_list bk c n))\<rparr>"

definition is_lens :: "('w \<Rightarrow> 'x) \<Rightarrow> ('x \<Rightarrow> 'w \<Rightarrow> 'w) \<Rightarrow> bool" where
  "is_lens get put \<longleftrightarrow> (\<forall>x w. get (put x w) = x)"

lemma lift_backend_simps [simp]:
  "b_exists (lift_backend get put bk) h = lift_state get put (b_exists bk h)"
  "b_put (lift_backend get put bk) h r sz = lift_state get put (b_put bk h r sz)"
  "b_get (lift_backend get put bk) h = lift_state get put (b_get bk h)"
  "b_delete (lift_backend get put bk) h = lift_state get put (b_delete bk h)"
  "b_list (lift_backend get put bk) c n = lift_state get put (b_list bk c n)"
  by (simp_all add: lift_backend_def)

lemma lift_state_eq:
  "lift_state get put f w = (r, w') \<longleftrightarrow> (\<exists>x. f (get w) = (r, x) \<and> w' = put x w)"
  by (cases "f (get w)") (auto simp: lift_state_def)

lemma lift_state_fst [simp]: "fst (lift_state get put f w) = fst (f (get w))"
  by (simp add: lift_state_def split: prod.splits)

lemma lift_guarded_store:
  assumes "guarded_store bk view ok" "is_lens get put"
  shows "guarded_store (lift_backend get put bk) (\<lambda>w. view (get w)) (\<lambda>w. ok (get w))"
proof -
  have l [simp]: "get (put x w) = x" for x w using assms(2) by (simp add: is_lens_def)
  note g = assms(1)
  show ?thesis
  proof (unfold_locales, unfold lift_backend_simps lift_state_eq lift_state_fst, goal_cases)
    case 1 then show ?case using guarded_store.exists_law [OF g] by fastforce
  next
    case 2 then show ?case using guarded_store.put_guard [OF g] by (elim exE conjE) simp
  next
    case 3 then show ?case using guarded_store.put_present [OF g] by blast
  next
    case (4 w h res w')
    then obtain x where x: "b_get bk h (get w) = (res, x)" "w' = put x w" by blast
    show ?case using guarded_store.get_law [OF g 4(1,2) x(1)] x(2) by simp
  next
    case (5 w h res w')
    then obtain x where x: "b_delete bk h (get w) = (res, x)" "w' = put x w" by blast
    show ?case using guarded_store.delete_law [OF g 5(1,2) x(1)] by (simp add: x(2) cong: sum.case_cong)
  next
    case 6 then show ?case using guarded_store.view_keys [OF g] by blast
  next
    case 7 then show ?case using guarded_store.view_finite [OF g] by blast
  qed
qed

lemma lift_weak_store:
  assumes "weak_store bk view ok" "is_lens get put"
  shows "weak_store (lift_backend get put bk) (\<lambda>w. view (get w)) (\<lambda>w. ok (get w))"
proof (intro weak_store.intro weak_store_axioms.intro
    lift_guarded_store [OF weak_store.axioms(1) [OF assms(1)] assms(2)])
  have l [simp]: "get (put x w) = x" for x w using assms(2) by (simp add: is_lens_def)
  fix w h r sz res w'
  assume a: "ok (get w)" "store_key h" "b_put (lift_backend get put bk) h r sz w = (res, w')"
  then obtain x where x: "b_put bk h r sz (get w) = (res, x)" "w' = put x w"
    by (auto simp: lift_state_eq)
  show "view (get w') = view (get w) \<and> (\<forall>u. res \<noteq> Inr u) \<or>
      view (get w) h = None \<and> 0 \<le> sz \<and> sz \<le> int (length (rd_data r)) \<and>
      (\<exists>t. view (get w') = (view (get w))(h \<mapsto> (take (nat sz) (rd_data r), t)))"
    using weak_store.put_law [OF assms(1) a(1,2) x(1)] x(2) by simp
qed

lemma lift_blob_store:
  assumes "blob_store bk view ok" "is_lens get put"
  shows "blob_store (lift_backend get put bk) (\<lambda>w. view (get w)) (\<lambda>w. ok (get w))"
proof (intro blob_store.intro blob_store_axioms.intro
    lift_weak_store [OF blob_store.axioms(1) [OF assms(1)] assms(2)])
  have l [simp]: "get (put x w) = x" for x w using assms(2) by (simp add: is_lens_def)
  show "view (get w') = view (get w)"
    if "ok (get w)" "store_key h" "b_put (lift_backend get put bk) h r sz w = (Inl e, w')" for w h r sz e w'
    using that blob_store.put_exact [OF assms(1)] by (auto simp: lift_state_eq)
  show "view (get w') = view (get w)"
    if "ok (get w)" "store_key h" "b_delete (lift_backend get put bk) h w = (Inl e, w')" for w h e w'
    using that blob_store.delete_exact [OF assms(1)] by (auto simp: lift_state_eq)
qed

lemma lift_ordered_store:
  assumes "ordered_store bk view ok rel" "is_lens get put"
  shows "ordered_store (lift_backend get put bk) (\<lambda>w. view (get w)) (\<lambda>w. ok (get w)) (\<lambda>w. rel (get w))"
proof (intro ordered_store.intro ordered_store_axioms.intro
    lift_blob_store [OF ordered_store.axioms(1) [OF assms(1)] assms(2)])
  have l [simp]: "get (put x w) = x" for x w using assms(2) by (simp add: is_lens_def)
  fix w h lim cur
  assume a: "ok (get w)" "rel (get w)"
  show "\<exists>w'. rel (get w') \<and> b_delete (lift_backend get put bk) h w =
      (if view (get w) h = None then Inl ErrNotFound else Inr (), w')" if k: "store_key h"
  proof -
    obtain x where "rel x"
      "b_delete bk h (get w) = (if view (get w) h = None then Inl ErrNotFound else Inr (), x)"
      using ordered_store.delete_reliable [OF assms(1) a k] by blast
    then show ?thesis by (intro exI [of _ "put x w"]) (simp add: lift_state_eq)
  qed
  show "\<exists>w'. rel (get w') \<and> ok (get w') \<and> view (get w') = view (get w) \<and>
      b_list (lift_backend get put bk) cur lim w =
        (let ks = filter (\<lambda>k. cur < k) (sorted_list_of_set (dom (view (get w))));
             page = take (nat lim) ks
         in (Inr \<lparr>page_entries = map (\<lambda>k. \<lparr>e_hash = k,
               e_size = int (length (fst (the (view (get w) k)))),
               e_mod = snd (the (view (get w) k))\<rparr>) page,
               next_cursor = (if nat lim < length ks then last page else [])\<rparr>, w'))"
    if pos: "0 < lim"
  proof -
    obtain x where "rel x" "ok x" "view x = view (get w)" "b_list bk cur lim (get w) =
        (let ks = filter (\<lambda>k. cur < k) (sorted_list_of_set (dom (view (get w))));
             page = take (nat lim) ks
         in (Inr \<lparr>page_entries = map (\<lambda>k. \<lparr>e_hash = k,
               e_size = int (length (fst (the (view (get w) k)))),
               e_mod = snd (the (view (get w) k))\<rparr>) page,
               next_cursor = (if nat lim < length ks then last page else [])\<rparr>, x))"
      using ordered_store.list_reliable [OF assms(1) a pos, of cur] by blast
    then show ?thesis by (intro exI [of _ "put x w"]) (simp add: lift_state_eq Let_def)
  qed
qed

section \<open>The backends of the server and the active one\<close>

datatype backend = BLocal local_dir | BS3 s3 | BGCS gcs

record ('s, 'g) cloud_apis =
  ap_s3 :: "'s s3_api"
  ap_gcs :: "'g gcs_api"

record ('s, 'g) media =
  md_fs :: fs
  md_s3 :: 's
  md_gcs :: 'g

text \<open>\<open>dy_current\<close> is the field \<open>current\<close>; the lock around it makes reading and writing it atomic.\<close>

record ('s, 'g) dynamic =
  dy_current :: backend
  dy_media :: "('s, 'g) media"

definition backend_of :: "('s, 'g) cloud_apis \<Rightarrow> backend \<Rightarrow> ('s, 'g) media backend_if" where
  "backend_of apis b =
     (case b of
        BLocal l \<Rightarrow> lift_backend md_fs (\<lambda>x m. m\<lparr>md_fs := x\<rparr>) (local_backend l)
      | BS3 s \<Rightarrow> lift_backend md_s3 (\<lambda>x m. m\<lparr>md_s3 := x\<rparr>) (s3_backend (ap_s3 apis) s)
      | BGCS g \<Rightarrow> lift_backend md_gcs (\<lambda>x m. m\<lparr>md_gcs := x\<rparr>) (gcs_backend (ap_gcs apis) g))"

definition new_dynamic :: "backend \<Rightarrow> ('s, 'g) media \<Rightarrow> ('s, 'g) dynamic" where
  "new_dynamic initial m = \<lparr>dy_current = initial, dy_media = m\<rparr>"

definition dyn_swap :: "backend \<Rightarrow> ('s, 'g) dynamic \<Rightarrow> ('s, 'g) dynamic" where
  "dyn_swap next_b d = d\<lparr>dy_current := next_b\<rparr>"

definition dyn_active :: "('s, 'g) dynamic \<Rightarrow> backend" where
  "dyn_active d = dy_current d"

text \<open>A call on a backend reference, whatever the current one is by then.\<close>

definition on_media :: "(('s, 'g) media \<Rightarrow> 'r \<times> ('s, 'g) media) \<Rightarrow> ('s, 'g) dynamic \<Rightarrow> 'r \<times> ('s, 'g) dynamic" where
  "on_media f = lift_state dy_media (\<lambda>m d. d\<lparr>dy_media := m\<rparr>) f"

definition dyn_exists where
  "dyn_exists apis h d = on_media (b_exists (backend_of apis (dyn_active d)) h) d"

definition dyn_put where
  "dyn_put apis h r sz d = on_media (b_put (backend_of apis (dyn_active d)) h r sz) d"

definition dyn_get where
  "dyn_get apis h d = on_media (b_get (backend_of apis (dyn_active d)) h) d"

definition dyn_delete where
  "dyn_delete apis h d = on_media (b_delete (backend_of apis (dyn_active d)) h) d"

definition dyn_list where
  "dyn_list apis cur lim d = on_media (b_list (backend_of apis (dyn_active d)) cur lim) d"

definition dyn_backend :: "('s, 'g) cloud_apis \<Rightarrow> ('s, 'g) dynamic backend_if" where
  "dyn_backend apis =
     \<lparr>b_exists = dyn_exists apis, b_put = dyn_put apis, b_get = dyn_get apis,
      b_delete = dyn_delete apis, b_list = dyn_list apis\<rparr>"

section \<open>The contract of the active backend\<close>

text \<open>
  The objects of the two services per client and bucket; every bucket of them behaves as
  documented.
\<close>

record ('s, 'g) cloud_objects =
  co_s3 :: "s3_client \<Rightarrow> string \<Rightarrow> 's objects"
  co_gcs :: "string option \<Rightarrow> string \<Rightarrow> 'g objects"

definition apis_lawful :: "('s, 'g) cloud_apis \<Rightarrow> ('s, 'g) cloud_objects \<Rightarrow> bool" where
  "apis_lawful apis co \<longleftrightarrow>
     (\<forall>s. s3_lawful (ap_s3 apis) s (co_s3 co (s3_cl s) (s3_bucket s))) \<and>
     (\<forall>g. gcs_lawful (ap_gcs apis) g (co_gcs co (gcs_creds g) (gcs_bucket g)))"

definition backend_view :: "('s, 'g) cloud_objects \<Rightarrow> backend \<Rightarrow> ('s, 'g) media \<Rightarrow> blob_view" where
  "backend_view co b m =
     (case b of
        BLocal l \<Rightarrow> local_view l (md_fs m)
      | BS3 s \<Rightarrow> cloud_view (s3_prefix s) (co_s3 co (s3_cl s) (s3_bucket s)) (md_s3 m)
      | BGCS g \<Rightarrow> cloud_view (gcs_prefix g) (co_gcs co (gcs_creds g) (gcs_bucket g)) (md_gcs m))"

definition backend_ok :: "('s, 'g) cloud_objects \<Rightarrow> backend \<Rightarrow> ('s, 'g) media \<Rightarrow> bool" where
  "backend_ok co b m \<longleftrightarrow>
     (case b of
        BLocal l \<Rightarrow> local_ok l (md_fs m)
      | BS3 s \<Rightarrow> cloud_ok (co_s3 co (s3_cl s) (s3_bucket s)) (md_s3 m)
      | BGCS g \<Rightarrow> cloud_ok (co_gcs co (gcs_creds g) (gcs_bucket g)) (md_gcs m))"

definition dyn_view :: "('s, 'g) cloud_objects \<Rightarrow> ('s, 'g) dynamic \<Rightarrow> blob_view" where
  "dyn_view co d = backend_view co (dy_current d) (dy_media d)"

definition dyn_ok :: "('s, 'g) cloud_objects \<Rightarrow> ('s, 'g) dynamic \<Rightarrow> bool" where
  "dyn_ok co d \<longleftrightarrow> backend_ok co (dy_current d) (dy_media d)"

lemma backend_guarded:
  assumes "apis_lawful apis co"
  shows "guarded_store (backend_of apis b) (backend_view co b) (backend_ok co b)"
proof (cases b)
  case (BLocal l)
  have "guarded_store (lift_backend md_fs (\<lambda>x m. m\<lparr>md_fs := x\<rparr>) (local_backend l))
      (\<lambda>m. local_view l (md_fs m)) (\<lambda>m. local_ok l (md_fs m))"
    by (intro lift_guarded_store local_disk.guarded_store_axioms) (simp add: is_lens_def)
  then show ?thesis using BLocal by (simp add: backend_of_def backend_view_def [abs_def] backend_ok_def [abs_def])
next
  case (BS3 s)
  let ?o = "co_s3 co (s3_cl s) (s3_bucket s)"
  have "s3_lawful (ap_s3 apis) s ?o" using assms by (simp add: apis_lawful_def)
  note weak_store.axioms(1) [OF s3_weak_store [OF this]]
  then have "guarded_store (lift_backend md_s3 (\<lambda>x m. m\<lparr>md_s3 := x\<rparr>) (s3_backend (ap_s3 apis) s))
      (\<lambda>m. cloud_view (s3_prefix s) ?o (md_s3 m)) (\<lambda>m. cloud_ok ?o (md_s3 m))"
    by (intro lift_guarded_store) (simp_all add: is_lens_def)
  then show ?thesis using BS3 by (simp add: backend_of_def backend_view_def [abs_def] backend_ok_def [abs_def])
next
  case (BGCS g)
  let ?o = "co_gcs co (gcs_creds g) (gcs_bucket g)"
  have "gcs_lawful (ap_gcs apis) g ?o" using assms by (simp add: apis_lawful_def)
  note gcs_guarded_store [OF this]
  then have "guarded_store (lift_backend md_gcs (\<lambda>x m. m\<lparr>md_gcs := x\<rparr>) (gcs_backend (ap_gcs apis) g))
      (\<lambda>m. cloud_view (gcs_prefix g) ?o (md_gcs m)) (\<lambda>m. cloud_ok ?o (md_gcs m))"
    by (intro lift_guarded_store) (simp_all add: is_lens_def)
  then show ?thesis using BGCS by (simp add: backend_of_def backend_view_def [abs_def] backend_ok_def [abs_def])
qed

text \<open>
  A call through \<open>Dynamic\<close> is the call of the active backend and leaves the reference alone.
\<close>

lemma dyn_backend_simps [simp]:
  "b_exists (dyn_backend apis) h d = on_media (b_exists (backend_of apis (dy_current d)) h) d"
  "b_put (dyn_backend apis) h r sz d = on_media (b_put (backend_of apis (dy_current d)) h r sz) d"
  "b_get (dyn_backend apis) h d = on_media (b_get (backend_of apis (dy_current d)) h) d"
  "b_delete (dyn_backend apis) h d = on_media (b_delete (backend_of apis (dy_current d)) h) d"
  "b_list (dyn_backend apis) cur lim d = on_media (b_list (backend_of apis (dy_current d)) cur lim) d"
  by (simp_all add: dyn_backend_def dyn_exists_def dyn_put_def dyn_get_def dyn_delete_def
      dyn_list_def dyn_active_def)

lemma on_media_eq:
  "on_media f d = (r, d') \<longleftrightarrow> (\<exists>m. f (dy_media d) = (r, m) \<and> d' = d\<lparr>dy_media := m\<rparr>)"
  by (simp add: on_media_def lift_state_eq)

lemma dyn_guarded:
  assumes "apis_lawful apis co"
  shows "guarded_store (dyn_backend apis) (dyn_view co) (dyn_ok co)"
proof (unfold_locales, unfold dyn_backend_simps on_media_eq dyn_view_def dyn_ok_def, goal_cases)
  case (1 d h res d')
  then show ?case using guarded_store.exists_law [OF backend_guarded [OF assms]] by fastforce
next
  case (2 d h r sz res d')
  then show ?case using guarded_store.put_guard [OF backend_guarded [OF assms] 2(1,2)]
    by (elim exE conjE) simp
next
  case (3 d h r sz)
  then show ?case using guarded_store.put_present [OF backend_guarded [OF assms] 3]
    by (simp add: on_media_def)
next
  case (4 d h res d')
  then obtain m where m: "b_get (backend_of apis (dy_current d)) h (dy_media d) = (res, m)"
    "d' = d\<lparr>dy_media := m\<rparr>" by blast
  show ?case using guarded_store.get_law [OF backend_guarded [OF assms] 4(1,2) m(1)] m(2) by simp
next
  case (5 d h res d')
  then obtain m where m: "b_delete (backend_of apis (dy_current d)) h (dy_media d) = (res, m)"
    "d' = d\<lparr>dy_media := m\<rparr>" by blast
  show ?case using guarded_store.delete_law [OF backend_guarded [OF assms] 5(1,2) m(1)]
    by (simp add: m(2) cong: sum.case_cong)
next
  case 6 then show ?case using guarded_store.view_keys [OF backend_guarded [OF assms]] by blast
next
  case 7 then show ?case using guarded_store.view_finite [OF backend_guarded [OF assms]] by blast
qed

text \<open>The services in memory, and the interpretation over them and the real local disk.\<close>

definition mem_apis :: "(mem_bucket, mem_bucket) cloud_apis" where
  "mem_apis = \<lparr>ap_s3 = mem_s3_api, ap_gcs = mem_gcs_api\<rparr>"

definition mem_cloud :: "(mem_bucket, mem_bucket) cloud_objects" where
  "mem_cloud = \<lparr>co_s3 = (\<lambda>_ _. mem_objs), co_gcs = (\<lambda>_ _. mem_objs)\<rparr>"

lemma mem_apis_lawful: "apis_lawful mem_apis mem_cloud"
  by (simp add: apis_lawful_def mem_apis_def mem_cloud_def mem_s3_lawful mem_gcs_lawful)

interpretation dyn_mem: guarded_store "dyn_backend mem_apis" "dyn_view mem_cloud" "dyn_ok mem_cloud"
  by (rule dyn_guarded [OF mem_apis_lawful])

end
