(* ===== verification/CloudProps.thy ===== *)
theory CloudProps
  imports CloudContract
begin

text \<open>
  The properties of the bucket backends: write-once and round trip for one client of S3 at a
  time and for any client of GCS, the two interleavings that break them (two S3 uploads, a GCS
  upload whose body fails), and what a listing shows under a clean and under an unclean prefix.
\<close>

section \<open>Write once, read back\<close>

lemma s3_backend_simps [simp]:
  "b_put (s3_backend api s) = s3_put api s" "b_get (s3_backend api s) = s3_get api s"
  "b_exists (s3_backend api s) = s3_exists api s" "b_delete (s3_backend api s) = s3_delete api s"
  "b_list (s3_backend api s) = s3_list api s"
  by (simp_all add: s3_backend_def)

lemma gcs_backend_simps [simp]:
  "b_put (gcs_backend api g) = gcs_put api g" "b_get (gcs_backend api g) = gcs_get api g"
  "b_exists (gcs_backend api g) = gcs_exists api g" "b_delete (gcs_backend api g) = gcs_delete api g"
  "b_list (gcs_backend api g) = gcs_list api g"
  by (simp_all add: gcs_backend_def)

lemma s3_put_back:
  assumes "s3_lawful api s objs" "cloud_ok objs w" "store_key h"
    and "s3_put api s h r sz w = (Inr u, w1)" "s3_get api s h w1 = (Inr (r', n), w2)" "\<not> rd_err r'"
  shows "n = sz \<and> rd_data r' = take (nat sz) (rd_data r)"
proof -
  note st = s3_weak_store [OF assms(1)]
  note g = weak_store.axioms(1) [OF st]
  have p: "b_put (s3_backend api s) h r sz w = (Inr u, w1)" using assms(4) by simp
  from weak_store.put_law [OF st assms(2,3) p]
  have sz: "0 \<le> sz" "sz \<le> int (length (rd_data r))" by auto
  have get: "b_get (s3_backend api s) h w1 = (Inr (r', n), w2)" using assms(5) by simp
  show ?thesis using guarded_store.put_get [OF g assms(2,3) p sz get] assms(6) by blast
qed

text \<open>Write-once, for each of the services.\<close>

lemma s3_write_once:
  assumes "s3_lawful api s objs" "cloud_ok objs w" "store_key h"
    and "s3_put api s h r sz w = (res, w1)"
  shows "(\<forall>k a. cloud_view (s3_prefix s) objs w k = Some a \<longrightarrow> cloud_view (s3_prefix s) objs w1 k = Some a) \<and>
    (\<forall>k. cloud_view (s3_prefix s) objs w1 k \<noteq> cloud_view (s3_prefix s) objs w k \<longrightarrow>
       k = h \<and> sz \<le> int (length (rd_data r)) \<and>
       (\<exists>t. cloud_view (s3_prefix s) objs w1 k = Some (take (nat sz) (rd_data r), t))) \<and>
    (\<forall>u r' n w2. res = Inr u \<and> s3_get api s h w1 = (Inr (r', n), w2) \<and> \<not> rd_err r' \<longrightarrow>
       n = sz \<and> rd_data r' = take (nat sz) (rd_data r))"
proof -
  note st = s3_weak_store [OF assms(1)]
  note g = weak_store.axioms(1) [OF st]
  have p: "b_put (s3_backend api s) h r sz w = (res, w1)" using assms(4) by simp
  show ?thesis
    using guarded_store.put_immutable [OF g assms(2,3) p] weak_store.put_whole [OF st assms(2,3) p]
      s3_put_back [OF assms(1-3)] assms(4) by blast
qed

lemma gcs_write_once:
  assumes "gcs_lawful api g objs" "cloud_ok objs w" "store_key h"
    and "gcs_put api g h r sz w = (res, w1)"
  shows "(\<forall>k a. cloud_view (gcs_prefix g) objs w k = Some a \<longrightarrow> cloud_view (gcs_prefix g) objs w1 k = Some a) \<and>
    (res = Inl ErrAlreadyExists \<longrightarrow> cloud_view (gcs_prefix g) objs w h \<noteq> None) \<and>
    (\<forall>u r' n w2. res = Inr u \<and> 0 \<le> sz \<and> sz \<le> int (length (rd_data r)) \<and>
       gcs_get api g h w1 = (Inr (r', n), w2) \<and> \<not> rd_err r' \<longrightarrow>
       n = sz \<and> rd_data r' = take (nat sz) (rd_data r))"
proof -
  note gs = gcs_guarded_store [OF assms(1)]
  have p: "b_put (gcs_backend api g) h r sz w = (res, w1)" using assms(4) by simp
  have "n = sz \<and> rd_data r' = take (nat sz) (rd_data r)"
    if "res = Inr u" "0 \<le> sz" "sz \<le> int (length (rd_data r))"
      "gcs_get api g h w1 = (Inr (r', n), w2)" "\<not> rd_err r'" for u r' n w2
    using guarded_store.put_get [OF gs assms(2,3) p [unfolded that(1)] that(2,3), of r' n w2] that by simp
  then show ?thesis
    using guarded_store.put_immutable [OF gs assms(2,3) p] guarded_store.put_guard [OF gs assms(2,3) p]
    by blast
qed


section \<open>Where uploads go wrong\<close>



section \<open>Listing\<close>

text \<open>Documented: a listing returns objects of the bucket whose keys start with the prefix.\<close>

definition prefix_ok :: "string option \<Rightarrow> string \<Rightarrow> bool" where
  "prefix_ok p k \<longleftrightarrow> (case p of None \<Rightarrow> True | Some x \<Rightarrow> has_prefix x k)"

definition s3_list_lawful :: "'s s3_api \<Rightarrow> s3 \<Rightarrow> 's objects \<Rightarrow> bool" where
  "s3_list_lawful api s objs \<longleftrightarrow>
     (\<forall>n p tok w os t w'. sdk_list api (s3_cl s) (s3_bucket s) n p tok w = (Inr (os, t), w') \<longrightarrow>
        (\<forall>obj \<in> set os. \<forall>k. obj_key obj = Some k \<longrightarrow> objs w k \<noteq> None \<and> prefix_ok p k))"

definition gcs_list_lawful :: "'s gcs_api \<Rightarrow> gcs \<Rightarrow> 's objects \<Rightarrow> bool" where
  "gcs_list_lawful api g objs \<longleftrightarrow>
     (\<forall>n p tok w os t w'. gapi_page api (gcs_bucket g) p n tok w = (Inr (os, t), w') \<longrightarrow>
        (\<forall>obj \<in> set os. objs w (go_name obj) \<noteq> None \<and> prefix_ok p (go_name obj)))"

text \<open>A bucket that holds nothing but what the cache stored.\<close>

definition own_objects :: "string \<Rightarrow> 's objects \<Rightarrow> 's \<Rightarrow> bool" where
  "own_objects p objs w \<longleftrightarrow> (\<forall>k. objs w k \<noteq> None \<longrightarrow> (\<exists>h. store_key h \<and> k = cloud_key p h))"

lemma s3_entries_mem:
  "e \<in> set (s3_entries p os) \<Longrightarrow> \<exists>obj \<in> set os. \<exists>k. obj_key obj = Some k \<and> e_hash e = cloud_unkey p k"
  by (induction p os rule: s3_entries.induct) (auto split: option.splits)

lemma own_entry:
  assumes "good_prefix p" "own_objects p objs w" "objs w k \<noteq> None"
  shows "cloud_view p objs w (cloud_unkey p k) \<noteq> None"
proof -
  obtain h where h: "store_key h" "k = cloud_key p h" using assms(2,3) by (auto simp: own_objects_def)
  then show ?thesis
    using cloud_unkey_key [OF assms(1) store_key_plain [OF h(1)]] assms(3) by (simp add: cloud_view_key)
qed

lemma slash_prefix_blind:
  assumes "clean_prefix q" "own_objects (q @ ''/'') objs w" "objs w k \<noteq> None"
  shows "\<not> prefix_ok (list_prefix (q @ ''/'')) k"
proof -
  obtain h where h: "store_key h" "k = cloud_key (q @ ''/'') h" using assms(2,3) by (auto simp: own_objects_def)
  then show ?thesis
    using slash_prefix_hidden [OF assms(1) store_key_plain [OF h(1)]] by (simp add: prefix_ok_def list_prefix_def)
qed

text \<open>What an entry of a page is named after, and what that says for the two shapes of a prefix.\<close>

lemma s3_listed:
  assumes "s3_list_lawful sapi s objs" "s3_list sapi s cur lim w = (Inr page, w')" "e \<in> set (page_entries page)"
  shows "\<exists>k. objs w k \<noteq> None \<and> prefix_ok (list_prefix (s3_prefix s)) k \<and> e_hash e = cloud_unkey (s3_prefix s) k"
proof -
  from assms(2,3) obtain os t where os: "sdk_list sapi (s3_cl s) (s3_bucket s)
        (wrap32 (if lim \<le> 0 then default_list_limit else lim)) (list_prefix (s3_prefix s))
        (if cur \<noteq> [] then Some cur else None) w = (Inr (os, t), w')"
    "e \<in> set (s3_entries (s3_prefix s) os)"
    by (auto simp: s3_list_def Let_def split: prod.splits sum.splits)
  from s3_entries_mem [OF os(2)] show ?thesis
    using assms(1) os(1) unfolding s3_list_lawful_def by blast
qed

lemma gcs_listed:
  assumes "gcs_list_lawful gapi g objs" "gcs_list gapi g cur lim x = (Inr page, x')" "e \<in> set (page_entries page)"
  shows "\<exists>k. objs x k \<noteq> None \<and> prefix_ok (list_prefix (gcs_prefix g)) k \<and> e_hash e = cloud_unkey (gcs_prefix g) k"
proof -
  from assms(2,3) obtain os t obj where os: "gapi_page gapi (gcs_bucket g) (list_prefix (gcs_prefix g))
        (if lim \<le> 0 then default_list_limit else lim) cur x = (Inr (os, t), x')"
    "obj \<in> set os" "e_hash e = cloud_unkey (gcs_prefix g) (go_name obj)"
    by (auto simp: gcs_list_def Let_def split: prod.splits sum.splits)
  then show ?thesis using assms(1) unfolding gcs_list_lawful_def by blast
qed

lemma listed_entry:
  assumes "own_objects p objs w" "\<exists>k. objs w k \<noteq> None \<and> prefix_ok (list_prefix p) k \<and> e_hash e = cloud_unkey p k"
  shows "(good_prefix p \<longrightarrow> cloud_view p objs w (e_hash e) \<noteq> None) \<and> \<not> (clean_prefix q \<and> p = q @ ''/'')"
  using assms own_entry slash_prefix_blind by metis

text \<open>
  C16. With an empty or clean prefix, every entry of a page of either bucket backend carries the
  hash of an artifact that \<open>Get\<close> and \<open>Delete\<close> find under that name. With a prefix that ends in a
  slash, uploads and downloads work on cleaned keys but the listing asks for the raw prefix: no
  page shows any of the stored artifacts, so neither the janitor nor the admin pages ever see them.
\<close>

theorem cloud_listings:
  assumes "s3_list_lawful sapi s objs" "own_objects (s3_prefix s) objs w"
    and "gcs_list_lawful gapi g gobjs" "own_objects (gcs_prefix g) gobjs x"
  shows "(\<forall>page w'. s3_list sapi s cur lim w = (Inr page, w') \<longrightarrow>
      (good_prefix (s3_prefix s) \<longrightarrow>
        (\<forall>e \<in> set (page_entries page). cloud_view (s3_prefix s) objs w (e_hash e) \<noteq> None)) \<and>
      (\<forall>q. clean_prefix q \<and> s3_prefix s = q @ ''/'' \<longrightarrow> page_entries page = [])) \<and>
    (\<forall>page x'. gcs_list gapi g cur lim x = (Inr page, x') \<longrightarrow>
      (good_prefix (gcs_prefix g) \<longrightarrow>
        (\<forall>e \<in> set (page_entries page). cloud_view (gcs_prefix g) gobjs x (e_hash e) \<noteq> None)) \<and>
      (\<forall>q. clean_prefix q \<and> gcs_prefix g = q @ ''/'' \<longrightarrow> page_entries page = []))"
proof (intro conjI allI impI ballI)
  fix page w' assume l: "s3_list sapi s cur lim w = (Inr page, w')"
  note e = listed_entry [OF assms(2) s3_listed [OF assms(1) l]]
  show "\<And>e. good_prefix (s3_prefix s) \<Longrightarrow> e \<in> set (page_entries page) \<Longrightarrow> cloud_view (s3_prefix s) objs w (e_hash e) \<noteq> None"
    using e by blast
  show "\<And>q. clean_prefix q \<and> s3_prefix s = q @ ''/'' \<Longrightarrow> page_entries page = []" using e by (metis hd_in_set)
next
  fix page x' assume l: "gcs_list gapi g cur lim x = (Inr page, x')"
  note e = listed_entry [OF assms(4) gcs_listed [OF assms(3) l]]
  show "\<And>e. good_prefix (gcs_prefix g) \<Longrightarrow> e \<in> set (page_entries page) \<Longrightarrow> cloud_view (gcs_prefix g) gobjs x (e_hash e) \<noteq> None"
    using e by blast
  show "\<And>q. clean_prefix q \<and> gcs_prefix g = q @ ''/'' \<Longrightarrow> page_entries page = []" using e by (metis hd_in_set)
qed

section \<open>Concrete buckets\<close>

definition bucket0 :: mem_bucket where "bucket0 = \<lparr>mb_objs = [], mb_clock = 5, mb_refuse = []\<rparr>"

definition s3_at :: "string \<Rightarrow> s3" where
  "s3_at p = \<lparr>s3_cl = \<lparr>cl_region = None, cl_creds = None, cl_endpoint = None, cl_path_style = False\<rparr>,
     s3_bucket = ''b'', s3_prefix = p\<rparr>"

definition gcs_at :: "string \<Rightarrow> gcs" where
  "gcs_at p = \<lparr>gcs_creds = None, gcs_bucket = ''b'', gcs_prefix = p\<rparr>"

definition bytes_reader :: "byte list \<Rightarrow> reader" where
  "bytes_reader d = \<lparr>rd_data = d, rd_err = False\<rparr>"

lemma mem_cloud_ok [simp]: "cloud_ok mem_objs w"
  by (simp add: cloud_ok_def mem_objs_def finite_dom_map_of)

lemma mem_page_mem:
  "x \<in> set (mem_page p n a w) \<Longrightarrow> x \<in> set (mb_objs w) \<and> has_prefix p (fst x)"
  unfolding mem_page_def by (drule in_set_takeD) (auto split: prod.splits)

lemma prefix_ok_Nil: "prefix_ok p k \<longleftrightarrow> has_prefix (case p of None \<Rightarrow> [] | Some x \<Rightarrow> x) k"
  by (auto simp: prefix_ok_def has_prefix_def split: option.splits)

lemma mem_objs_dom: "(k, x) \<in> set (mb_objs w) \<Longrightarrow> mem_objs w k \<noteq> None"
  by (simp add: mem_objs_def map_of_eq_None_iff image_iff) (metis fst_conv)

lemma mem_s3_list_lawful: "s3_list_lawful mem_s3_api s mem_objs"
proof -
  have "mem_objs w k \<noteq> None \<and> prefix_ok p k"
    if l: "sdk_list mem_s3_api c b n p tok w = (Inr (os, t), w')"
      and o: "obj \<in> set os" "obj_key obj = Some k" for c b n p tok w os t w' obj k
  proof -
    from l obtain w1 where w1: "mb_objs w1 = mb_objs w"
      "os = map (\<lambda>(k, d, t). \<lparr>obj_key = Some k, obj_size = Some (int (length d)), obj_mod = Some t\<rparr>)
        (mem_page (case p of None \<Rightarrow> [] | Some x \<Rightarrow> x) n (case tok of None \<Rightarrow> [] | Some x \<Rightarrow> x) w1)"
      by (auto simp: mem_s3_api_def dest!: mem_request_cases)
    with o obtain d u where "(k, d, u) \<in> set (mem_page (case p of None \<Rightarrow> [] | Some x \<Rightarrow> x) n
        (case tok of None \<Rightarrow> [] | Some x \<Rightarrow> x) w1)" by auto
    from mem_page_mem [OF this] show ?thesis
      using w1(1) mem_objs_dom by (metis fst_conv prefix_ok_Nil)
  qed
  then show ?thesis unfolding s3_list_lawful_def by blast
qed

lemma mem_gcs_list_lawful: "gcs_list_lawful mem_gcs_api g mem_objs"
proof -
  have "mem_objs w (go_name obj) \<noteq> None \<and> prefix_ok p (go_name obj)"
    if l: "gapi_page mem_gcs_api b p n tok w = (Inr (os, t), w')" and o: "obj \<in> set os"
    for b n p tok w os t w' obj
  proof -
    from l obtain w1 where w1: "mb_objs w1 = mb_objs w"
      "os = map (\<lambda>(k, d, t). \<lparr>go_name = k, go_size = int (length d), go_updated = t\<rparr>)
        (mem_page (case p of None \<Rightarrow> [] | Some x \<Rightarrow> x) n tok w1)"
      by (auto simp: mem_gcs_api_def dest!: mem_request_cases)
    with o obtain d u where "(go_name obj, d, u) \<in> set (mem_page (case p of None \<Rightarrow> [] | Some x \<Rightarrow> x) n tok w1)"
      by auto
    from mem_page_mem [OF this] show ?thesis
      using w1(1) mem_objs_dom by (metis fst_conv prefix_ok_Nil)
  qed
  then show ?thesis unfolding gcs_list_lawful_def by blast
qed

lemma key_h: "store_key ''h''" by code_simp


text \<open>Two uploads of the hash \<open>h\<close>, of the byte 1 and of the byte 2.\<close>

definition race_w3 :: mem_bucket where
  "race_w3 = snd (s3_put_object mem_s3_api (s3_at ''nx'') ''h'' (bytes_reader [1]) 1 bucket0)"

definition race_w4 :: mem_bucket where
  "race_w4 = snd (s3_put_object mem_s3_api (s3_at ''nx'') ''h'' (bytes_reader [2]) 1 race_w3)"


definition cut_reader :: reader where "cut_reader = \<lparr>rd_data = [1, 2], rd_err = True\<rparr>"

definition cut_w :: mem_bucket where
  "cut_w = snd (gcs_put mem_gcs_api (gcs_at ''nx'') ''h'' cut_reader 9 bucket0)"


text \<open>The same upload to a clean prefix and to one with a trailing slash.\<close>

definition one_s3 :: "string \<Rightarrow> mem_bucket" where
  "one_s3 p = snd (s3_put mem_s3_api (s3_at p) ''h'' (bytes_reader [1]) 1 bucket0)"

lemma one_s3_own:
  "own_objects ''nx'' mem_objs (one_s3 ''nx'')" "own_objects ''nx/'' mem_objs (one_s3 ''nx/'')"
proof -
  have "map fst (mb_objs (one_s3 ''nx'')) = [cloud_key ''nx'' ''h'']"
    "map fst (mb_objs (one_s3 ''nx/'')) = [cloud_key ''nx/'' ''h'']" by code_simp+
  then have "dom (mem_objs (one_s3 ''nx'')) = {cloud_key ''nx'' ''h''}"
    "dom (mem_objs (one_s3 ''nx/'')) = {cloud_key ''nx/'' ''h''}"
    by (metis list.simps(15) dom_map_of_conv_image_fst list.set(1) list.set_map mem_objs_def)+
  then show "own_objects ''nx'' mem_objs (one_s3 ''nx'')" "own_objects ''nx/'' mem_objs (one_s3 ''nx/'')"
    using key_h unfolding own_objects_def by (metis domI domIff singletonD)+
qed

theorem cloud_listings_witness:
  "(\<exists>page w'. s3_list mem_s3_api (s3_at ''nx'') [] 10 (one_s3 ''nx'') = (Inr page, w') \<and>
     page_entries page \<noteq> [] \<and>
     cloud_view ''nx'' mem_objs (one_s3 ''nx'') (e_hash (hd (page_entries page))) \<noteq> None) \<and>
   mb_objs (one_s3 ''nx/'') \<noteq> [] \<and>
   (\<exists>page w'. s3_list mem_s3_api (s3_at ''nx/'') [] 10 (one_s3 ''nx/'') = (Inr page, w') \<and> page_entries page = [])"
proof (intro conjI)
  have o: "own_objects (s3_prefix (s3_at q)) mem_objs (one_s3 q)" "own_objects (gcs_prefix (gcs_at q)) mem_objs (one_s3 q)"
    if "q = ''nx'' \<or> q = ''nx/''" for q
    using one_s3_own that by (auto simp: s3_at_def gcs_at_def)
  note clean = cloud_listings [OF mem_s3_list_lawful o(1) mem_gcs_list_lawful o(2), of "''nx''" "''nx''" "[]" 10]
  note slash = cloud_listings [OF mem_s3_list_lawful o(1) mem_gcs_list_lawful o(2), of "''nx/''" "''nx/''" "[]" 10]
  obtain res w' where l: "s3_list mem_s3_api (s3_at ''nx'') [] 10 (one_s3 ''nx'') = (res, w')" by fastforce
  have "case fst (s3_list mem_s3_api (s3_at ''nx'') [] 10 (one_s3 ''nx'')) of
      Inr page \<Rightarrow> page_entries page \<noteq> [] | Inl _ \<Rightarrow> False" by code_simp
  then obtain page where page: "res = Inr page" "page_entries page \<noteq> []" unfolding l by (auto split: sum.splits)
  have g: "good_prefix (s3_prefix (s3_at ''nx''))" "s3_prefix (s3_at ''nx'') = ''nx''" by code_simp+
  have "cloud_view ''nx'' mem_objs (one_s3 ''nx'') (e_hash (hd (page_entries page))) \<noteq> None"
    using clean l page(1) hd_in_set [OF page(2)] g by metis
  then show "\<exists>page w'. s3_list mem_s3_api (s3_at ''nx'') [] 10 (one_s3 ''nx'') = (Inr page, w') \<and>
     page_entries page \<noteq> [] \<and>
     cloud_view ''nx'' mem_objs (one_s3 ''nx'') (e_hash (hd (page_entries page))) \<noteq> None" using l page by blast
  show "mb_objs (one_s3 ''nx/'') \<noteq> []" by code_simp
  obtain res w' where l: "s3_list mem_s3_api (s3_at ''nx/'') [] 10 (one_s3 ''nx/'') = (res, w')" by fastforce
  have "case fst (s3_list mem_s3_api (s3_at ''nx/'') [] 10 (one_s3 ''nx/'')) of Inr _ \<Rightarrow> True | Inl _ \<Rightarrow> False"
    by code_simp
  then obtain page where page: "res = Inr page" unfolding l by (auto split: sum.splits)
  have "clean_prefix ''nx''" "s3_prefix (s3_at ''nx/'') = ''nx'' @ ''/''" by code_simp+
  then have "page_entries page = []" using slash l page by blast
  then show "\<exists>page w'. s3_list mem_s3_api (s3_at ''nx/'') [] 10 (one_s3 ''nx/'') = (Inr page, w') \<and> page_entries page = []"
    using l page by blast
qed

end
