(* ===== verification/CacheWorld.thy ===== *)
theory CacheWorld
  imports CacheServer Dynamic CloudProps
begin

text \<open>
  The cache server as \<open>cmd/server\<close> wires it: the swappable backend over the media, and Postgres
  for tokens and read statistics. Interpreting the interfaces of the server on this world gives
  the properties of the protocol for all three kinds of backend.
\<close>

section \<open>The world\<close>

record ('s, 'g) world =
  w_dyn :: "('s, 'g) dynamic"
  w_pg :: pg

definition on_dyn :: "(('s, 'g) dynamic \<Rightarrow> 'r \<times> ('s, 'g) dynamic) \<Rightarrow> ('s, 'g) world \<Rightarrow> 'r \<times> ('s, 'g) world" where
  "on_dyn f = lift_state w_dyn (\<lambda>d w. w\<lparr>w_dyn := d\<rparr>) f"

definition on_pg :: "(pg \<Rightarrow> 'r \<times> pg) \<Rightarrow> ('s, 'g) world \<Rightarrow> 'r \<times> ('s, 'g) world" where
  "on_pg f = lift_state w_pg (\<lambda>p w. w\<lparr>w_pg := p\<rparr>) f"

definition world_backend :: "('s, 'g) cloud_apis \<Rightarrow> ('s, 'g) world backend_if" where
  "world_backend apis = lift_backend w_dyn (\<lambda>d w. w\<lparr>w_dyn := d\<rparr>) (dyn_backend apis)"

definition world_authn :: "('s, 'g) world authn_if" where
  "world_authn = \<lparr>a_authenticate = (\<lambda>now h. on_pg (authenticate now h))\<rparr>"

definition world_reads :: "('s, 'g) world reads_if" where
  "world_reads = \<lparr>r_record = (\<lambda>now h. on_pg (record_cache_read now h))\<rparr>"

definition world_view :: "('s, 'g) cloud_objects \<Rightarrow> ('s, 'g) world \<Rightarrow> blob_view" where
  "world_view co w = dyn_view co (w_dyn w)"

definition world_ok :: "('s, 'g) cloud_objects \<Rightarrow> ('s, 'g) world \<Rightarrow> bool" where
  "world_ok co w \<longleftrightarrow> dyn_ok co (w_dyn w)"

definition world_grant :: "('s, 'g) world \<Rightarrow> string \<Rightarrow> string option" where
  "world_grant w = pg_grant (w_pg w)"

definition world_deps :: "('s, 'g) cloud_apis \<Rightarrow> (string \<Rightarrow> string) \<Rightarrow> ('s, 'g) world cache_deps" where
  "world_deps apis sha = server_deps (world_backend apis) world_authn world_reads sha"

lemma on_pg_eq: "on_pg f w = (r, w') \<longleftrightarrow> (\<exists>p. f (w_pg w) = (r, p) \<and> w' = w\<lparr>w_pg := p\<rparr>)"
  by (simp add: on_pg_def lift_state_eq)

lemma on_dyn_eq: "on_dyn f w = (r, w') \<longleftrightarrow> (\<exists>d. f (w_dyn w) = (r, d) \<and> w' = w\<lparr>w_dyn := d\<rparr>)"
  by (simp add: on_dyn_def lift_state_eq)

lemma record_grant:
  assumes "record_cache_read now h p = (res, p')"
  shows "pg_grant p' = pg_grant p"
proof -
  obtain r where "pg_call (q_record_cache_read now h) p = (r, p')"
    using assms by (auto simp: record_cache_read_def map_prod_id_eq)
  from pg_call_cases [OF this] show ?thesis
    by (auto simp: q_record_cache_read_def pg_grant_def fun_eq_iff split: option.splits if_splits)
qed

lemma world_cache:
  assumes "apis_lawful apis co"
  shows "cache_world (world_backend apis) (world_view co) (world_ok co) world_authn world_grant world_reads"
proof (intro cache_world.intro cache_world_axioms.intro)
  show "guarded_store (world_backend apis) (world_view co) (world_ok co)"
    unfolding world_backend_def world_view_def [abs_def] world_ok_def [abs_def]
    by (intro lift_guarded_store dyn_guarded [OF assms]) (simp add: is_lens_def)
  show "token_authenticator world_authn world_grant"
  proof (unfold_locales)
    fix now h w res w' assume "a_authenticate world_authn now h w = (res, w')"
    then obtain p where p: "authenticate now h (w_pg w) = (res, p)" "w' = w\<lparr>w_pg := p\<rparr>"
      by (auto simp: world_authn_def on_pg_eq)
    show "world_grant w' = world_grant w \<and>
        (case res of Inl e \<Rightarrow> e = StNotFound \<longrightarrow> world_grant w h = None
         | Inr t \<Rightarrow> world_grant w h = Some (tok_scope t))"
      using authenticate_law [OF p(1)] by (simp add: p(2) world_grant_def [abs_def] cong: sum.case_cong)
  qed
qed (auto simp: world_authn_def world_reads_def on_pg_eq world_view_def world_ok_def
      world_grant_def world_backend_def lift_state_eq record_grant)

interpretation mem_world: cache_world "world_backend mem_apis" "world_view mem_cloud" "world_ok mem_cloud"
  world_authn world_grant world_reads
  by (rule world_cache [OF mem_apis_lawful])

section \<open>The protocol\<close>


text \<open>
  C3. A request changes what is stored only if it is an upload with a valid hash and a
  token of scope \<open>write\<close> that is not revoked, of an announced length between one byte and the
  limit, to a hash that is not stored yet; a refusal (400, 401, 403, 409, 411, 413) changes
  nothing, and a 409 means the hash is stored.
\<close>

theorem cache_put_authorized:
  assumes "apis_lawful apis co" "world_ok co (cs_world s)" "handle_put (world_deps apis sha) q s = (r, s1)"
  shows "(\<forall>k. world_view co (cs_world s1) k \<noteq> world_view co (cs_world s) k \<longrightarrow>
      k = cq_hash q \<and> valid_hash k \<and> may_use world_grant sha (cs_world s) q ScopeWrite \<and>
      0 < cq_len q \<and> cq_len q \<le> cs_max s \<and> world_view co (cs_world s) k = None) \<and>
    (rs_status r \<in> {400, 401, 403, 411, 413, 409} \<longrightarrow> world_view co (cs_world s1) = world_view co (cs_world s)) \<and>
    (rs_status r = 409 \<longrightarrow> world_view co (cs_world s) (cq_hash q) \<noteq> None)"
proof -
  note e = cache_world.put_effect [OF world_cache [OF assms(1)] assms(3) [unfolded world_deps_def] assms(2)]
  show ?thesis
  proof (intro conjI allI impI)
    fix k assume "world_view co (cs_world s1) k \<noteq> world_view co (cs_world s) k"
    then show "k = cq_hash q" "valid_hash k" "may_use world_grant sha (cs_world s) q ScopeWrite"
      "0 < cq_len q" "cq_len q \<le> cs_max s" "world_view co (cs_world s) k = None"
      using e by metis+
  qed (use e in blast)+
qed

text \<open>
  C11. A download changes nothing that is stored or granted. A 200 goes out only to a
  live token and carries the stored bytes and their length; 404 means the hash is not stored,
  401 that the token is missing, unknown or revoked, and no other status occurs.
\<close>

theorem cache_get_answers:
  assumes "apis_lawful apis co" "world_ok co (cs_world s)" "handle_get (world_deps apis sha) q s = (r, s1)"
  shows "world_view co (cs_world s1) = world_view co (cs_world s) \<and>
    (rs_status r = 200 \<longrightarrow> may_use world_grant sha (cs_world s) q ScopeRead \<and>
      (\<exists>d t b. world_view co (cs_world s) (cq_hash q) = Some (d, t) \<and> rs_body r = Octets b \<and>
         (if rs_cut r then \<exists>k. b = take k d else b = d) \<and>
         (d \<noteq> [] \<longrightarrow> (''Content-Length'', format_int (int (length d))) \<in> set (rs_headers r)))) \<and>
    (rs_status r = 404 \<longrightarrow> world_view co (cs_world s) (cq_hash q) = None) \<and>
    (rs_status r = 401 \<longrightarrow> \<not> may_use world_grant sha (cs_world s) q ScopeRead) \<and>
    rs_status r \<in> {200, 400, 401, 404, 500}"
proof -
  note g = cache_world.get_answers [OF world_cache [OF assms(1)] assms(3) [unfolded world_deps_def] assms(2)]
  note f = cache_world.get_frame_srv [OF world_cache [OF assms(1)] assms(3) [unfolded world_deps_def] assms(2)]
  show ?thesis using f g by blast
qed

section \<open>A concrete server\<close>

definition disk0 :: fs where
  "disk0 = \<lparr>fs_names = [((False, [''c'']), DirNode)], fs_inodes = [], fs_next = 0,
              fs_rands = [7, 8], fs_io = [], fs_clock = 5, fs_dirsize = 4096\<rparr>"

text \<open>Hash functions of the examples: the identity in place of SHA-256.\<close>

definition toy_sha :: "string \<Rightarrow> string" where "toy_sha s = s"

definition pg_write_token :: pg where
  "pg_write_token = snd (create_token 2 ''ci'' ''write'' (hash_token toy_sha ''t'') 1 pg_one_user)"

definition srv0 :: "(mem_bucket, mem_bucket) world cache_srv" where
  "srv0 = new_server \<lparr>w_dyn = new_dynamic (BLocal \<lparr>l_dir = ''c''\<rparr>) \<lparr>md_fs = disk0, md_s3 = bucket0, md_gcs = bucket0\<rparr>,
            w_pg = pg_write_token\<rparr> 100"

definition put_req :: cache_req where
  "put_req = \<lparr>cq_hash = ''h'', cq_auth = ''Bearer t'', cq_body = \<lparr>rd_data = [1, 2, 3], rd_err = False\<rparr>,
     cq_len = 3, cq_now = 9\<rparr>"

lemma srv0_ok: "world_ok mem_cloud (cs_world srv0)"
proof -
  have "local_ok \<lparr>l_dir = ''c''\<rparr> disk0" by code_simp
  then show ?thesis
    by (simp add: world_ok_def dyn_ok_def backend_ok_def srv0_def new_server_def new_dynamic_def)
qed

definition srv1 :: "(mem_bucket, mem_bucket) world cache_srv" where
  "srv1 = snd (handle_put (world_deps mem_apis toy_sha) put_req srv0)"

lemma srv1_put: "handle_put (world_deps mem_apis toy_sha) put_req srv0 = (plain_response 200, srv1)"
proof -
  have "fst (handle_put (world_deps mem_apis toy_sha) put_req srv0) = plain_response 200" by code_simp
  then show ?thesis by (simp add: srv1_def prod_eq_iff)
qed

lemma srv0_may: "may_use world_grant toy_sha (cs_world srv0) put_req ScopeRead"
  "may_use world_grant toy_sha (cs_world srv0) put_req ScopeWrite"
  by code_simp+


theorem cache_put_authorized_witness:
  "world_view mem_cloud (cs_world srv1) ''h'' \<noteq> world_view mem_cloud (cs_world srv0) ''h'' \<and>
   may_use world_grant toy_sha (cs_world srv0) put_req ScopeWrite \<and> cq_len put_req \<le> cs_max srv0"
proof -
  have "map_option fst (world_view mem_cloud (cs_world srv1) ''h'') = Some [1, 2, 3]"
    "map_option fst (world_view mem_cloud (cs_world srv0) ''h'') = None" by code_simp+
  then have "world_view mem_cloud (cs_world srv1) ''h'' \<noteq> world_view mem_cloud (cs_world srv0) ''h''" by auto
  then show ?thesis using cache_put_authorized [OF mem_apis_lawful srv0_ok srv1_put] by blast
qed

theorem cache_get_answers_witness:
  "\<exists>d t b. world_view mem_cloud (cs_world srv0) ''h'' = None \<and>
     rs_status (fst (handle_get (world_deps mem_apis toy_sha) put_req srv0)) = 404 \<and>
     world_view mem_cloud (cs_world srv1) ''h'' = Some (d, t) \<and>
     rs_body (fst (handle_get (world_deps mem_apis toy_sha) put_req srv1)) = Octets b \<and> b = d"
proof -
  obtain r s where g: "handle_get (world_deps mem_apis toy_sha) put_req srv0 = (r, s)" by fastforce
  obtain r1 s1 where g1: "handle_get (world_deps mem_apis toy_sha) put_req srv1 = (r1, s1)" by fastforce
  have "rs_status (fst (handle_get (world_deps mem_apis toy_sha) put_req srv0)) = 404" by code_simp
  then have st: "rs_status r = 404" using g by simp
  have "rs_status (fst (handle_get (world_deps mem_apis toy_sha) put_req srv1)) = 200"
    "\<not> rs_cut (fst (handle_get (world_deps mem_apis toy_sha) put_req srv1))" by code_simp+
  then have st1: "rs_status r1 = 200" "\<not> rs_cut r1" using g1 by simp_all
  have "world_ok mem_cloud (cs_world srv1)"
    using cache_world.put_effect [OF world_cache [OF mem_apis_lawful] srv1_put [unfolded world_deps_def] srv0_ok] by blast
  note a1 = cache_get_answers [OF mem_apis_lawful this g1]
  have h: "cq_hash put_req = ''h''" by (simp add: put_req_def)
  show ?thesis
    using cache_get_answers [OF mem_apis_lawful srv0_ok g] a1 g g1 st st1 unfolding h by auto
qed

end
