(* ===== verification/Settings.thy ===== *)
theory Settings
  imports Session CacheWorld
begin

text \<open>
  Runtime settings, \<open>internal/settings\<close>: encryption of the stored secrets, loading, and applying a
  change from the admin UI to the live server. The state is the whole server, since \<open>Apply\<close> swaps
  the backend and sets the session lifetime and the size limit: one record \<open>app\<close> holds the world,
  the two atomics, the pending tasks and the settings in memory. AES-GCM is an argument.
\<close>

section \<open>crypto.go\<close>

text \<open>\<open>Seal\<close> and \<open>Open\<close> of AES-256-GCM by key, nonce and text.\<close>

record cipher =
  ci_seal :: "string \<Rightarrow> string \<Rightarrow> string \<Rightarrow> string"
  ci_open :: "string \<Rightarrow> string \<Rightarrow> string \<Rightarrow> string option"

definition nonce_size :: nat where "nonce_size = 12"

record encryptor =
  en_key :: string

datatype key_err = KeyDecode | KeyLength nat

definition new_encryptor :: "string \<Rightarrow> key_err + encryptor" where
  "new_encryptor base64_key =
     (case b64_std_decode base64_key of
        None \<Rightarrow> Inl KeyDecode
      | Some key \<Rightarrow> (if length key \<noteq> 32 then Inl (KeyLength (length key)) else Inr \<lparr>en_key = key\<rparr>))"

definition encrypt :: "cipher \<Rightarrow> encryptor \<Rightarrow> string option \<Rightarrow> string \<Rightarrow> string option" where
  "encrypt ci e rnd plaintext =
     (case rnd of
        None \<Rightarrow> None
      | Some nonce \<Rightarrow> Some (b64_std_encode (nonce @ ci_seal ci (en_key e) nonce plaintext)))"

definition decrypt :: "cipher \<Rightarrow> encryptor \<Rightarrow> string \<Rightarrow> string option" where
  "decrypt ci e blob =
     (case b64_std_decode blob of
        None \<Rightarrow> None
      | Some data \<Rightarrow>
          (if length data < nonce_size then None
           else ci_open ci (en_key e) (take nonce_size data) (drop nonce_size data)))"

section \<open>The settings in memory and in the store\<close>

record settings =
  se_backend :: string
  se_local_dir :: string
  se_s3_bucket :: string
  se_s3_region :: string
  se_s3_prefix :: string
  se_s3_endpoint :: string
  se_s3_path_style :: bool
  se_s3_key :: string
  se_s3_key_set :: bool
  se_s3_secret :: string
  se_s3_secret_set :: bool
  se_gcs_bucket :: string
  se_gcs_prefix :: string
  se_gcs_creds :: string
  se_gcs_creds_set :: bool
  se_ttl :: duration
  se_max :: int
  se_updated_at :: time
  se_updated_by :: "int option"

definition redacted :: "settings \<Rightarrow> settings" where
  "redacted s = s\<lparr>se_s3_key := [], se_s3_secret := [], se_gcs_creds := []\<rparr>"

text \<open>A request to change them; for a secret \<open>None\<close> keeps it and \<open>Some []\<close> clears it.\<close>

record apply_input =
  in_backend :: string
  in_local_dir :: string
  in_s3_bucket :: string
  in_s3_region :: string
  in_s3_prefix :: string
  in_s3_endpoint :: string
  in_s3_path_style :: bool
  in_s3_key :: "string option"
  in_s3_secret :: "string option"
  in_gcs_bucket :: string
  in_gcs_prefix :: string
  in_gcs_creds :: "string option"
  in_ttl :: duration
  in_max :: int
  in_updated_by :: int

definition zero_settings :: settings where
  "zero_settings = \<lparr>se_backend = [], se_local_dir = [], se_s3_bucket = [], se_s3_region = [], se_s3_prefix = [],
     se_s3_endpoint = [], se_s3_path_style = False, se_s3_key = [], se_s3_key_set = False, se_s3_secret = [],
     se_s3_secret_set = False, se_gcs_bucket = [], se_gcs_prefix = [], se_gcs_creds = [], se_gcs_creds_set = False,
     se_ttl = 0, se_max = 0, se_updated_at = zero_time, se_updated_by = None\<rparr>"

text \<open>One optional encrypted column: the plaintext and whether the column is set.\<close>

definition decrypt_field :: "cipher \<Rightarrow> encryptor \<Rightarrow> string option \<Rightarrow> (string \<times> bool) option" where
  "decrypt_field ci e col =
     (case col of None \<Rightarrow> Some ([], False) | Some blob \<Rightarrow> map_option (\<lambda>pt. (pt, True)) (decrypt ci e blob))"

definition decrypt_settings :: "cipher \<Rightarrow> encryptor \<Rightarrow> app_settings \<Rightarrow> settings option" where
  "decrypt_settings ci e raw =
     (case decrypt_field ci e (as_s3_key_enc raw) of
        None \<Rightarrow> None
      | Some (key, key_set) \<Rightarrow>
          (case decrypt_field ci e (as_s3_secret_enc raw) of
             None \<Rightarrow> None
           | Some (secret, secret_set) \<Rightarrow>
               (case decrypt_field ci e (as_gcs_creds_enc raw) of
                  None \<Rightarrow> None
                | Some (creds, creds_set) \<Rightarrow>
                    Some \<lparr>se_backend = as_backend raw, se_local_dir = as_local_dir raw,
                      se_s3_bucket = as_s3_bucket raw, se_s3_region = as_s3_region raw,
                      se_s3_prefix = as_s3_prefix raw, se_s3_endpoint = as_s3_endpoint raw,
                      se_s3_path_style = as_s3_path_style raw, se_s3_key = key, se_s3_key_set = key_set,
                      se_s3_secret = secret, se_s3_secret_set = secret_set,
                      se_gcs_bucket = as_gcs_bucket raw, se_gcs_prefix = as_gcs_prefix raw,
                      se_gcs_creds = creds, se_gcs_creds_set = creds_set,
                      se_ttl = dur_mul (as_ttl_seconds raw) nano_second, se_max = as_max_bytes raw,
                      se_updated_at = as_updated_at raw, se_updated_by = as_updated_by raw\<rparr>)))"

definition encrypt_field :: "cipher \<Rightarrow> encryptor \<Rightarrow> string option \<Rightarrow> string \<Rightarrow> string option option" where
  "encrypt_field ci e rnd v = (if v \<noteq> [] then map_option Some (encrypt ci e rnd v) else Some None)"

text \<open>The three draws are the nonces of the three secrets, where one is encrypted.\<close>

definition encrypt_for_storage ::
  "cipher \<Rightarrow> encryptor \<Rightarrow> string option \<times> string option \<times> string option \<Rightarrow> settings \<Rightarrow> app_settings option" where
  "encrypt_for_storage ci e rnds s =
     (case rnds of (r1, r2, r3) \<Rightarrow>
        (case encrypt_field ci e r1 (se_s3_key s) of
           None \<Rightarrow> None
         | Some key \<Rightarrow>
             (case encrypt_field ci e r2 (se_s3_secret s) of
                None \<Rightarrow> None
              | Some secret \<Rightarrow>
                  (case encrypt_field ci e r3 (se_gcs_creds s) of
                     None \<Rightarrow> None
                   | Some creds \<Rightarrow>
                       Some \<lparr>as_backend = se_backend s, as_local_dir = se_local_dir s,
                         as_s3_bucket = se_s3_bucket s, as_s3_region = se_s3_region s,
                         as_s3_prefix = se_s3_prefix s, as_s3_endpoint = se_s3_endpoint s,
                         as_s3_path_style = se_s3_path_style s, as_s3_key_enc = key,
                         as_s3_secret_enc = secret, as_gcs_bucket = se_gcs_bucket s,
                         as_gcs_prefix = se_gcs_prefix s, as_gcs_creds_enc = creds,
                         as_ttl_seconds = go_quot (se_ttl s) nano_second, as_max_bytes = se_max s,
                         as_updated_at = zero_time, as_updated_by = None\<rparr>))))"

section \<open>Validation and the backend\<close>

definition validate :: "settings \<Rightarrow> string option" where
  "validate s =
     (if se_backend s = storage_local \<and> se_local_dir s = [] then Some ''localDir is required for the local backend''
      else if se_backend s = storage_s3 \<and> se_s3_bucket s = [] then Some ''s3Bucket is required for the s3 backend''
      else if se_backend s = storage_gcs \<and> se_gcs_bucket s = [] then Some ''gcsBucket is required for the gcs backend''
      else if se_backend s \<notin> {storage_local, storage_s3, storage_gcs}
      then Some ''storageBackend must be \"local\", \"s3\", or \"gcs\"''
      else if se_ttl s \<le> 0 then Some ''sessionTtlSeconds must be positive''
      else if se_max s \<le> 0 then Some ''maxCacheEntryBytes must be positive''
      else None)"

definition on_local_fs :: "(fs \<Rightarrow> 'r \<times> fs) \<Rightarrow> ('s, 'g) media \<Rightarrow> 'r \<times> ('s, 'g) media" where
  "on_local_fs f = lift_state md_fs (\<lambda>x m. m\<lparr>md_fs := x\<rparr>) f"

definition build_backend ::
  "('s, 'g) cloud_apis \<Rightarrow> settings \<Rightarrow> ('s, 'g) media \<Rightarrow> (storage_err + backend) \<times> ('s, 'g) media" where
  "build_backend apis s m =
     (if se_backend s = storage_s3 then
        map_prod (map_sum id BS3) id
          (lift_state md_s3 (\<lambda>x m. m\<lparr>md_s3 := x\<rparr>)
             (new_s3 (ap_s3 apis) \<lparr>so_bucket = se_s3_bucket s, so_region = se_s3_region s,
                so_prefix = se_s3_prefix s, so_endpoint = se_s3_endpoint s,
                so_path_style = se_s3_path_style s, so_access_key = se_s3_key s,
                so_secret_key = se_s3_secret s\<rparr>) m)
      else if se_backend s = storage_gcs then
        map_prod (map_sum id BGCS) id
          (lift_state md_gcs (\<lambda>x m. m\<lparr>md_gcs := x\<rparr>)
             (new_gcs (ap_gcs apis) \<lparr>gco_bucket = se_gcs_bucket s, gco_prefix = se_gcs_prefix s,
                gco_creds = se_gcs_creds s\<rparr>) m)
      else map_prod (map_sum id BLocal) id (on_local_fs (new_local (se_local_dir s)) m))"

section \<open>The manager over the live server\<close>

record ('s, 'g) app =
  app_world :: "('s, 'g) world"
  app_max :: int
  app_tasks :: "string list"
  app_ttl :: duration
  app_settings :: settings

text \<open>Lifting to the parts of the server.\<close>

definition app_on_pg :: "(pg \<Rightarrow> 'r \<times> pg) \<Rightarrow> ('s, 'g) app \<Rightarrow> 'r \<times> ('s, 'g) app" where
  "app_on_pg f = lift_state (\<lambda>a. w_pg (app_world a)) (\<lambda>p a. a\<lparr>app_world := (app_world a)\<lparr>w_pg := p\<rparr>\<rparr>) f"

definition app_media :: "('s, 'g) app \<Rightarrow> ('s, 'g) media" where
  "app_media a = dy_media (w_dyn (app_world a))"

definition app_backend :: "('s, 'g) app \<Rightarrow> backend" where
  "app_backend a = dy_current (w_dyn (app_world a))"

definition app_on_media :: "(('s, 'g) media \<Rightarrow> 'r \<times> ('s, 'g) media) \<Rightarrow> ('s, 'g) app \<Rightarrow> 'r \<times> ('s, 'g) app" where
  "app_on_media f = lift_state app_media
     (\<lambda>m a. a\<lparr>app_world := (app_world a)\<lparr>w_dyn := (w_dyn (app_world a))\<lparr>dy_media := m\<rparr>\<rparr>\<rparr>) f"

text \<open>The three live effects: \<open>Swap\<close>, \<open>SetTTL\<close>, \<open>SetMaxEntryBytes\<close>, and the settings themselves.\<close>

definition set_ttl :: "duration \<Rightarrow> ('s, 'g) app \<Rightarrow> ('s, 'g) app" where
  "set_ttl ttl a = a\<lparr>app_ttl := ttl\<rparr>"

definition go_live :: "backend \<Rightarrow> settings \<Rightarrow> ('s, 'g) app \<Rightarrow> ('s, 'g) app" where
  "go_live b s a =
     (let a1 = a\<lparr>app_world := (app_world a)\<lparr>w_dyn := dyn_swap b (w_dyn (app_world a))\<rparr>\<rparr>;
          a2 = set_ttl (se_ttl s) a1
      in a2\<lparr>app_max := se_max s, app_settings := s\<rparr>)"

datatype load_err = LoadStore store_err | LoadDecrypt | LoadBackend storage_err

definition load_settings ::
  "('s, 'g) cloud_apis \<Rightarrow> cipher \<Rightarrow> encryptor \<Rightarrow> ('s, 'g) app \<Rightarrow> (load_err + unit) \<times> ('s, 'g) app" where
  "load_settings apis ci e a =
     (case app_on_pg get_settings a of
        (Inl er, a1) \<Rightarrow> (Inl (LoadStore er), a1)
      | (Inr raw, a1) \<Rightarrow>
          (case decrypt_settings ci e raw of
             None \<Rightarrow> (Inl LoadDecrypt, a1)
           | Some s \<Rightarrow>
               (case app_on_media (build_backend apis s) a1 of
                  (Inl er, a2) \<Rightarrow> (Inl (LoadBackend er), a2)
                | (Inr b, a2) \<Rightarrow> (Inr (), go_live b s a2))))"

definition current_settings :: "('s, 'g) app \<Rightarrow> settings" where
  "current_settings a = redacted (app_settings a)"

text \<open>The settings a request asks for, starting from the current ones.\<close>

definition set_secret :: "string option \<Rightarrow> string \<times> bool \<Rightarrow> string \<times> bool" where
  "set_secret v old = (case v of None \<Rightarrow> old | Some x \<Rightarrow> (x, x \<noteq> []))"

definition next_settings :: "apply_input \<Rightarrow> settings \<Rightarrow> settings" where
  "next_settings i s =
     (let (key, key_set) = set_secret (in_s3_key i) (se_s3_key s, se_s3_key_set s);
          (secret, secret_set) = set_secret (in_s3_secret i) (se_s3_secret s, se_s3_secret_set s);
          (creds, creds_set) = set_secret (in_gcs_creds i) (se_gcs_creds s, se_gcs_creds_set s)
      in s\<lparr>se_backend := in_backend i, se_local_dir := in_local_dir i, se_s3_bucket := in_s3_bucket i,
           se_s3_region := in_s3_region i, se_s3_prefix := in_s3_prefix i, se_s3_endpoint := in_s3_endpoint i,
           se_s3_path_style := in_s3_path_style i, se_gcs_bucket := in_gcs_bucket i,
           se_gcs_prefix := in_gcs_prefix i, se_ttl := in_ttl i, se_max := in_max i,
           se_s3_key := key, se_s3_key_set := key_set, se_s3_secret := secret, se_s3_secret_set := secret_set,
           se_gcs_creds := creds, se_gcs_creds_set := creds_set\<rparr>)"

datatype apply_err = ApInvalid string | ApEncrypt | ApPersist store_err

definition apply_settings ::
  "('s, 'g) cloud_apis \<Rightarrow> cipher \<Rightarrow> encryptor \<Rightarrow> string option \<times> string option \<times> string option \<Rightarrow>
     time \<Rightarrow> time \<Rightarrow> apply_input \<Rightarrow> ('s, 'g) app \<Rightarrow> (apply_err + settings) \<times> ('s, 'g) app" where
  "apply_settings apis ci e rnds now db_now i a =
     (let s = next_settings i (app_settings a)
      in case validate s of
           Some msg \<Rightarrow> (Inl (ApInvalid msg), a)
         | None \<Rightarrow>
             (case app_on_media (build_backend apis s) a of
                (Inl _, a1) \<Rightarrow> (Inl (ApInvalid ''connect to storage backend''), a1)
              | (Inr b, a1) \<Rightarrow>
                  (case app_on_media (b_list (backend_of apis b) [] 1) a1 of
                     (Inl _, a2) \<Rightarrow> (Inl (ApInvalid ''storage backend connectivity check failed''), a2)
                   | (Inr _, a2) \<Rightarrow>
                       (case encrypt_for_storage ci e rnds s of
                          None \<Rightarrow> (Inl ApEncrypt, a2)
                        | Some raw \<Rightarrow>
                            (case app_on_pg (update_settings db_now raw (in_updated_by i)) a2 of
                               (Inl er, a3) \<Rightarrow> (Inl (ApPersist er), a3)
                             | (Inr _, a3) \<Rightarrow>
                                 (let s' = s\<lparr>se_updated_at := now\<rparr>
                                  in (Inr (redacted s'), go_live b s' a3)))))))"

end
