(* ===== verification/SettingsProps.thy ===== *)
theory SettingsProps
  imports Settings
begin

text \<open>
  What the settings manager guarantees: the secrets survive the round trip through the store, a
  rejected change leaves the running server as it is, and an accepted one is what a restart of
  the server loads again, as far as the store can hold it.
\<close>

section \<open>AES-GCM as documented\<close>

text \<open>Opening what was sealed under the same key and nonce gives the text back.\<close>

definition cipher_ok :: "cipher \<Rightarrow> bool" where
  "cipher_ok ci \<longleftrightarrow>
     (\<forall>key nonce pt. length nonce = nonce_size \<longrightarrow> ci_open ci key nonce (ci_seal ci key nonce pt) = Some pt)"

definition nonce_ok :: "string option \<Rightarrow> bool" where
  "nonce_ok r \<longleftrightarrow> (case r of None \<Rightarrow> True | Some n \<Rightarrow> length n = nonce_size)"

definition nonces_ok :: "string option \<times> string option \<times> string option \<Rightarrow> bool" where
  "nonces_ok rnds \<longleftrightarrow> (case rnds of (r1, r2, r3) \<Rightarrow> nonce_ok r1 \<and> nonce_ok r2 \<and> nonce_ok r3)"

lemma decrypt_encrypt:
  "cipher_ok ci \<Longrightarrow> nonce_ok rnd \<Longrightarrow> encrypt ci e rnd pt = Some blob \<Longrightarrow> decrypt ci e blob = Some pt"
  by (auto simp: encrypt_def decrypt_def cipher_ok_def nonce_ok_def split: option.splits)

lemma decrypt_encrypt_field:
  "cipher_ok ci \<Longrightarrow> nonce_ok rnd \<Longrightarrow> encrypt_field ci e rnd v = Some col \<Longrightarrow>
     decrypt_field ci e col = Some (v, v \<noteq> [])"
  by (auto simp: encrypt_field_def decrypt_field_def decrypt_encrypt split: if_splits)

section \<open>Through the store and back\<close>

text \<open>
  What the store keeps of settings: the lifetime in whole seconds, each secret with the flag that
  says whether there is one, and nothing of who changed them when.
\<close>

definition stored_form :: "settings \<Rightarrow> settings" where
  "stored_form s = s\<lparr>se_s3_key_set := se_s3_key s \<noteq> [], se_s3_secret_set := se_s3_secret s \<noteq> [],
     se_gcs_creds_set := se_gcs_creds s \<noteq> [], se_ttl := dur_mul (go_quot (se_ttl s) nano_second) nano_second,
     se_updated_at := zero_time, se_updated_by := None\<rparr>"

definition flags_ok :: "settings \<Rightarrow> bool" where
  "flags_ok s \<longleftrightarrow> (se_s3_key_set s \<longleftrightarrow> se_s3_key s \<noteq> []) \<and> (se_s3_secret_set s \<longleftrightarrow> se_s3_secret s \<noteq> []) \<and>
     (se_gcs_creds_set s \<longleftrightarrow> se_gcs_creds s \<noteq> [])"

text \<open>The lifetimes the store holds exactly: whole seconds.\<close>

definition whole_seconds :: "duration \<Rightarrow> bool" where
  "whole_seconds d \<longleftrightarrow> (\<exists>n. d = n * nano_second) \<and> - (2 ^ 63) \<le> d \<and> d < 2 ^ 63"

lemma whole_seconds_exact: "whole_seconds d \<Longrightarrow> dur_mul (go_quot d nano_second) nano_second = d"
  by (auto simp: whole_seconds_def nano_second_def go_quot_exact dur_mul_exact)

lemma flags_ok_next: "flags_ok s \<Longrightarrow> flags_ok (next_settings i s)"
  by (auto simp: flags_ok_def next_settings_def set_secret_def Let_def split: option.splits)

lemma stored_form_whole:
  "flags_ok s \<Longrightarrow> whole_seconds (se_ttl s) \<Longrightarrow> stored_form s = s\<lparr>se_updated_at := zero_time, se_updated_by := None\<rparr>"
  by (simp add: stored_form_def flags_ok_def whole_seconds_exact)

lemma decrypt_encrypted:
  assumes "cipher_ok ci" "nonces_ok rnds" "encrypt_for_storage ci e rnds s = Some raw"
  shows "decrypt_settings ci e raw = Some (stored_form s)"
proof -
  obtain r1 r2 r3 key secret creds where r: "rnds = (r1, r2, r3)"
    "encrypt_field ci e r1 (se_s3_key s) = Some key" "encrypt_field ci e r2 (se_s3_secret s) = Some secret"
    "encrypt_field ci e r3 (se_gcs_creds s) = Some creds"
    using assms(3) by (auto simp: encrypt_for_storage_def split: prod.splits option.splits)
  have "nonce_ok r1" "nonce_ok r2" "nonce_ok r3" using assms(2) r(1) by (auto simp: nonces_ok_def)
  then have "decrypt_field ci e key = Some (se_s3_key s, se_s3_key s \<noteq> [])"
    "decrypt_field ci e secret = Some (se_s3_secret s, se_s3_secret s \<noteq> [])"
    "decrypt_field ci e creds = Some (se_gcs_creds s, se_gcs_creds s \<noteq> [])"
    using r decrypt_encrypt_field [OF assms(1)] by blast+
  then show ?thesis
    using assms(3) r by (auto simp: encrypt_for_storage_def decrypt_settings_def stored_form_def)
qed

text \<open>Reading the two columns the database sets itself.\<close>

lemma decrypt_stamped:
  "decrypt_settings ci e (raw\<lparr>as_updated_at := t, as_updated_by := u\<rparr>) =
     map_option (\<lambda>s. s\<lparr>se_updated_at := t, se_updated_by := u\<rparr>) (decrypt_settings ci e raw)"
  by (simp add: decrypt_settings_def split: option.splits prod.splits)

section \<open>The running server\<close>

abbreviation app_pg :: "('s, 'g) app \<Rightarrow> pg" where
  "app_pg a \<equiv> w_pg (app_world a)"

text \<open>What requests are served with: the active backend, the two atomics, the settings shown.\<close>

definition live :: "('s, 'g) app \<Rightarrow> backend \<times> duration \<times> int \<times> settings" where
  "live a = (app_backend a, app_ttl a, app_max a, app_settings a)"

lemma app_on_media_eq:
  "app_on_media f a = (r, a') \<longleftrightarrow>
     (\<exists>m. f (app_media a) = (r, m) \<and>
        a' = a\<lparr>app_world := (app_world a)\<lparr>w_dyn := (w_dyn (app_world a))\<lparr>dy_media := m\<rparr>\<rparr>\<rparr>)"
  by (simp add: app_on_media_def lift_state_eq)

lemma app_on_pg_eq:
  "app_on_pg f a = (r, a') \<longleftrightarrow>
     (\<exists>p. f (app_pg a) = (r, p) \<and> a' = a\<lparr>app_world := (app_world a)\<lparr>w_pg := p\<rparr>\<rparr>)"
  by (simp add: app_on_pg_def lift_state_eq)

lemma app_on_media_live: "app_on_media f a = (r, a') \<Longrightarrow> live a' = live a \<and> app_pg a' = app_pg a"
  by (auto simp: app_on_media_eq live_def app_backend_def)

lemma app_on_pg_live: "app_on_pg f a = (r, a') \<Longrightarrow> live a' = live a \<and> app_media a' = app_media a"
  by (auto simp: app_on_pg_eq live_def app_backend_def app_media_def)

lemma go_live_live: "live (go_live b s a) = (b, se_ttl s, se_max s, s)" "app_pg (go_live b s a) = app_pg a"
  by (simp_all add: live_def go_live_def set_ttl_def app_backend_def dyn_swap_def)

lemma update_settings_keeps:
  assumes "update_settings now raw u p = (Inl er, p')"
  shows "er = StDb" "pg_users p' = pg_users p" "pg_sessions p' = pg_sessions p" "pg_tokens p' = pg_tokens p"
proof -
  obtain r where r: "pg_call (q_update_settings now raw u) p = (r, p')" "plain_result r = Inl er"
    using assms by (auto simp: update_settings_def map_prod_id_eq)
  show "er = StDb" using r(2) by (auto simp: plain_result_def split: option.splits sql.splits)
  obtain x where "p' = p\<lparr>pg_faults := x\<rparr> \<or> (\<exists>a. q_update_settings now raw u (p\<lparr>pg_faults := x\<rparr>) = (a, p'))"
    using pg_call_cases [OF r(1)] by blast
  then have "pg_users p' = pg_users p \<and> pg_sessions p' = pg_sessions p \<and> pg_tokens p' = pg_tokens p"
  proof (elim disjE exE)
    fix a assume "q_update_settings now raw u (p\<lparr>pg_faults := x\<rparr>) = (a, p')"
    then have "p' = snd (q_update_settings now raw u (p\<lparr>pg_faults := x\<rparr>))" by simp
    then show ?thesis by (simp add: q_update_settings_def)
  qed simp
  then show "pg_users p' = pg_users p" "pg_sessions p' = pg_sessions p" "pg_tokens p' = pg_tokens p" by simp_all
qed

lemma update_settings_Inr:
  assumes "update_settings now raw u p = (Inr (), p')"
  shows "u \<in> set (user_ids p) \<and> - (2 ^ 31) \<le> as_ttl_seconds raw \<and> as_ttl_seconds raw < 2 ^ 31 \<and>
    (\<exists>x. p' = p\<lparr>pg_faults := x, pg_settings := raw\<lparr>as_updated_at := now, as_updated_by := Some u\<rparr>\<rparr>)"
proof -
  obtain r where r: "pg_call (q_update_settings now raw u) p = (r, p')" "plain_result r = Inr ()"
    using assms by (auto simp: update_settings_def map_prod_id_eq)
  then obtain a where "r = Some (Rows a)" by (auto simp: plain_result_def split: option.splits sql.splits)
  then obtain x where "q_update_settings now raw u (p\<lparr>pg_faults := x\<rparr>) = (Rows a, p')"
    using pg_call_Some r(1) by blast
  then show ?thesis by (auto simp: q_update_settings_def user_ids_def split: if_splits)
qed

text \<open>
  \<open>Apply\<close> refuses before the store, or goes there with what it has built and encrypted; hence its
  three outcomes.
\<close>

lemma apply_reaches_store:
  assumes "apply_settings apis ci e rnds now db_now i a = (r, a')"
  defines "s \<equiv> next_settings i (app_settings a)"
  obtains (refused) er where "r = Inl er" "\<forall>x. er \<noteq> ApPersist x" "live a' = live a" "app_pg a' = app_pg a"
  | (reached) b raw a2 where "validate s = None" "fst (build_backend apis s (app_media a)) = Inr b"
      "encrypt_for_storage ci e rnds s = Some raw" "live a2 = live a" "app_pg a2 = app_pg a"
      "(r, a') = (case app_on_pg (update_settings db_now raw (in_updated_by i)) a2 of
         (Inl er, a3) \<Rightarrow> (Inl (ApPersist er), a3)
       | (Inr _, a3) \<Rightarrow> (Inr (redacted (s\<lparr>se_updated_at := now\<rparr>)), go_live b (s\<lparr>se_updated_at := now\<rparr>) a3))"
proof (cases "validate s")
  case (Some msg)
  then show ?thesis using assms by (intro refused) (auto simp: apply_settings_def)
next
  case v: None
  obtain rb a1 where b: "app_on_media (build_backend apis s) a = (rb, a1)" by fastforce
  note l1 = app_on_media_live [OF b]
  show ?thesis
  proof (cases rb)
    case (Inl er)
    then show ?thesis using assms v b l1 by (intro refused) (auto simp: apply_settings_def Let_def)
  next
    case bk: (Inr bk)
    obtain rl a2 where p: "app_on_media (b_list (backend_of apis bk) [] 1) a1 = (rl, a2)" by fastforce
    note l2 = app_on_media_live [OF p]
    consider (no_list) er where "rl = Inl er" | (no_raw) pg where "rl = Inr pg" "encrypt_for_storage ci e rnds s = None"
      | (both) pg raw where "rl = Inr pg" "encrypt_for_storage ci e rnds s = Some raw" by (cases rl) auto
    then show ?thesis
    proof cases
      case both
      moreover have "fst (build_backend apis s (app_media a)) = Inr bk" using b bk by (auto simp: app_on_media_eq)
      ultimately show ?thesis using assms(1) v b bk p l1 l2 s_def
        by (intro reached [of bk raw a2]) (auto simp: apply_settings_def Let_def split: prod.splits sum.splits)
    qed (use assms v b bk p l1 l2 in \<open>auto intro!: refused simp: apply_settings_def Let_def\<close>)
  qed
qed

lemma apply_cases:
  assumes "apply_settings apis ci e rnds now db_now i a = (r, a')"
  obtains (refused) er where "r = Inl er" "\<forall>x. er \<noteq> ApPersist x" "live a' = live a" "app_pg a' = app_pg a"
  | (not_stored) er raw where "r = Inl (ApPersist er)" "live a' = live a"
      "update_settings db_now raw (in_updated_by i) (app_pg a) = (Inl er, app_pg a')"
      "encrypt_for_storage ci e rnds (next_settings i (app_settings a)) = Some raw"
  | (accepted) b raw s where "s = next_settings i (app_settings a)" "validate s = None"
      "fst (build_backend apis s (app_media a)) = Inr b"
      "encrypt_for_storage ci e rnds s = Some raw"
      "update_settings db_now raw (in_updated_by i) (app_pg a) = (Inr (), app_pg a')"
      "r = Inr (redacted (s\<lparr>se_updated_at := now\<rparr>))"
      "live a' = (b, se_ttl s, se_max s, s\<lparr>se_updated_at := now\<rparr>)"
  using assms
proof (cases rule: apply_reaches_store)
  case (reached b raw a2)
  obtain ru a3 where u: "app_on_pg (update_settings db_now raw (in_updated_by i)) a2 = (ru, a3)" by fastforce
  then have up: "update_settings db_now raw (in_updated_by i) (app_pg a) = (ru, app_pg a3)" "live a3 = live a"
    using reached(4,5) app_on_pg_live [OF u] by (auto simp: app_on_pg_eq)
  then show ?thesis
    using reached u not_stored [of _ raw] accepted [OF refl reached(1-3)] by (cases ru) (auto simp: go_live_live)
qed (rule refused)

text \<open>The backend that is built depends on the settings alone.\<close>

lemma build_backend_det:
  assumes "fst (build_backend apis s m) = Inr b" "fst (build_backend apis s m') = Inr b'"
  shows "b' = b"
  using assms
  by (simp add: build_backend_def on_local_fs_def new_local_def new_s3_def new_gcs_def Let_def
      split: if_splits prod.splits sum.splits bool.splits)

lemma build_backend_stamp [simp]:
  "build_backend apis (s\<lparr>se_updated_at := t\<rparr>) = build_backend apis s"
  "build_backend apis (s\<lparr>se_updated_by := u\<rparr>) = build_backend apis s"
  by (simp_all add: build_backend_def fun_eq_iff)

lemma load_cases:
  assumes "load_settings apis ci e a = (r, a')"
  obtains (no_store) er where "r = Inl (LoadStore er)"
  | (no_decrypt) "decrypt_settings ci e (pg_settings (app_pg a)) = None" "r = Inl LoadDecrypt"
  | (no_backend) er where "r = Inl (LoadBackend er)"
  | (loaded) s b m where "decrypt_settings ci e (pg_settings (app_pg a)) = Some s"
      "fst (build_backend apis s m) = Inr b" "r = Inr ()" "live a' = (b, se_ttl s, se_max s, s)"
proof -
  obtain rg a1 where g: "app_on_pg get_settings a = (rg, a1)" by fastforce
  show ?thesis
  proof (cases rg)
    case (Inl er)
    then show ?thesis using assms g by (intro no_store [of er]) (auto simp: load_settings_def)
  next
    case (Inr raw)
    have raw: "raw = pg_settings (app_pg a)"
      using g Inr by (auto simp: app_on_pg_eq get_settings_def map_prod_id_eq plain_result_def pg_call_def Let_def
          split: list.splits db_fault.splits option.splits sql.splits)
    show ?thesis
    proof (cases "decrypt_settings ci e raw")
      case None
      then show ?thesis using assms g Inr raw by (intro no_decrypt) (auto simp: load_settings_def)
    next
      case (Some s)
      obtain rb a2 where b: "app_on_media (build_backend apis s) a1 = (rb, a2)" by fastforce
      show ?thesis
      proof (cases rb)
        case (Inl er)
        then show ?thesis using assms g Inr Some b \<open>rg = Inr raw\<close>
          by (intro no_backend [of er]) (auto simp: load_settings_def)
      next
        case bk: (Inr bk)
        have "fst (build_backend apis s (app_media a1)) = Inr bk"
          using b bk by (auto simp: app_on_media_eq)
        then show ?thesis using assms g Inr Some b bk raw \<open>rg = Inr raw\<close>
          by (intro loaded [of s "app_media a1" bk]) (auto simp: load_settings_def go_live_live)
      qed
    qed
  qed
qed

section \<open>Properties\<close>

text \<open>
  C23. A change of settings that is refused leaves the running server as it was: the
  active backend, the session lifetime, the size limit and the settings shown. Unless it was the
  store that failed the database is untouched, and users, sessions and tokens are in every case.
\<close>

theorem apply_refused_keeps:
  assumes "apply_settings apis ci e rnds now db_now i a = (Inl er, a')"
  shows "live a' = live a \<and> pg_users (app_pg a') = pg_users (app_pg a) \<and>
    pg_sessions (app_pg a') = pg_sessions (app_pg a) \<and> pg_tokens (app_pg a') = pg_tokens (app_pg a) \<and>
    (app_pg a' = app_pg a \<or> er = ApPersist StDb)"
  using assms
proof (cases rule: apply_cases)
  case (not_stored er' raw)
  then show ?thesis using update_settings_keeps [OF not_stored(3)] by simp
qed simp_all

text \<open>
  C24. An accepted change is a valid one, made by an existing user, for a backend that
  could be built; the server runs on exactly that backend, lifetime and limit from then on. A
  secret that was not sent keeps its value, and the answer contains none of the secrets.
\<close>

theorem apply_accepted_live:
  assumes "apply_settings apis ci e rnds now db_now i a = (Inr out, a')"
  shows "app_ttl a' = in_ttl i \<and> app_max a' = in_max i \<and> 0 < in_ttl i \<and> 0 < in_max i \<and>
    (in_backend i = storage_local \<and> in_local_dir i \<noteq> [] \<or> in_backend i = storage_s3 \<and> in_s3_bucket i \<noteq> [] \<or>
     in_backend i = storage_gcs \<and> in_gcs_bucket i \<noteq> []) \<and>
    in_updated_by i \<in> set (user_ids (app_pg a)) \<and>
    fst (build_backend apis (app_settings a') (app_media a)) = Inr (app_backend a') \<and>
    se_s3_key (app_settings a') = (case in_s3_key i of None \<Rightarrow> se_s3_key (app_settings a) | Some k \<Rightarrow> k) \<and>
    se_s3_secret (app_settings a') = (case in_s3_secret i of None \<Rightarrow> se_s3_secret (app_settings a) | Some k \<Rightarrow> k) \<and>
    se_gcs_creds (app_settings a') = (case in_gcs_creds i of None \<Rightarrow> se_gcs_creds (app_settings a) | Some k \<Rightarrow> k) \<and>
    out = current_settings a' \<and> se_s3_key out = [] \<and> se_s3_secret out = [] \<and> se_gcs_creds out = []"
  using assms
proof (cases rule: apply_cases)
  case (accepted b raw s)
  have live: "app_backend a' = b" "app_ttl a' = se_ttl s" "app_max a' = se_max s" "app_settings a' = s\<lparr>se_updated_at := now\<rparr>"
    using accepted(7) by (simp_all add: live_def)
  have s: "se_ttl s = in_ttl i" "se_max s = in_max i" "se_backend s = in_backend i" "se_local_dir s = in_local_dir i"
    "se_s3_bucket s = in_s3_bucket i" "se_gcs_bucket s = in_gcs_bucket i"
    "se_s3_key s = (case in_s3_key i of None \<Rightarrow> se_s3_key (app_settings a) | Some k \<Rightarrow> k)"
    "se_s3_secret s = (case in_s3_secret i of None \<Rightarrow> se_s3_secret (app_settings a) | Some k \<Rightarrow> k)"
    "se_gcs_creds s = (case in_gcs_creds i of None \<Rightarrow> se_gcs_creds (app_settings a) | Some k \<Rightarrow> k)"
    unfolding accepted(1) by (simp_all add: next_settings_def set_secret_def Let_def split: option.splits)
  have v: "0 < in_ttl i" "0 < in_max i" "in_backend i = storage_local \<and> in_local_dir i \<noteq> [] \<or>
     in_backend i = storage_s3 \<and> in_s3_bucket i \<noteq> [] \<or> in_backend i = storage_gcs \<and> in_gcs_bucket i \<noteq> []"
    using accepted(2) by (auto simp: validate_def s split: if_splits)
  show ?thesis
    using accepted(3,6) live s v update_settings_Inr [OF accepted(5)]
    by (simp add: current_settings_def redacted_def)
qed simp_all

text \<open>
  C25. Settings whose flags agree with their secrets and whose lifetime is a whole number
  of seconds are read back from the store as they were written, under the same key, whatever
  nonces were drawn; only the time and author of the change come from the database.
\<close>

theorem settings_roundtrip:
  assumes "cipher_ok ci" "nonces_ok rnds" "flags_ok s" "whole_seconds (se_ttl s)"
    and "encrypt_for_storage ci e rnds s = Some raw"
  shows "decrypt_settings ci e (raw\<lparr>as_updated_at := t, as_updated_by := u\<rparr>) =
    Some (s\<lparr>se_updated_at := t, se_updated_by := u\<rparr>)"
  using decrypt_encrypted [OF assms(1,2,5)] stored_form_whole [OF assms(3,4)]
  by (simp add: decrypt_stamped)

text \<open>
  C26. Once a change was accepted, a server that starts from the same database loads it:
  the same backend, lifetime, limit and secrets. The start can fail only on the database
  connection or on building the backend, never on decrypting.
\<close>

theorem apply_survives_restart:
  assumes "cipher_ok ci" "nonces_ok rnds" "flags_ok (app_settings a)" "whole_seconds (in_ttl i)"
    and "apply_settings apis ci e rnds now db_now i a = (Inr out, a')"
    and "pg_settings (app_pg b) = pg_settings (app_pg a')"
    and "load_settings apis ci e b = (r, b')"
  shows "(case r of
      Inl er \<Rightarrow> (\<exists>x. er = LoadStore x) \<or> (\<exists>x. er = LoadBackend x)
    | Inr _ \<Rightarrow> live b' = (app_backend a', app_ttl a', app_max a', (app_settings a')
        \<lparr>se_updated_at := db_now, se_updated_by := Some (in_updated_by i)\<rparr>))"
  using assms(5)
proof (cases rule: apply_cases)
  case (accepted bk raw s)
  have st: "pg_settings (app_pg b) = raw\<lparr>as_updated_at := db_now, as_updated_by := Some (in_updated_by i)\<rparr>"
    using update_settings_Inr [OF accepted(5)] assms(6) by auto
  have "flags_ok s" "se_ttl s = in_ttl i"
    using flags_ok_next [OF assms(3)] by (simp_all add: accepted(1) next_settings_def Let_def split: prod.splits)
  then have d: "decrypt_settings ci e (pg_settings (app_pg b)) =
      Some (s\<lparr>se_updated_at := db_now, se_updated_by := Some (in_updated_by i)\<rparr>)"
    using decrypt_encrypted [OF assms(1,2) accepted(4)] stored_form_whole assms(4)
    by (simp add: st decrypt_stamped)
  from assms(7) show ?thesis
  proof (cases rule: load_cases)
    case (loaded s' b2 m)
    then have "s' = s\<lparr>se_updated_at := db_now, se_updated_by := Some (in_updated_by i)\<rparr>" using d by simp
    moreover from this have "b2 = bk" using build_backend_det [OF accepted(3)] loaded(2) by simp
    ultimately show ?thesis using loaded(3,4) accepted(7) by (simp add: live_def)
  qed (use d in auto)
qed simp_all

section \<open>A concrete change\<close>

definition toy_cipher :: cipher where
  "toy_cipher = \<lparr>ci_seal = (\<lambda>k n pt. pt), ci_open = (\<lambda>k n c. Some c)\<rparr>"

lemma toy_cipher_ok: "cipher_ok toy_cipher"
  by (simp add: cipher_ok_def toy_cipher_def)

definition toy_enc :: encryptor where "toy_enc = \<lparr>en_key = replicate 32 CHR ''k''\<rparr>"

definition toy_nonce :: "string option" where "toy_nonce = Some ''nonce-nonce-''"

definition stopped_app :: "pg \<Rightarrow> (mem_bucket, mem_bucket) app" where
  "stopped_app p =
     \<lparr>app_world = \<lparr>w_dyn = new_dynamic (BLocal \<lparr>l_dir = []\<rparr>) \<lparr>md_fs = disk0, md_s3 = bucket0, md_gcs = bucket0\<rparr>, w_pg = p\<rparr>,
      app_max = 0, app_tasks = [], app_ttl = 0, app_settings = zero_settings\<rparr>"

definition app0 :: "(mem_bucket, mem_bucket) app" where
  "app0 = snd (load_settings mem_apis toy_cipher toy_enc (stopped_app pg_write_token))"

definition local_input :: apply_input where
  "local_input = \<lparr>in_backend = ''local'', in_local_dir = ''c'', in_s3_bucket = [], in_s3_region = [],
     in_s3_prefix = [], in_s3_endpoint = [], in_s3_path_style = False, in_s3_key = Some ''AK'',
     in_s3_secret = None, in_gcs_bucket = [], in_gcs_prefix = [], in_gcs_creds = None,
     in_ttl = 60000000000, in_max = 100, in_updated_by = 1\<rparr>"

definition app_applied :: "(apply_err + settings) \<times> (mem_bucket, mem_bucket) app" where
  "app_applied = apply_settings mem_apis toy_cipher toy_enc (toy_nonce, toy_nonce, toy_nonce) 7 8 local_input app0"

definition app1 :: "(mem_bucket, mem_bucket) app" where "app1 = snd app_applied"

lemma app_applied_value: "fst app_applied = Inr (current_settings app1)"
  by code_simp

lemma app_applied_eq:
  "apply_settings mem_apis toy_cipher toy_enc (toy_nonce, toy_nonce, toy_nonce) 7 8 local_input app0 =
     (Inr (current_settings app1), app1)"
  using app_applied_value by (simp add: app1_def app_applied_def prod_eq_iff)

lemma toy_nonces_ok: "nonces_ok (toy_nonce, toy_nonce, toy_nonce)" by code_simp

lemma app0_flags: "flags_ok (app_settings app0)" by code_simp

lemma local_input_seconds: "whole_seconds (in_ttl local_input)"
  unfolding whole_seconds_def by (intro conjI exI [of _ 60]) code_simp+

theorem apply_refused_keeps_witness:
  "live (snd (apply_settings mem_apis toy_cipher toy_enc (toy_nonce, None, None) 7 8
       (local_input\<lparr>in_local_dir := []\<rparr>) app1)) = live app1 \<and>
   live (snd (apply_settings mem_apis toy_cipher toy_enc (toy_nonce, None, None) 7 8
       (local_input\<lparr>in_updated_by := 5\<rparr>) app1)) = live app1"
proof -
  let ?f = "\<lambda>i. apply_settings mem_apis toy_cipher toy_enc (toy_nonce, None, None) 7 8 i app1"
  have "fst (?f (local_input\<lparr>in_local_dir := []\<rparr>)) = Inl (ApInvalid ''localDir is required for the local backend'')"
    "fst (?f (local_input\<lparr>in_updated_by := 5\<rparr>)) = Inl (ApPersist StDb)" by code_simp+
  then have "?f (local_input\<lparr>in_local_dir := []\<rparr>) = (Inl (ApInvalid ''localDir is required for the local backend''),
      snd (?f (local_input\<lparr>in_local_dir := []\<rparr>)))"
    "?f (local_input\<lparr>in_updated_by := 5\<rparr>) = (Inl (ApPersist StDb), snd (?f (local_input\<lparr>in_updated_by := 5\<rparr>)))"
    by (simp_all add: prod_eq_iff)
  from this [THEN apply_refused_keeps] show ?thesis by blast
qed

theorem apply_accepted_live_witness:
  "app_ttl app1 = 60000000000 \<and> se_s3_key (app_settings app1) = ''AK'' \<and>
   se_s3_key (current_settings app1) = [] \<and> se_s3_key_set (current_settings app1)"
proof -
  note l = apply_accepted_live [OF app_applied_eq]
  have "in_ttl local_input = 60000000000" "in_s3_key local_input = Some ''AK''" by (simp_all add: local_input_def)
  moreover have "se_s3_key_set (current_settings app1)" by code_simp
  ultimately show ?thesis using l by (metis option.case(2))
qed

theorem settings_roundtrip_witness:
  "\<exists>raw. encrypt_for_storage toy_cipher toy_enc (toy_nonce, toy_nonce, toy_nonce) (app_settings app1) = Some raw \<and>
     decrypt_settings toy_cipher toy_enc (raw\<lparr>as_updated_at := 3, as_updated_by := None\<rparr>) =
       Some ((app_settings app1)\<lparr>se_updated_at := 3, se_updated_by := None\<rparr>)"
proof -
  have "encrypt_for_storage toy_cipher toy_enc (toy_nonce, toy_nonce, toy_nonce) (app_settings app1) \<noteq> None" by code_simp
  then obtain raw where r: "encrypt_for_storage toy_cipher toy_enc (toy_nonce, toy_nonce, toy_nonce) (app_settings app1) = Some raw"
    by blast
  have "flags_ok (app_settings app1)" "se_ttl (app_settings app1) = in_ttl local_input" by code_simp+
  then show ?thesis
    using settings_roundtrip [OF toy_cipher_ok toy_nonces_ok _ _ r] local_input_seconds r by simp
qed

theorem apply_survives_restart_witness:
  "live (snd (load_settings mem_apis toy_cipher toy_enc (stopped_app (app_pg app1)))) =
     (BLocal \<lparr>l_dir = ''c''\<rparr>, 60000000000, 100, (app_settings app1)\<lparr>se_updated_at := 8, se_updated_by := Some 1\<rparr>)"
proof -
  let ?l = "load_settings mem_apis toy_cipher toy_enc (stopped_app (app_pg app1))"
  have "fst ?l = Inr ()" by code_simp
  then have l: "?l = (Inr (), snd ?l)" by (metis prod.collapse)
  have "pg_settings (app_pg (stopped_app (app_pg app1))) = pg_settings (app_pg app1)" by (simp add: stopped_app_def)
  moreover have "app_backend app1 = BLocal \<lparr>l_dir = ''c''\<rparr>" "app_ttl app1 = 60000000000" "app_max app1 = 100"
    "in_updated_by local_input = 1" by code_simp+
  ultimately show ?thesis
    using apply_survives_restart [OF toy_cipher_ok toy_nonces_ok app0_flags local_input_seconds app_applied_eq _ l] by simp
qed

end
