(* ===== verification/Janitor.thy ===== *)
theory Janitor
  imports Storage Store
begin

text \<open>
  The background janitor, \<open>internal/janitor/janitor.go\<close>: the rule for one entry, a sweep over all
  pages of the backend, and the loop that repeats it. A sweep follows the cursors the backend
  hands out for as long as it hands them out, so it is a partial function; over a backend that
  lists in key order it returns, and removes exactly the entries the rule names.
\<close>

section \<open>Definitions\<close>

text \<open>The interface \<open>ReadStatsSource\<close>.\<close>

record 'w stats_if =
  st_list_all :: "'w \<Rightarrow> (store_err + (string \<times> read_stats) list) \<times> 'w"
  st_delete :: "string \<Rightarrow> 'w \<Rightarrow> (store_err + unit) \<times> 'w"

record jan_config =
  jc_max_age :: duration
  jc_unread_after :: duration
  jc_interval :: duration

text \<open>Looking up a missing hash in the map of statistics gives the zero value.\<close>

definition stats_of :: "(string \<times> read_stats) list \<Rightarrow> string \<Rightarrow> read_stats" where
  "stats_of reads h = (case map_of reads h of None \<Rightarrow> \<lparr>rs_count = 0, rs_last = None\<rparr> | Some s \<Rightarrow> s)"

definition should_delete :: "entry \<Rightarrow> read_stats \<Rightarrow> time \<Rightarrow> time \<Rightarrow> bool" where
  "should_delete e stats age_cutoff unread_cutoff =
     (if time_before (e_mod e) age_cutoff then True
      else if time_before (e_mod e) unread_cutoff \<and>
              (case rs_last stats of None \<Rightarrow> True | Some t \<Rightarrow> time_before t unread_cutoff)
      then True else False)"

text \<open>The inner loop: the entries of one page, counting deletions.\<close>

fun sweep_entries ::
  "'w backend_if \<Rightarrow> 'w stats_if \<Rightarrow> (string \<times> read_stats) list \<Rightarrow> time \<Rightarrow> time \<Rightarrow> entry list \<Rightarrow> nat \<Rightarrow> 'w \<Rightarrow> nat \<times> 'w" where
  "sweep_entries bk si reads ac uc [] n w = (n, w)"
| "sweep_entries bk si reads ac uc (e # es) n w =
     (if \<not> should_delete e (stats_of reads (e_hash e)) ac uc
      then sweep_entries bk si reads ac uc es n w
      else (let (res, w1) = b_delete bk (e_hash e) w
            in if (case res of Inl er \<Rightarrow> er \<noteq> ErrNotFound | Inr _ \<Rightarrow> False)
               then sweep_entries bk si reads ac uc es n w1
               else sweep_entries bk si reads ac uc es (n + 1) (snd (st_delete si (e_hash e) w1))))"

partial_function (option) sweep_pages ::
  "'w backend_if \<Rightarrow> 'w stats_if \<Rightarrow> (string \<times> read_stats) list \<Rightarrow> time \<Rightarrow> time \<Rightarrow> string \<Rightarrow> nat \<Rightarrow> 'w \<Rightarrow>
     ((nat \<times> bool) \<times> 'w) option" where
  "sweep_pages bk si reads ac uc cursor n w =
     (case b_list bk cursor 200 w of
        (Inl _, w1) \<Rightarrow> Some ((n, True), w1)
      | (Inr page, w1) \<Rightarrow>
          (case sweep_entries bk si reads ac uc (page_entries page) n w1 of
             (n', w2) \<Rightarrow>
               (if next_cursor page = [] then Some ((n', False), w2)
                else sweep_pages bk si reads ac uc (next_cursor page) n' w2)))"

text \<open>\<open>Sweep\<close>: the count of deletions and whether an error ended it.\<close>

definition sweep ::
  "'w backend_if \<Rightarrow> 'w stats_if \<Rightarrow> jan_config \<Rightarrow> time \<Rightarrow> 'w \<Rightarrow> ((nat \<times> bool) \<times> 'w) option" where
  "sweep bk si cfg now w =
     (case st_list_all si w of
        (Inl _, w1) \<Rightarrow> Some ((0, True), w1)
      | (Inr reads, w1) \<Rightarrow>
          sweep_pages bk si reads (time_add now (dur_neg (jc_max_age cfg)))
            (time_add now (dur_neg (jc_unread_after cfg))) [] 0 w1)"

text \<open>\<open>Run\<close>: one sweep at the start and one per tick, until the context ends; errors are logged.\<close>

fun jan_run :: "'w backend_if \<Rightarrow> 'w stats_if \<Rightarrow> jan_config \<Rightarrow> time list \<Rightarrow> 'w \<Rightarrow> 'w option" where
  "jan_run bk si cfg [] w = Some w"
| "jan_run bk si cfg (now # ticks) w =
     (case sweep bk si cfg now w of None \<Rightarrow> None | Some (_, w1) \<Rightarrow> jan_run bk si cfg ticks w1)"

section \<open>Walking over pages\<close>

text \<open>The entry a listing shows for a key of a view.\<close>

definition view_entry :: "blob_view \<Rightarrow> string \<Rightarrow> entry" where
  "view_entry v k = \<lparr>e_hash = k, e_size = int (length (fst (the (v k)))), e_mod = snd (the (v k))\<rparr>"

definition keys_after :: "blob_view \<Rightarrow> string \<Rightarrow> string list" where
  "keys_after v c = filter (\<lambda>k. c < k) (sorted_list_of_set (dom v))"

text \<open>Removing the keys a predicate names.\<close>

definition purge :: "(string \<Rightarrow> bool) \<Rightarrow> blob_view \<Rightarrow> blob_view" where
  "purge P v = (\<lambda>k. if P k then None else v k)"

lemma keys_after_set: "finite (dom v) \<Longrightarrow> set (keys_after v c) = {k. v k \<noteq> None \<and> c < k}"
  by (auto simp: keys_after_def)

lemma keys_after_sorted: "sorted (keys_after v c)" "distinct (keys_after v c)"
  by (simp_all add: keys_after_def sorted_wrt_filter)

lemma keys_after_eqI:
  assumes "finite (dom v)" "sorted xs" "distinct xs" "set xs = {k. v k \<noteq> None \<and> c < k}"
  shows "keys_after v c = xs"
  using assms keys_after_sorted [of v c] keys_after_set [OF assms(1), of c]
  by (metis sorted_distinct_set_unique)

lemma sorted_last: "sorted xs \<Longrightarrow> k \<in> set xs \<Longrightarrow> k \<le> last xs"
  by (induction xs) auto

text \<open>After a full page the next one starts where it ended, whatever was removed from it.\<close>

lemma keys_after_next:
  assumes "finite (dom v)" "0 < n" "n < length (keys_after v c)"
    and "\<forall>k. P k \<longrightarrow> k \<in> set (take n (keys_after v c))"
  shows "keys_after (purge P v) (last (take n (keys_after v c))) = drop n (keys_after v c)"
proof -
  let ?ks = "keys_after v c" and ?p = "take n (keys_after v c)" and ?r = "drop n (keys_after v c)"
  note s = keys_after_sorted [of v c]
  have p: "?p \<noteq> []" using assms(2,3) by auto
  have split: "?ks = ?p @ ?r" by simp
  have lt: "k < l" if "k \<in> set ?p" "l \<in> set ?r" for k l
  proof -
    have "sorted (?p @ ?r)" "distinct (?p @ ?r)" using s by simp_all
    then show ?thesis using that by (auto simp only: sorted_append distinct_append) (metis disjoint_iff order_le_less)
  qed
  have top: "k \<le> last ?p" if "k \<in> set ?p" for k
  proof -
    have "sorted ?p" using s(1) by (rule sorted_wrt_take)
    then show ?thesis using that by (rule sorted_last)
  qed
  have lastp: "last ?p \<in> set ?p" using p by (rule last_in_set)
  have "set ?r = {k. purge P v k \<noteq> None \<and> last ?p < k}"
  proof (intro set_eqI iffI)
    fix k assume k: "k \<in> set ?r"
    then have "k \<in> set ?ks" by (rule in_set_dropD)
    then have "v k \<noteq> None" using keys_after_set [OF assms(1)] by blast
    moreover have "\<not> P k" using k lt assms(4) by blast
    ultimately show "k \<in> {k. purge P v k \<noteq> None \<and> last ?p < k}"
      using lt [OF lastp k] by (simp add: purge_def)
  next
    fix k assume "k \<in> {k. purge P v k \<noteq> None \<and> last ?p < k}"
    then have k: "v k \<noteq> None" "last ?p < k" by (simp_all add: purge_def split: if_splits)
    have "c < last ?p" using in_set_takeD [OF lastp] by (simp only: keys_after_set [OF assms(1)]) simp
    then have "c < k" using k(2) by (rule less_trans)
    then have "k \<in> set ?ks" using k(1) by (simp add: keys_after_set [OF assms(1)])
    then have "k \<in> set ?p \<union> set ?r" by (simp only: set_append [symmetric] append_take_drop_id)
    moreover have "k \<notin> set ?p" using top [of k] k(2) by (meson leD)
    ultimately show "k \<in> set ?r" by blast
  qed
  moreover have "finite (dom (purge P v))"
    using assms(1) by (rule rev_finite_subset) (auto simp: purge_def split: if_splits)
  ultimately show ?thesis using s by (intro keys_after_eqI) (simp_all add: sorted_wrt_drop)
qed

text \<open>Purging one page and then what lies beyond its last key is purging everything.\<close>

lemma purge_pages:
  assumes fin: "finite (dom v)" and more: "m < length (keys_after v c)" and m: "0 < m"
    and agree: "\<And>k. k \<notin> set (take m (keys_after v c)) \<Longrightarrow> S' k = S k"
  shows "purge (\<lambda>k. last (take m (keys_after v c)) < k \<and> S' k) (purge (\<lambda>k. k \<in> set (take m (keys_after v c)) \<and> S k) v) =
    purge (\<lambda>k. c < k \<and> S k) v"
proof
  let ?ks = "keys_after v c" and ?p = "take m (keys_after v c)"
  have sorted: "sorted ?ks" "distinct ?ks" by (rule keys_after_sorted)+
  have "?p \<noteq> []" using more m by (cases ?ks) auto
  then have "last ?p \<in> set ?ks" using last_in_set in_set_takeD by metis
  then have cc: "c < last ?p" by (simp add: keys_after_set [OF fin])
  fix k
  show "purge (\<lambda>k. last ?p < k \<and> S' k) (purge (\<lambda>k. k \<in> set ?p \<and> S k) v) k = purge (\<lambda>k. c < k \<and> S k) v k"
  proof (cases "k \<in> set ?ks")
    case False
    then have "v k = None \<or> \<not> c < k" "k \<notin> set ?p"
      by (auto simp: keys_after_set [OF fin] dest: in_set_takeD)
    then show ?thesis using cc by (auto simp: purge_def)
  next
    case True
    then have c: "c < k" by (simp add: keys_after_set [OF fin])
    from True consider "k \<in> set ?p" | "k \<in> set (drop m ?ks)" by (metis Un_iff append_take_drop_id set_append)
    then show ?thesis
    proof cases
      case 1
      have "\<not> last ?p < k" using sorted_last [OF sorted_wrt_take [OF sorted(1)] 1] by (simp add: leD)
      then show ?thesis using 1 c by (simp add: purge_def)
    next
      case 2
      then have "k \<notin> set ?p" using set_take_disj_set_drop_if_distinct [OF sorted(2), of m m] by auto
      moreover have "k \<in> set (keys_after (purge (\<lambda>_. False) v) (last ?p))"
        using keys_after_next [OF fin m more, of "\<lambda>_. False"] 2 by simp
      then have "last ?p < k" by (simp add: keys_after_def)
      ultimately show ?thesis using agree c by (simp add: purge_def)
    qed
  qed
qed

lemma purge_empty [simp]: "purge (\<lambda>_. False) v = v"
  by (simp add: purge_def)

lemma purge_purge: "purge P (purge Q v) = purge (\<lambda>k. P k \<or> Q k) v"
  by (auto simp: purge_def fun_eq_iff)

lemma purge_single: "v(h := None) = purge (\<lambda>k. k = h) v"
  by (auto simp: purge_def fun_eq_iff)

section \<open>A sweep over an ordered store\<close>

text \<open>The rule on the artifacts of a view.\<close>

definition stale :: "(string \<times> read_stats) list \<Rightarrow> time \<Rightarrow> time \<Rightarrow> blob_view \<Rightarrow> string \<Rightarrow> bool" where
  "stale reads ac uc v k \<longleftrightarrow> should_delete (view_entry v k) (stats_of reads k) ac uc"

lemma view_entry_hash [simp]: "e_hash (view_entry v k) = k"
  by (simp add: view_entry_def)

lemma stale_cong: "v k = v' k \<Longrightarrow> stale reads ac uc v k = stale reads ac uc v' k"
  by (simp add: stale_def view_entry_def)

text \<open>
  The janitor's world: a store listed in key order whose medium answers, and read statistics
  kept beside it.
\<close>

locale janitor_world = ordered_store bk view ok reliable
  for bk :: "'w backend_if" and view :: "'w \<Rightarrow> blob_view" and ok :: "'w \<Rightarrow> bool"
    and reliable :: "'w \<Rightarrow> bool" +
  fixes si :: "'w stats_if"
  assumes stats_delete_frame:
      "st_delete si h w = (res_s, w') \<Longrightarrow>
         view w' = view w \<and> (ok w \<longrightarrow> ok w') \<and> (reliable w \<longrightarrow> reliable w')"
    and stats_list_frame:
      "st_list_all si w = (res_l, w') \<Longrightarrow>
         view w' = view w \<and> (ok w \<longrightarrow> ok w') \<and> (reliable w \<longrightarrow> reliable w')"
begin

lemma sweep_entries_exact:
  assumes "ok w" "reliable w" "distinct ks" "\<forall>k \<in> set ks. view w k = v k \<and> v k \<noteq> None"
    and "sweep_entries bk si reads ac uc (map (view_entry v) ks) n w = (n', w')"
  shows "ok w' \<and> reliable w' \<and> n' = n + length (filter (stale reads ac uc v) ks) \<and>
    view w' = purge (\<lambda>k. k \<in> set ks \<and> stale reads ac uc v k) (view w)"
  using assms
proof (induction ks arbitrary: n w)
  case Nil
  then show ?case by simp
next
  case (Cons k ks)
  have k: "view w k \<noteq> None" "store_key k"
    using Cons.prems(4) view_keys [OF Cons.prems(1), of k] by auto
  show ?case
  proof (cases "stale reads ac uc v k")
    case False
    then have "sweep_entries bk si reads ac uc (map (view_entry v) ks) n w = (n', w')"
      using Cons.prems(5) by (simp add: stale_def)
    from Cons.IH [OF Cons.prems(1,2) _ _ this] Cons.prems(3,4) False
    show ?thesis by (auto intro!: arg_cong [where f = "\<lambda>P. purge P (view w)"])
  next
    case True
    obtain res w1 where d: "b_delete bk k w = (res, w1)" by fastforce
    note dr = delete_reliable_view [OF Cons.prems(1,2) k(2) d]
    obtain r2 w2 where s: "st_delete si k w1 = (r2, w2)" by fastforce
    note sf = stats_delete_frame [OF s]
    have w2: "ok w2" "reliable w2" "view w2 = (view w)(k := None)" using sf dr by simp_all
    have "res = Inr ()" using dr(4) k(1) by simp
    then have rest: "sweep_entries bk si reads ac uc (map (view_entry v) ks) (n + 1) w2 = (n', w')"
      using Cons.prems(5) True d s by (simp add: stale_def)
    have "\<forall>l \<in> set ks. view w2 l = v l \<and> v l \<noteq> None"
      using Cons.prems(3,4) w2(3) by auto
    from Cons.IH [OF w2(1,2) _ this rest] Cons.prems(3)
    have ih: "ok w'" "reliable w'" "n' = n + 1 + length (filter (stale reads ac uc v) ks)"
      "view w' = purge (\<lambda>k. k \<in> set ks \<and> stale reads ac uc v k) (view w2)" by simp_all
    have "view w' = purge (\<lambda>l. l \<in> set (k # ks) \<and> stale reads ac uc v l) (view w)"
      unfolding ih(4) w2(3) purge_single purge_purge using True
      by (intro arg_cong [where f = "\<lambda>P. purge P (view w)"]) auto
    then show ?thesis using ih True by simp
  qed
qed

lemma list_page:
  assumes "ok w" "reliable w"
  shows "\<exists>w'. reliable w' \<and> ok w' \<and> view w' = view w \<and>
    b_list bk c 200 w = (Inr \<lparr>page_entries = map (view_entry (view w)) (take 200 (keys_after (view w) c)),
      next_cursor = (if 200 < length (keys_after (view w) c)
                     then last (take 200 (keys_after (view w) c)) else [])\<rparr>, w')"
proof -
  have "0 < (200 :: int)" by simp
  from list_reliable [OF assms this, of c] show ?thesis
    unfolding Let_def keys_after_def view_entry_def [abs_def] nat_numeral .
qed

text \<open>One page of a sweep: it clears the stale ones of the page and goes on while there are more.\<close>

lemma sweep_page:
  fixes w c
  assumes "ok w" "reliable w"
  defines "ks \<equiv> keys_after (view w) c"
  obtains n2 w2 where "ok w2" "reliable w2" "n2 = n + length (filter (stale reads ac uc (view w)) (take 200 ks))"
    "view w2 = purge (\<lambda>k. k \<in> set (take 200 ks) \<and> stale reads ac uc (view w) k) (view w)"
    "sweep_pages bk si reads ac uc c n w =
       (if 200 < length ks then sweep_pages bk si reads ac uc (last (take 200 ks)) n2 w2 else Some ((n2, False), w2))"
proof -
  let ?v = "view w" and ?p = "take 200 ks"
  obtain w1 where w1: "reliable w1" "ok w1" "view w1 = ?v"
    and l: "b_list bk c 200 w = (Inr \<lparr>page_entries = map (view_entry ?v) ?p,
      next_cursor = (if 200 < length ks then last ?p else [])\<rparr>, w1)"
    using list_page [OF assms(1,2), of c] unfolding ks_def by blast
  obtain n2 w2 where e: "sweep_entries bk si reads ac uc (map (view_entry ?v) ?p) n w1 = (n2, w2)" by fastforce
  have fin: "finite (dom ?v)" using view_finite [OF assms(1)] .
  have mem: "\<forall>k \<in> set ?p. view w1 k = ?v k \<and> ?v k \<noteq> None"
    using w1(3) keys_after_set [OF fin, of c] unfolding ks_def by (auto dest!: in_set_takeD)
  have "distinct ?p" unfolding ks_def using keys_after_sorted(2) by (rule distinct_take)
  note se = sweep_entries_exact [OF w1(2,1) this mem e]
  have "last ?p \<noteq> []" if "200 < length ks"
  proof -
    have "?p \<noteq> []" using that by (cases ks) auto
    then have "last ?p \<in> set ks" using in_set_takeD last_in_set by metis
    then have "c < last ?p" by (simp add: ks_def keys_after_set [OF fin])
    then show ?thesis by (cases "last ?p") simp_all
  qed
  then have step: "sweep_pages bk si reads ac uc c n w =
      (if 200 < length ks then sweep_pages bk si reads ac uc (last ?p) n2 w2 else Some ((n2, False), w2))"
    using l e by (subst sweep_pages.simps) simp
  show ?thesis by (rule that [OF _ _ _ _ step]) (use se w1(3) in simp_all)
qed

text \<open>From any cursor on, the sweep returns and removes exactly the stale artifacts after it.\<close>

lemma sweep_pages_exact:
  assumes "ok w" "reliable w"
  shows "\<exists>w'. sweep_pages bk si reads ac uc c n w =
      Some ((n + length (filter (stale reads ac uc (view w)) (keys_after (view w) c)), False), w') \<and>
    ok w' \<and> reliable w' \<and> view w' = purge (\<lambda>k. c < k \<and> stale reads ac uc (view w) k) (view w)"
  using assms
proof (induction "length (keys_after (view w) c)" arbitrary: c n w rule: less_induct)
  case less
  let ?v = "view w" and ?S = "stale reads ac uc (view w)"
  let ?ks = "keys_after ?v c" and ?p = "take 200 (keys_after ?v c)"
  obtain n2 w2 where w2: "ok w2" "reliable w2" "n2 = n + length (filter ?S ?p)"
    "view w2 = purge (\<lambda>k. k \<in> set ?p \<and> ?S k) ?v"
    "sweep_pages bk si reads ac uc c n w =
       (if 200 < length ?ks then sweep_pages bk si reads ac uc (last ?p) n2 w2 else Some ((n2, False), w2))"
    by (rule sweep_page [OF less.prems])
  have fin: "finite (dom ?v)" using view_finite [OF less.prems(1)] .
  show ?case
  proof (cases "200 < length ?ks")
    case False
    then have p: "?p = ?ks" by simp
    have "view w2 = purge (\<lambda>k. c < k \<and> ?S k) ?v"
      unfolding w2(4) p keys_after_set [OF fin] by (rule ext) (simp add: purge_def del: not_None_eq)
    then show ?thesis using w2 False p by auto
  next
    case True
    let ?c' = "last ?p"
    have nx: "keys_after (view w2) ?c' = drop 200 ?ks"
      unfolding w2(4) by (rule keys_after_next [OF fin _ True]) auto
    have S2: "stale reads ac uc (view w2) k = ?S k" if "k \<notin> set ?p" for k
      using that by (intro stale_cong) (simp add: w2(4) purge_def)
    have disj: "k \<notin> set ?p" if "k \<in> set (drop 200 ?ks)" for k
      using that set_take_disj_set_drop_if_distinct [OF keys_after_sorted(2), of 200 200 ?v c] by auto
    have filt: "filter (stale reads ac uc (view w2)) (drop 200 ?ks) = filter ?S (drop 200 ?ks)"
      using S2 disj by (intro filter_cong) auto
    have len: "length (keys_after (view w2) ?c') < length ?ks" using nx True by simp
    obtain w' where ih: "sweep_pages bk si reads ac uc ?c' n2 w2 =
        Some ((n2 + length (filter ?S (drop 200 ?ks)), False), w')" "ok w'" "reliable w'"
      "view w' = purge (\<lambda>k. ?c' < k \<and> stale reads ac uc (view w2) k) (view w2)"
      using less.hyps [OF len w2(1,2)] nx filt by auto
    have cnt: "n2 + length (filter ?S (drop 200 ?ks)) = n + length (filter ?S ?ks)"
      unfolding w2(3) by (metis add.assoc append_take_drop_id filter_append length_append)
    have "view w' = purge (\<lambda>k. c < k \<and> ?S k) ?v"
      unfolding ih(4) w2(4) by (rule purge_pages [OF fin True]) (use S2 in \<open>simp_all add: w2(4)\<close>)
    then show ?thesis using w2(5) True ih cnt by auto
  qed
qed

text \<open>From the empty cursor on, that is all of them.\<close>

lemma sweep_all_pages:
  assumes "ok w" "reliable w"
  shows "\<exists>w'. sweep_pages bk si reads ac uc [] 0 w =
      Some ((card {k. view w k \<noteq> None \<and> stale reads ac uc (view w) k}, False), w') \<and>
    ok w' \<and> reliable w' \<and> view w' = purge (stale reads ac uc (view w)) (view w)"
proof -
  let ?S = "stale reads ac uc (view w)"
  obtain w' where w': "sweep_pages bk si reads ac uc [] 0 w =
      Some ((0 + length (filter ?S (keys_after (view w) [])), False), w')"
    "ok w'" "reliable w'" "view w' = purge (\<lambda>k. [] < k \<and> ?S k) (view w)"
    using sweep_pages_exact [OF assms, of reads ac uc "[]" 0] by auto
  have fin: "finite (dom (view w))" using view_finite [OF assms(1)] .
  have ne: "view w k \<noteq> None \<Longrightarrow> [] < k" for k
    using view_keys [OF assms(1), of k] store_key_nonempty [of k] by (cases k) auto
  have "view w' = purge ?S (view w)"
  proof
    fix k
    show "view w' k = purge ?S (view w) k"
      unfolding w'(4) using ne [of k] by (cases "view w k = None") (simp_all add: purge_def)
  qed
  moreover have "length (filter ?S (keys_after (view w) [])) = card {k. view w k \<noteq> None \<and> ?S k}"
  proof -
    have "length (filter ?S (keys_after (view w) [])) = card (set (filter ?S (keys_after (view w) [])))"
      using keys_after_sorted(2) by (metis distinct_card distinct_filter)
    also have "set (filter ?S (keys_after (view w) [])) = {k. view w k \<noteq> None \<and> ?S k}"
      using ne by (auto simp: keys_after_set [OF fin])
    finally show ?thesis .
  qed
  ultimately show ?thesis using w' by simp
qed

text \<open>A whole sweep, once the statistics are loaded.\<close>

lemma sweep_exact:
  fixes cfg :: jan_config and now :: time
  assumes "ok w" "reliable w" "st_list_all si w = (Inr reads, w0)"
  defines "ac \<equiv> time_add now (dur_neg (jc_max_age cfg))"
    and "uc \<equiv> time_add now (dur_neg (jc_unread_after cfg))"
  shows "\<exists>n w'. sweep bk si cfg now w = Some ((n, False), w') \<and> ok w' \<and> reliable w' \<and>
    view w' = purge (stale reads ac uc (view w)) (view w) \<and>
    n = card {k. view w k \<noteq> None \<and> stale reads ac uc (view w) k}"
proof -
  note f = stats_list_frame [OF assms(3)]
  then have w0: "ok w0" "reliable w0" "view w0 = view w" using assms(1,2) by simp_all
  then show ?thesis
    using sweep_all_pages [OF w0(1,2), of reads ac uc] assms(3)
    by (simp add: sweep_def ac_def [symmetric] uc_def [symmetric])
qed

end

end
