(* ===== verification/JanitorWorld.thy ===== *)
theory JanitorWorld
  imports Janitor CacheWorld
begin

text \<open>
  The janitor as \<open>cmd/server\<close> starts it: over the active backend, with the read statistics of
  Postgres and the thresholds of \<open>main.go\<close>. While the active backend is a local directory the
  world is an ordered store, which interprets the janitor's locale.
\<close>

section \<open>The world with a local directory\<close>

definition dyn_local_ok :: "('s, 'g) dynamic \<Rightarrow> bool" where
  "dyn_local_ok d \<longleftrightarrow> (case dy_current d of BLocal l \<Rightarrow> local_ok l (md_fs (dy_media d)) | _ \<Rightarrow> False)"

definition dyn_local_view :: "('s, 'g) dynamic \<Rightarrow> blob_view" where
  "dyn_local_view d =
     (case dy_current d of BLocal l \<Rightarrow> local_view l (md_fs (dy_media d)) | _ \<Rightarrow> Map.empty)"

definition dyn_reliable :: "('s, 'g) dynamic \<Rightarrow> bool" where
  "dyn_reliable d \<longleftrightarrow> local_reliable (md_fs (dy_media d))"

lemma media_ordered:
  "ordered_store (backend_of apis (BLocal l)) (\<lambda>m. local_view l (md_fs m))
     (\<lambda>m. local_ok l (md_fs m)) (\<lambda>m. local_reliable (md_fs m))"
  unfolding backend_of_def backend.case
  by (intro lift_ordered_store local_disk.ordered_store_axioms) (simp add: is_lens_def)

lemma dyn_local_at:
  assumes "dyn_local_ok d"
  obtains l where "dy_current d = BLocal l" "local_ok l (md_fs (dy_media d))"
  using assms by (auto simp: dyn_local_ok_def split: backend.splits)

lemmas media_blob = ordered_store.axioms(1) [OF media_ordered]
lemmas media_weak = blob_store.axioms(1) [OF media_blob]
lemmas media_guarded = weak_store.axioms(1) [OF media_weak]

text \<open>The four layers of the contract, each from that of the directory in use.\<close>

lemma dyn_local_guarded: "guarded_store (dyn_backend apis) dyn_local_view dyn_local_ok"
proof (unfold_locales, unfold dyn_backend_simps on_media_eq, goal_cases)
  case (1 d h res d')
  obtain l where l: "dy_current d = BLocal l" "local_ok l (md_fs (dy_media d))" by (rule dyn_local_at [OF 1(1)])
  obtain m where m: "b_exists (backend_of apis (BLocal l)) h (dy_media d) = (res, m)"
    "d' = d\<lparr>dy_media := m\<rparr>" using 1(3) l(1) by auto
  show ?case using guarded_store.exists_law [OF media_guarded l(2) 1(2) m(1)] l
    by (simp add: m(2) dyn_local_ok_def dyn_local_view_def)
next
  case (2 d h r sz res d')
  obtain l where l: "dy_current d = BLocal l" "local_ok l (md_fs (dy_media d))" by (rule dyn_local_at [OF 2(1)])
  obtain m where m: "b_put (backend_of apis (BLocal l)) h r sz (dy_media d) = (res, m)"
    "d' = d\<lparr>dy_media := m\<rparr>" using 2(3) l(1) by auto
  show ?case using guarded_store.put_guard [OF media_guarded l(2) 2(2) m(1)] l
    by (simp add: m(2) dyn_local_ok_def dyn_local_view_def)
next
  case (3 d h r sz)
  obtain l where l: "dy_current d = BLocal l" "local_ok l (md_fs (dy_media d))" by (rule dyn_local_at [OF 3(1)])
  have "local_view l (md_fs (dy_media d)) h \<noteq> None" using 3(3) l(1) by (simp add: dyn_local_view_def)
  from guarded_store.put_present [OF media_guarded l(2) 3(2) this] show ?case using l(1) by (simp add: on_media_def)
next
  case (4 d h res d')
  obtain l where l: "dy_current d = BLocal l" "local_ok l (md_fs (dy_media d))" by (rule dyn_local_at [OF 4(1)])
  obtain m where m: "b_get (backend_of apis (BLocal l)) h (dy_media d) = (res, m)"
    "d' = d\<lparr>dy_media := m\<rparr>" using 4(3) l(1) by auto
  show ?case using guarded_store.get_law [OF media_guarded l(2) 4(2) m(1)] l
    by (simp add: m(2) dyn_local_ok_def dyn_local_view_def cong: sum.case_cong)
next
  case (5 d h res d')
  obtain l where l: "dy_current d = BLocal l" "local_ok l (md_fs (dy_media d))" by (rule dyn_local_at [OF 5(1)])
  obtain m where m: "b_delete (backend_of apis (BLocal l)) h (dy_media d) = (res, m)"
    "d' = d\<lparr>dy_media := m\<rparr>" using 5(3) l(1) by auto
  show ?case using guarded_store.delete_law [OF media_guarded l(2) 5(2) m(1)] l
    by (simp add: m(2) dyn_local_ok_def dyn_local_view_def cong: sum.case_cong)
next
  case (6 d h)
  then show ?case
    by (auto simp: dyn_local_view_def local_view_def split: backend.splits if_splits)
next
  case (7 d)
  obtain l where l: "dy_current d = BLocal l" "local_ok l (md_fs (dy_media d))" by (rule dyn_local_at [OF 7])
  then show ?case using local_view_finite by (simp add: dyn_local_view_def)
qed

lemma dyn_local_weak: "weak_store (dyn_backend apis) dyn_local_view dyn_local_ok"
proof (intro weak_store.intro dyn_local_guarded weak_store_axioms.intro, unfold dyn_backend_simps on_media_eq, goal_cases)
  case (1 d h r sz res d')
  obtain l where l: "dy_current d = BLocal l" "local_ok l (md_fs (dy_media d))" by (rule dyn_local_at [OF 1(1)])
  obtain m where m: "b_put (backend_of apis (BLocal l)) h r sz (dy_media d) = (res, m)"
    "d' = d\<lparr>dy_media := m\<rparr>" using 1(3) l(1) by auto
  show ?case using weak_store.put_law [OF media_weak l(2) 1(2) m(1)] l by (simp add: m(2) dyn_local_view_def)
qed

lemma dyn_local_blob: "blob_store (dyn_backend apis) dyn_local_view dyn_local_ok"
proof (intro blob_store.intro dyn_local_weak blob_store_axioms.intro, unfold dyn_backend_simps on_media_eq, goal_cases)
  case (1 d h r sz e d')
  obtain l where l: "dy_current d = BLocal l" "local_ok l (md_fs (dy_media d))" by (rule dyn_local_at [OF 1(1)])
  obtain m where m: "b_put (backend_of apis (BLocal l)) h r sz (dy_media d) = (Inl e, m)"
    "d' = d\<lparr>dy_media := m\<rparr>" using 1(3) l(1) by auto
  show ?case using blob_store.put_exact [OF media_blob l(2) 1(2) m(1)] l by (simp add: m(2) dyn_local_view_def)
next
  case (2 d h e d')
  obtain l where l: "dy_current d = BLocal l" "local_ok l (md_fs (dy_media d))" by (rule dyn_local_at [OF 2(1)])
  obtain m where m: "b_delete (backend_of apis (BLocal l)) h (dy_media d) = (Inl e, m)"
    "d' = d\<lparr>dy_media := m\<rparr>" using 2(3) l(1) by auto
  show ?case using blob_store.delete_exact [OF media_blob l(2) 2(2) m(1)] l by (simp add: m(2) dyn_local_view_def)
qed

lemma dyn_ordered: "ordered_store (dyn_backend apis) dyn_local_view dyn_local_ok dyn_reliable"
proof (intro ordered_store.intro dyn_local_blob ordered_store_axioms.intro, unfold dyn_backend_simps on_media_eq, goal_cases)
  case (1 d h)
  obtain l where l: "dy_current d = BLocal l" "local_ok l (md_fs (dy_media d))" by (rule dyn_local_at [OF 1(1)])
  obtain m where m: "local_reliable (md_fs m)" "b_delete (backend_of apis (BLocal l)) h (dy_media d) =
      (if local_view l (md_fs (dy_media d)) h = None then Inl ErrNotFound else Inr (), m)"
    using ordered_store.delete_reliable [OF media_ordered l(2) _ 1(3)] 1(2) unfolding dyn_reliable_def by blast
  show ?case
    using m l(1) by (intro exI [of _ "d\<lparr>dy_media := m\<rparr>"]) (simp add: dyn_reliable_def on_media_eq dyn_local_view_def)
next
  case (2 d lim cur)
  obtain l where l: "dy_current d = BLocal l" "local_ok l (md_fs (dy_media d))" by (rule dyn_local_at [OF 2(1)])
  have v: "dyn_local_view d = local_view l (md_fs (dy_media d))" using l(1) by (simp add: dyn_local_view_def)
  obtain m where m: "local_reliable (md_fs m)" "local_ok l (md_fs m)"
    "local_view l (md_fs m) = local_view l (md_fs (dy_media d))"
    "b_list (backend_of apis (BLocal l)) cur lim (dy_media d) =
      (let ks = filter (\<lambda>k. cur < k) (sorted_list_of_set (dom (local_view l (md_fs (dy_media d)))));
           page = take (nat lim) ks
       in (Inr \<lparr>page_entries = map (\<lambda>k. \<lparr>e_hash = k,
             e_size = int (length (fst (the (local_view l (md_fs (dy_media d)) k)))),
             e_mod = snd (the (local_view l (md_fs (dy_media d)) k))\<rparr>) page,
             next_cursor = (if nat lim < length ks then last page else [])\<rparr>, m))"
    using ordered_store.list_reliable [OF media_ordered l(2) _ 2(3), where cur = cur] 2(2) unfolding dyn_reliable_def by blast
  show ?case unfolding v
    using m l by (intro exI [of _ "d\<lparr>dy_media := m\<rparr>"])
      (simp add: dyn_reliable_def dyn_local_ok_def dyn_local_view_def on_media_eq Let_def)
qed

definition world_local_view :: "('s, 'g) world \<Rightarrow> blob_view" where
  "world_local_view w = dyn_local_view (w_dyn w)"

definition world_local_ok :: "('s, 'g) world \<Rightarrow> bool" where
  "world_local_ok w \<longleftrightarrow> dyn_local_ok (w_dyn w)"

definition world_reliable :: "('s, 'g) world \<Rightarrow> bool" where
  "world_reliable w \<longleftrightarrow> dyn_reliable (w_dyn w)"

definition world_stats :: "('s, 'g) world stats_if" where
  "world_stats = \<lparr>st_list_all = on_pg list_all_cache_read_stats,
     st_delete = (\<lambda>h. on_pg (delete_cache_read_stats h))\<rparr>"

interpretation world_janitor: janitor_world "world_backend apis" world_local_view world_local_ok
  world_reliable world_stats
proof (intro janitor_world.intro janitor_world_axioms.intro)
  show "ordered_store (world_backend apis) world_local_view world_local_ok world_reliable"
    unfolding world_backend_def world_local_view_def [abs_def] world_local_ok_def [abs_def]
      world_reliable_def [abs_def]
    by (intro lift_ordered_store dyn_ordered) (simp add: is_lens_def)
qed (auto simp: world_stats_def on_pg_eq world_local_view_def world_local_ok_def world_reliable_def)

section \<open>The thresholds of the server\<close>

definition janitor_max_age :: duration where "janitor_max_age = 30 * 24 * nano_hour"
definition janitor_unread_after :: duration where "janitor_unread_after = 14 * 24 * nano_hour"
definition janitor_interval :: duration where "janitor_interval = 6 * nano_hour"

definition main_janitor :: jan_config where
  "main_janitor = \<lparr>jc_max_age = janitor_max_age, jc_unread_after = janitor_unread_after,
     jc_interval = janitor_interval\<rparr>"

lemma main_cutoffs:
  "time_add now (dur_neg (jc_max_age main_janitor)) = now - 30 * 24 * nano_hour"
  "time_add now (dur_neg (jc_unread_after main_janitor)) = now - 14 * 24 * nano_hour"
  by (simp_all add: main_janitor_def janitor_max_age_def janitor_unread_after_def nano_hour_def
      dur_neg_exact time_add_def)

text \<open>An artifact the running server prunes: 30 days old, or 14 days old and not read since.\<close>

definition expired :: "pg \<Rightarrow> time \<Rightarrow> string \<Rightarrow> byte list \<times> time \<Rightarrow> bool" where
  "expired p now k a \<longleftrightarrow>
     snd a < now - 30 * 24 * nano_hour \<or>
     snd a < now - 14 * 24 * nano_hour \<and>
       (case map_of (pg_reads p) k of
          Some s \<Rightarrow> (case rs_last s of Some t \<Rightarrow> t < now - 14 * 24 * nano_hour | None \<Rightarrow> True)
        | None \<Rightarrow> True)"

lemma stale_expired:
  "v k = Some a \<Longrightarrow> stale (pg_reads p) (now - 30 * 24 * nano_hour) (now - 14 * 24 * nano_hour) v k \<longleftrightarrow> expired p now k a"
  by (auto simp: stale_def view_entry_def should_delete_def stats_of_def expired_def time_before_def
      split: option.splits)

text \<open>
  C4. With the server's thresholds, a local directory that answers and a database that
  answers, a sweep ends without error; it removes an artifact if and only if it is 30 days old,
  or 14 days old and was not read in the last 14 days, leaves the bytes and times of every other
  one as they are, and returns the number of removals.
\<close>

theorem janitor_sweep_exact:
  assumes "world_local_ok w" "world_reliable w" "pg_faults (w_pg w) = []"
  shows "\<exists>n w'. sweep (world_backend apis) world_stats main_janitor now w = Some ((n, False), w') \<and>
    (\<forall>k. world_local_view w' k =
       (case world_local_view w k of
          None \<Rightarrow> None
        | Some a \<Rightarrow> if expired (w_pg w) now k a then None else Some a)) \<and>
    n = card {k. \<exists>a. world_local_view w k = Some a \<and> expired (w_pg w) now k a}"
proof -
  let ?S = "stale (pg_reads (w_pg w)) (now - 30 * 24 * nano_hour) (now - 14 * 24 * nano_hour) (world_local_view w)"
  have l: "st_list_all world_stats w = (Inr (pg_reads (w_pg w)), w)"
    using assms(3) by (simp add: world_stats_def on_pg_eq list_all_cache_read_stats_def plain_result_def)
  obtain n w' where s: "sweep (world_backend apis) world_stats main_janitor now w = Some ((n, False), w')"
    "world_local_view w' = purge ?S (world_local_view w)"
    "n = card {k. world_local_view w k \<noteq> None \<and> ?S k}"
    using world_janitor.sweep_exact [OF assms(1,2) l, where now = now and cfg = main_janitor]
    unfolding main_cutoffs by blast
  have "{k. world_local_view w k \<noteq> None \<and> ?S k} = {k. \<exists>a. world_local_view w k = Some a \<and> expired (w_pg w) now k a}"
    using stale_expired [of "world_local_view w"] by (intro Collect_cong) (metis not_None_eq)
  moreover have "world_local_view w' k = (case world_local_view w k of None \<Rightarrow> None
      | Some a \<Rightarrow> if expired (w_pg w) now k a then None else Some a)" for k
    using stale_expired [of "world_local_view w" k] by (simp add: s(2) purge_def split: option.split)
  ultimately show ?thesis using s(1,3) by metis
qed

text \<open>An artifact of day 0 and one of day 20, swept on day 40 with no reads recorded.\<close>

definition day :: duration where "day = 24 * nano_hour"

definition sweep_world :: "(mem_bucket, mem_bucket) world" where
  "sweep_world = \<lparr>w_dyn = new_dynamic (BLocal \<lparr>l_dir = ''c''\<rparr>)
       \<lparr>md_fs = disk0\<lparr>fs_names := [((False, [''c'']), DirNode), ((False, [''c'', ''a'']), FileNode 0),
            ((False, [''c'', ''b'']), FileNode 1)],
          fs_inodes := [(0, \<lparr>i_data = [1], i_mtime = 0\<rparr>), (1, \<lparr>i_data = [2], i_mtime = 30 * day\<rparr>)],
          fs_next := 2\<rparr>, md_s3 = bucket0, md_gcs = bucket0\<rparr>,
     w_pg = pg_one_user\<rparr>"

theorem janitor_sweep_exact_witness:
  "\<exists>n w'. sweep (world_backend mem_apis) world_stats main_janitor (40 * day) sweep_world = Some ((n, False), w') \<and>
     world_local_view w' ''a'' = None \<and> world_local_view w' ''b'' = Some ([2], 30 * day)"
proof -
  let ?l = "\<lparr>l_dir = ''c''\<rparr>" and ?f = "md_fs (dy_media (w_dyn sweep_world))"
  have "local_ok ?l ?f" by code_simp
  then have ok: "world_local_ok sweep_world"
    by (simp add: world_local_ok_def dyn_local_ok_def sweep_world_def new_dynamic_def)
  have rel: "world_reliable sweep_world"
    by (simp add: world_reliable_def dyn_reliable_def local_reliable_def sweep_world_def new_dynamic_def disk0_def)
  have pg: "pg_faults (w_pg sweep_world) = []" by code_simp
  have a: "world_local_view sweep_world ''a'' = Some ([1], 0)" by code_simp
  have b: "world_local_view sweep_world ''b'' = Some ([2], 30 * day)" by code_simp
  have ea: "expired (w_pg sweep_world) (40 * day) ''a'' ([1], 0)"
    and eb: "\<not> expired (w_pg sweep_world) (40 * day) ''b'' ([2], 30 * day)" by code_simp+
  show ?thesis
    using janitor_sweep_exact [OF ok rel pg, of mem_apis "40 * day"] a b ea eb by fastforce
qed

end
