(* ===== verification/AdminApi.thy ===== *)
theory AdminApi
  imports SettingsProps JanitorWorld
begin

text \<open>
  The admin API, first part: the state of \<open>internal/adminapi\<close>, the middleware \<open>protected\<close>, the login
  limiter, cookies, and the handlers for logins, users, tokens and settings. A handler takes a
  request and the state of the server and gives a response and the next state; bcrypt, SHA-256,
  AES-GCM, the cloud services and the token bucket of \<open>golang.org/x/time/rate\<close> are arguments.
\<close>

section \<open>The server and its requests\<close>

text \<open>A token bucket: \<open>rate.NewLimiter(rate.Every(interval), burst)\<close> and \<open>Allow\<close> at an instant.\<close>

record 'l rate_api =
  rl_new :: "duration \<Rightarrow> nat \<Rightarrow> 'l"
  rl_allow :: "time \<Rightarrow> 'l \<Rightarrow> bool \<times> 'l"

record ('s, 'g, 'l) admin_deps =
  dp_apis :: "('s, 'g) cloud_apis"
  dp_cipher :: cipher
  dp_enc :: encryptor
  dp_bcrypt :: bcrypt
  dp_sha :: "string \<Rightarrow> string"
  dp_rate :: "'l rate_api"
  dp_cookie_secure :: bool

text \<open>The live server, and the limiter of each client address.\<close>

record ('s, 'g, 'l) admin =
  ad_app :: "('s, 'g) app"
  ad_limits :: "(string \<times> 'l) list"

text \<open>
  A request: method, CSRF header, session cookie, peer address, query, the JSON value of the body;
  then what the server draws while it handles it: its clock and the database's, random bytes,
  bcrypt's salt, the nonces.
\<close>

record admin_req =
  aq_meth :: string
  aq_csrf :: string
  aq_cookie :: "string option"
  aq_remote :: string
  aq_query :: "(string \<times> string) list"
  aq_body :: "json option"
  aq_now :: time
  aq_db_now :: time
  aq_rnd :: "string option"
  aq_salt :: string
  aq_nonces :: "string option \<times> string option \<times> string option"

definition new_admin :: "('s, 'g) app \<Rightarrow> ('s, 'g, 'l) admin" where
  "new_admin a = \<lparr>ad_app = a, ad_limits = []\<rparr>"

definition ad_on_app :: "(('s, 'g) app \<Rightarrow> 'r \<times> ('s, 'g) app) \<Rightarrow> ('s, 'g, 'l) admin \<Rightarrow> 'r \<times> ('s, 'g, 'l) admin" where
  "ad_on_app f = lift_state ad_app (\<lambda>x a. a\<lparr>ad_app := x\<rparr>) f"

definition ad_on_pg :: "(pg \<Rightarrow> 'r \<times> pg) \<Rightarrow> ('s, 'g, 'l) admin \<Rightarrow> 'r \<times> ('s, 'g, 'l) admin" where
  "ad_on_pg f = ad_on_app (app_on_pg f)"

definition internal_error :: response where
  "internal_error = write_error 500 ''internal error''"

definition bad_body :: response where
  "bad_body = write_error 400 ''invalid request body''"

definition status_ok :: response where
  "status_ok = write_json 200 (JObj [(''status'', JStr ''ok'')])"

section \<open>middleware.go\<close>

definition protected ::
  "('s, 'g, 'l) admin_deps \<Rightarrow>
     (user \<Rightarrow> admin_req \<Rightarrow> ('s, 'g, 'l) admin \<Rightarrow> (response \<times> ('s, 'g, 'l) admin) option) \<Rightarrow>
     admin_req \<Rightarrow> ('s, 'g, 'l) admin \<Rightarrow> (response \<times> ('s, 'g, 'l) admin) option" where
  "protected d next_handler q a =
     (if aq_meth q \<noteq> ''GET'' \<and> aq_meth q \<noteq> ''HEAD'' \<and> aq_csrf q = []
      then Some (write_error 403 ''missing required header'', a)
      else (case ad_on_pg (current_user (dp_sha d) (aq_db_now q)
                  (case aq_cookie q of None \<Rightarrow> [] | Some c \<Rightarrow> c)) a of
              (Inl _, a1) \<Rightarrow> Some (write_error 401 ''not authenticated'', a1)
            | (Inr u, a1) \<Rightarrow> next_handler u q a1))"

definition login_interval :: duration where "login_interval = 12 * nano_second"
definition login_burst :: nat where "login_burst = 5"

definition limiter_allow :: "'l rate_api \<Rightarrow> string \<Rightarrow> time \<Rightarrow> (string \<times> 'l) list \<Rightarrow> bool \<times> (string \<times> 'l) list" where
  "limiter_allow rl key now limits =
     (let lim = (case map_of limits key of None \<Rightarrow> rl_new rl login_interval login_burst | Some l \<Rightarrow> l);
          (ok, lim') = rl_allow rl now lim
      in (ok, AList.update key lim' limits))"

text \<open>\<open>net.SplitHostPort\<close>: the host before the last colon, in brackets when it contains colons.\<close>

definition index_byte :: "char \<Rightarrow> string \<Rightarrow> nat" where
  "index_byte c s = length (takeWhile (\<lambda>x. x \<noteq> c) s)"

definition last_index_byte :: "char \<Rightarrow> string \<Rightarrow> nat" where
  "last_index_byte c s = length s - 1 - index_byte c (rev s)"

definition split_host :: "string \<Rightarrow> string option" where
  "split_host s =
     (if CHR '':'' \<notin> set s then None
      else if hd s = CHR ''['' then
        (if CHR '']'' \<notin> set s then None
         else (let e = index_byte (CHR '']'') s
               in if e + 1 \<noteq> last_index_byte (CHR '':'') s then None
                  else if CHR ''['' \<in> set (drop 1 s) \<or> CHR '']'' \<in> set (drop (e + 1) s) then None
                  else Some (take (e - 1) (drop 1 s))))
      else (let host = take (last_index_byte (CHR '':'') s) s
            in if CHR '':'' \<in> set host \<or> CHR ''['' \<in> set s \<or> CHR '']'' \<in> set s then None else Some host))"

definition client_ip :: "string \<Rightarrow> string" where
  "client_ip remote_addr = (case split_host remote_addr of None \<Rightarrow> remote_addr | Some host \<Rightarrow> host)"

section \<open>auth\_handlers.go\<close>

definition session_cookie_name :: string where "session_cookie_name = ''nxcache_session''"

text \<open>
  \<open>MaxAge\<close> is \<open>int(TTL.Seconds())\<close>: the seconds of the lifetime, exact for a whole number of them.
\<close>

definition session_cookie :: "bool \<Rightarrow> duration \<Rightarrow> string \<Rightarrow> cookie" where
  "session_cookie secure ttl raw =
     \<lparr>ck_name = session_cookie_name, ck_value = raw, ck_path = ''/admin/api'', ck_http_only = True,
      ck_secure = secure, ck_strict = True, ck_max_age = go_quot ttl nano_second\<rparr>"

definition cleared_cookie :: "bool \<Rightarrow> cookie" where
  "cleared_cookie secure =
     \<lparr>ck_name = session_cookie_name, ck_value = [], ck_path = ''/admin/api'', ck_http_only = True,
      ck_secure = secure, ck_strict = True, ck_max_age = - 1\<rparr>"

record login_request =
  lr_email :: string
  lr_password :: string

definition set_login :: "string \<Rightarrow> json \<Rightarrow> login_request \<Rightarrow> login_request option" where
  "set_login name v r =
     (if name = ''email'' then decode_str (\<lambda>s. r\<lparr>lr_email := s\<rparr>) r v
      else decode_str (\<lambda>s. r\<lparr>lr_password := s\<rparr>) r v)"

definition decode_login :: "json option \<Rightarrow> login_request option" where
  "decode_login = decode_json [''email'', ''password''] set_login \<lparr>lr_email = [], lr_password = []\<rparr>"

definition handle_login ::
  "('s, 'g, 'l) admin_deps \<Rightarrow> admin_req \<Rightarrow> ('s, 'g, 'l) admin \<Rightarrow> response \<times> ('s, 'g, 'l) admin" where
  "handle_login d q a =
     (case limiter_allow (dp_rate d) (client_ip (aq_remote q)) (aq_now q) (ad_limits a) of
        (ok, limits) \<Rightarrow>
          (let a1 = a\<lparr>ad_limits := limits\<rparr>
           in if \<not> ok then (write_error 429 ''too many login attempts, try again shortly'', a1)
              else case decode_login (aq_body q) of
                     None \<Rightarrow> (bad_body, a1)
                   | Some req \<Rightarrow>
                       (case ad_on_pg (login (dp_bcrypt d) (dp_sha d) (app_ttl (ad_app a1)) (aq_now q) (aq_rnd q)
                               (lr_email req) (lr_password req)) a1 of
                          ((Inl InvalidCredentials, _), a2) \<Rightarrow> (write_error 401 ''invalid email or password'', a2)
                        | ((Inl _, _), a2) \<Rightarrow> (internal_error, a2)
                        | ((Inr raw, _), a2) \<Rightarrow>
                            (status_ok\<lparr>rs_cookies := [session_cookie (dp_cookie_secure d) (app_ttl (ad_app a2)) raw]\<rparr>,
                             a2))))"

definition handle_logout ::
  "('s, 'g, 'l) admin_deps \<Rightarrow> user \<Rightarrow> admin_req \<Rightarrow> ('s, 'g, 'l) admin \<Rightarrow> response \<times> ('s, 'g, 'l) admin" where
  "handle_logout d u q a =
     (status_ok\<lparr>rs_cookies := [cleared_cookie (dp_cookie_secure d)]\<rparr>,
      (case aq_cookie q of None \<Rightarrow> a | Some c \<Rightarrow> snd (ad_on_pg (logout (dp_sha d) c) a)))"

definition user_dto :: "user \<Rightarrow> json" where
  "user_dto u = JObj [(''id'', JInt (usr_id u)), (''email'', JStr (usr_email u)), (''createdAt'', JTime (usr_created u))]"

definition handle_me :: "user \<Rightarrow> admin_req \<Rightarrow> ('s, 'g, 'l) admin \<Rightarrow> response \<times> ('s, 'g, 'l) admin" where
  "handle_me u q a = (write_json 200 (user_dto u), a)"

section \<open>users\_handlers.go\<close>

definition handle_list_users :: "user \<Rightarrow> admin_req \<Rightarrow> ('s, 'g, 'l) admin \<Rightarrow> response \<times> ('s, 'g, 'l) admin" where
  "handle_list_users u q a =
     (case ad_on_pg list_users a of
        (Inl _, a1) \<Rightarrow> (internal_error, a1)
      | (Inr users, a1) \<Rightarrow> (write_json 200 (JArr (map user_dto users)), a1))"

definition min_password :: nat where "min_password = 8"

definition handle_create_user ::
  "('s, 'g, 'l) admin_deps \<Rightarrow> user \<Rightarrow> admin_req \<Rightarrow> ('s, 'g, 'l) admin \<Rightarrow> response \<times> ('s, 'g, 'l) admin" where
  "handle_create_user d u q a =
     (case decode_login (aq_body q) of
        None \<Rightarrow> (bad_body, a)
      | Some req \<Rightarrow>
          (let email = trim_space (to_lower (lr_email req))
           in if CHR ''@'' \<notin> set email \<or> length email < 3 then (write_error 400 ''invalid email'', a)
              else if length (lr_password req) < min_password
              then (write_error 400 ''password must be at least 8 characters'', a)
              else (case hash_password (dp_bcrypt d) (aq_salt q) (lr_password req) of
                      None \<Rightarrow> (internal_error, a)
                    | Some hash \<Rightarrow>
                        (case ad_on_pg (create_user (aq_db_now q) email hash) a of
                           (Inl StConflict, a1) \<Rightarrow> (write_error 409 ''a user with that email already exists'', a1)
                         | (Inl _, a1) \<Rightarrow> (internal_error, a1)
                         | (Inr nu, a1) \<Rightarrow> (write_json 201 (user_dto nu), a1)))))"

text \<open>
  Counting the users and deleting one are two statements, between which other requests run: the
  checks, which refuse or give the id to delete, and the deletion.
\<close>

definition delete_user_checks ::
  "string \<Rightarrow> user \<Rightarrow> ('s, 'g, 'l) admin \<Rightarrow> (response + int) \<times> ('s, 'g, 'l) admin" where
  "delete_user_checks path_id u a =
     (case parse_int path_id of
        None \<Rightarrow> (Inl (write_error 400 ''invalid user id''), a)
      | Some i \<Rightarrow>
          (if i = usr_id u then (Inl (write_error 400 ''cannot delete your own account''), a)
           else (case ad_on_pg count_users a of
                   (Inl _, a1) \<Rightarrow> (Inl internal_error, a1)
                 | (Inr n, a1) \<Rightarrow>
                     (if n \<le> 1 then (Inl (write_error 400 ''cannot delete the last remaining admin''), a1)
                      else (Inr i, a1)))))"

definition delete_user_commit :: "int \<Rightarrow> ('s, 'g, 'l) admin \<Rightarrow> response \<times> ('s, 'g, 'l) admin" where
  "delete_user_commit i a =
     (case ad_on_pg (delete_user i) a of
        (Inl StNotFound, a1) \<Rightarrow> (write_error 404 ''user not found'', a1)
      | (Inl _, a1) \<Rightarrow> (internal_error, a1)
      | (Inr _, a1) \<Rightarrow> (plain_response 204, a1))"

definition handle_delete_user ::
  "string \<Rightarrow> user \<Rightarrow> admin_req \<Rightarrow> ('s, 'g, 'l) admin \<Rightarrow> response \<times> ('s, 'g, 'l) admin" where
  "handle_delete_user path_id u q a =
     (case delete_user_checks path_id u a of
        (Inl r, a1) \<Rightarrow> (r, a1)
      | (Inr i, a1) \<Rightarrow> delete_user_commit i a1)"

record password_request =
  pr_current :: string
  pr_new :: string

definition set_password :: "string \<Rightarrow> json \<Rightarrow> password_request \<Rightarrow> password_request option" where
  "set_password name v r =
     (if name = ''currentPassword'' then decode_str (\<lambda>s. r\<lparr>pr_current := s\<rparr>) r v
      else decode_str (\<lambda>s. r\<lparr>pr_new := s\<rparr>) r v)"

definition decode_password :: "json option \<Rightarrow> password_request option" where
  "decode_password = decode_json [''currentPassword'', ''newPassword''] set_password \<lparr>pr_current = [], pr_new = []\<rparr>"

definition handle_change_password ::
  "('s, 'g, 'l) admin_deps \<Rightarrow> user \<Rightarrow> admin_req \<Rightarrow> ('s, 'g, 'l) admin \<Rightarrow> response \<times> ('s, 'g, 'l) admin" where
  "handle_change_password d u q a =
     (case decode_password (aq_body q) of
        None \<Rightarrow> (bad_body, a)
      | Some req \<Rightarrow>
          (if \<not> verify_password (dp_bcrypt d) (usr_pwhash u) (pr_current req)
           then (write_error 401 ''current password is incorrect'', a)
           else if length (pr_new req) < min_password
           then (write_error 400 ''password must be at least 8 characters'', a)
           else (case hash_password (dp_bcrypt d) (aq_salt q) (pr_new req) of
                   None \<Rightarrow> (internal_error, a)
                 | Some hash \<Rightarrow>
                     (case ad_on_pg (update_password (usr_id u) hash) a of
                        (Inl _, a1) \<Rightarrow> (internal_error, a1)
                      | (Inr _, a1) \<Rightarrow> (status_ok, a1)))))"

section \<open>tokens\_handlers.go\<close>

text \<open>Fields marked \<open>omitempty\<close> are left out when their pointer is nil.\<close>

definition opt_time :: "string \<Rightarrow> time option \<Rightarrow> (string \<times> json) list" where
  "opt_time name t = (case t of None \<Rightarrow> [] | Some x \<Rightarrow> [(name, JTime x)])"

definition token_fields :: "token \<Rightarrow> (string \<times> json) list" where
  "token_fields t =
     [(''id'', JInt (tok_id t)), (''name'', JStr (tok_name t)), (''scope'', JStr (tok_scope t)),
      (''createdAt'', JTime (tok_created t))] @
     opt_time ''lastUsedAt'' (tok_last_used t) @ opt_time ''revokedAt'' (tok_revoked t)"

definition token_dto :: "token \<Rightarrow> json" where
  "token_dto t = JObj (token_fields t)"

definition handle_list_tokens :: "user \<Rightarrow> admin_req \<Rightarrow> ('s, 'g, 'l) admin \<Rightarrow> response \<times> ('s, 'g, 'l) admin" where
  "handle_list_tokens u q a =
     (case ad_on_pg list_tokens a of
        (Inl _, a1) \<Rightarrow> (internal_error, a1)
      | (Inr tokens, a1) \<Rightarrow> (write_json 200 (JArr (map token_dto tokens)), a1))"

record token_request =
  tr_name :: string
  tr_scope :: string

definition set_token :: "string \<Rightarrow> json \<Rightarrow> token_request \<Rightarrow> token_request option" where
  "set_token name v r =
     (if name = ''name'' then decode_str (\<lambda>s. r\<lparr>tr_name := s\<rparr>) r v
      else decode_str (\<lambda>s. r\<lparr>tr_scope := s\<rparr>) r v)"

definition decode_token :: "json option \<Rightarrow> token_request option" where
  "decode_token = decode_json [''name'', ''scope''] set_token \<lparr>tr_name = [], tr_scope = []\<rparr>"

definition handle_create_token ::
  "('s, 'g, 'l) admin_deps \<Rightarrow> user \<Rightarrow> admin_req \<Rightarrow> ('s, 'g, 'l) admin \<Rightarrow> response \<times> ('s, 'g, 'l) admin" where
  "handle_create_token d u q a =
     (case decode_token (aq_body q) of
        None \<Rightarrow> (bad_body, a)
      | Some req \<Rightarrow>
          (let name = trim_space (tr_name req)
           in if name = [] then (write_error 400 ''name is required'', a)
              else if tr_scope req \<noteq> scope_read \<and> tr_scope req \<noteq> scope_write
              then (write_error 400 ''scope must be \"read\" or \"write\"'', a)
              else (case generate_token (aq_rnd q) of
                      None \<Rightarrow> (internal_error, a)
                    | Some raw \<Rightarrow>
                        (case ad_on_pg (create_token (aq_db_now q) name (tr_scope req)
                                (hash_token (dp_sha d) raw) (usr_id u)) a of
                           (Inl StConflict, a1) \<Rightarrow> (write_error 409 ''token collision, please retry'', a1)
                         | (Inl _, a1) \<Rightarrow> (internal_error, a1)
                         | (Inr t, a1) \<Rightarrow>
                             (write_json 201 (JObj (token_fields t @ [(''token'', JStr raw)])), a1)))))"

definition handle_revoke_token ::
  "string \<Rightarrow> user \<Rightarrow> admin_req \<Rightarrow> ('s, 'g, 'l) admin \<Rightarrow> response \<times> ('s, 'g, 'l) admin" where
  "handle_revoke_token path_id u q a =
     (case parse_int path_id of
        None \<Rightarrow> (write_error 400 ''invalid token id'', a)
      | Some i \<Rightarrow>
          (case ad_on_pg (revoke_token (aq_db_now q) i) a of
             (Inl StNotFound, a1) \<Rightarrow> (write_error 404 ''token not found'', a1)
           | (Inl _, a1) \<Rightarrow> (internal_error, a1)
           | (Inr _, a1) \<Rightarrow> (plain_response 204, a1)))"

section \<open>settings\_handlers.go\<close>

definition settings_dto :: "settings \<Rightarrow> json" where
  "settings_dto s = JObj
     [(''storageBackend'', JStr (se_backend s)), (''localDir'', JStr (se_local_dir s)),
      (''s3Bucket'', JStr (se_s3_bucket s)), (''s3Region'', JStr (se_s3_region s)),
      (''s3Prefix'', JStr (se_s3_prefix s)), (''s3Endpoint'', JStr (se_s3_endpoint s)),
      (''s3UsePathStyle'', JBool (se_s3_path_style s)), (''s3AccessKeyIdSet'', JBool (se_s3_key_set s)),
      (''s3SecretAccessKeySet'', JBool (se_s3_secret_set s)), (''gcsBucket'', JStr (se_gcs_bucket s)),
      (''gcsPrefix'', JStr (se_gcs_prefix s)), (''gcsCredentialsSet'', JBool (se_gcs_creds_set s)),
      (''sessionTtlSeconds'', JInt (go_quot (se_ttl s) nano_second)),
      (''maxCacheEntryBytes'', JInt (se_max s)), (''updatedAt'', JTime (se_updated_at s))]"

definition handle_get_settings :: "user \<Rightarrow> admin_req \<Rightarrow> ('s, 'g, 'l) admin \<Rightarrow> response \<times> ('s, 'g, 'l) admin" where
  "handle_get_settings u q a = (write_json 200 (settings_dto (current_settings (ad_app a))), a)"

record settings_request =
  sr_backend :: string
  sr_local_dir :: string
  sr_s3_bucket :: string
  sr_s3_region :: string
  sr_s3_prefix :: string
  sr_s3_endpoint :: string
  sr_s3_path_style :: bool
  sr_s3_key :: "string option"
  sr_s3_secret :: "string option"
  sr_gcs_bucket :: string
  sr_gcs_prefix :: string
  sr_gcs_creds :: "string option"
  sr_ttl_seconds :: int
  sr_max :: int

definition set_settings :: "string \<Rightarrow> json \<Rightarrow> settings_request \<Rightarrow> settings_request option" where
  "set_settings name v r =
     (if name = ''storageBackend'' then decode_str (\<lambda>s. r\<lparr>sr_backend := s\<rparr>) r v
      else if name = ''localDir'' then decode_str (\<lambda>s. r\<lparr>sr_local_dir := s\<rparr>) r v
      else if name = ''s3Bucket'' then decode_str (\<lambda>s. r\<lparr>sr_s3_bucket := s\<rparr>) r v
      else if name = ''s3Region'' then decode_str (\<lambda>s. r\<lparr>sr_s3_region := s\<rparr>) r v
      else if name = ''s3Prefix'' then decode_str (\<lambda>s. r\<lparr>sr_s3_prefix := s\<rparr>) r v
      else if name = ''s3Endpoint'' then decode_str (\<lambda>s. r\<lparr>sr_s3_endpoint := s\<rparr>) r v
      else if name = ''s3UsePathStyle'' then decode_bool (\<lambda>b. r\<lparr>sr_s3_path_style := b\<rparr>) r v
      else if name = ''s3AccessKeyId'' then decode_opt_str (\<lambda>s. r\<lparr>sr_s3_key := s\<rparr>) v
      else if name = ''s3SecretAccessKey'' then decode_opt_str (\<lambda>s. r\<lparr>sr_s3_secret := s\<rparr>) v
      else if name = ''gcsBucket'' then decode_str (\<lambda>s. r\<lparr>sr_gcs_bucket := s\<rparr>) r v
      else if name = ''gcsPrefix'' then decode_str (\<lambda>s. r\<lparr>sr_gcs_prefix := s\<rparr>) r v
      else if name = ''gcsCredentialsJson'' then decode_opt_str (\<lambda>s. r\<lparr>sr_gcs_creds := s\<rparr>) v
      else if name = ''sessionTtlSeconds'' then decode_int (\<lambda>i. r\<lparr>sr_ttl_seconds := i\<rparr>) r v
      else decode_int (\<lambda>i. r\<lparr>sr_max := i\<rparr>) r v)"

definition decode_settings :: "json option \<Rightarrow> settings_request option" where
  "decode_settings = decode_json
     [''storageBackend'', ''localDir'', ''s3Bucket'', ''s3Region'', ''s3Prefix'', ''s3Endpoint'',
      ''s3UsePathStyle'', ''s3AccessKeyId'', ''s3SecretAccessKey'', ''gcsBucket'', ''gcsPrefix'',
      ''gcsCredentialsJson'', ''sessionTtlSeconds'', ''maxCacheEntryBytes''] set_settings
     \<lparr>sr_backend = [], sr_local_dir = [], sr_s3_bucket = [], sr_s3_region = [], sr_s3_prefix = [],
      sr_s3_endpoint = [], sr_s3_path_style = False, sr_s3_key = None, sr_s3_secret = None,
      sr_gcs_bucket = [], sr_gcs_prefix = [], sr_gcs_creds = None, sr_ttl_seconds = 0, sr_max = 0\<rparr>"

definition settings_input :: "int \<Rightarrow> settings_request \<Rightarrow> apply_input" where
  "settings_input uid r =
     \<lparr>in_backend = sr_backend r, in_local_dir = sr_local_dir r, in_s3_bucket = sr_s3_bucket r,
      in_s3_region = sr_s3_region r, in_s3_prefix = sr_s3_prefix r, in_s3_endpoint = sr_s3_endpoint r,
      in_s3_path_style = sr_s3_path_style r, in_s3_key = sr_s3_key r, in_s3_secret = sr_s3_secret r,
      in_gcs_bucket = sr_gcs_bucket r, in_gcs_prefix = sr_gcs_prefix r, in_gcs_creds = sr_gcs_creds r,
      in_ttl = dur_mul (sr_ttl_seconds r) nano_second, in_max = sr_max r, in_updated_by = uid\<rparr>"

text \<open>The message of an invalid setting; the text of a nested connection error is left out.\<close>

definition handle_update_settings ::
  "('s, 'g, 'l) admin_deps \<Rightarrow> user \<Rightarrow> admin_req \<Rightarrow> ('s, 'g, 'l) admin \<Rightarrow> response \<times> ('s, 'g, 'l) admin" where
  "handle_update_settings d u q a =
     (case decode_settings (aq_body q) of
        None \<Rightarrow> (bad_body, a)
      | Some req \<Rightarrow>
          (case ad_on_app (apply_settings (dp_apis d) (dp_cipher d) (dp_enc d) (aq_nonces q) (aq_now q)
                  (aq_db_now q) (settings_input (usr_id u) req)) a of
             (Inl (ApInvalid msg), a1) \<Rightarrow> (write_error 400 (''settings: invalid configuration: '' @ msg), a1)
           | (Inl _, a1) \<Rightarrow> (internal_error, a1)
           | (Inr applied, a1) \<Rightarrow> (write_json 200 (settings_dto applied), a1)))"

end
