(* ===== verification/AdminCache.thy ===== *)
theory AdminCache
  imports AdminApi
begin

text \<open>
  The admin API, second part: \<open>cache_handlers.go\<close>, which lists, deletes and prunes artifacts through
  the swappable backend and keeps the read statistics in step. Deleting and pruning are written
  over the interfaces \<open>Backend\<close> and the statistics of the store, so that the locale of ordered
  stores applies to them.
\<close>

section \<open>Listing\<close>

definition default_page :: int where "default_page = 50"
definition max_page :: int where "max_page = 500"
definition max_bulk :: nat where "max_bulk = 1000"

text \<open>\<open>URL.Query().Get\<close>: the first value of a key, or the empty string.\<close>

definition query_get :: "(string \<times> string) list \<Rightarrow> string \<Rightarrow> string" where
  "query_get query key = (case map_of query key of None \<Rightarrow> [] | Some v \<Rightarrow> v)"

definition list_limit :: "string \<Rightarrow> int" where
  "list_limit v =
     (if v = [] then default_page
      else (case parse_int v of
              None \<Rightarrow> default_page
            | Some n \<Rightarrow> (if n > 0 \<and> n \<le> max_page then n else default_page)))"

record cache_row =
  cr_hash :: string
  cr_size :: int
  cr_mod :: time
  cr_count :: int
  cr_last :: "time option"

definition row_of :: "(string \<times> read_stats) list \<Rightarrow> entry \<Rightarrow> cache_row" where
  "row_of stats e =
     (case map_of stats (e_hash e) of
        None \<Rightarrow> \<lparr>cr_hash = e_hash e, cr_size = e_size e, cr_mod = e_mod e, cr_count = 0, cr_last = None\<rparr>
      | Some s \<Rightarrow> \<lparr>cr_hash = e_hash e, cr_size = e_size e, cr_mod = e_mod e, cr_count = rs_count s,
                  cr_last = rs_last s\<rparr>)"

definition row_less :: "cache_row \<Rightarrow> cache_row \<Rightarrow> bool" where
  "row_less a b =
     (case (cr_last a, cr_last b) of
        (Some t, Some u) \<Rightarrow> time_after t u
      | (Some _, None) \<Rightarrow> True
      | (None, Some _) \<Rightarrow> False
      | (None, None) \<Rightarrow> time_after (cr_mod a) (cr_mod b))"

text \<open>
  \<open>sort.Slice\<close> with a given \<open>less\<close>, as an insertion sort; Go does not say in which order it leaves
  elements neither of which is less than the other, here they keep theirs.
\<close>

fun insert_by :: "('a \<Rightarrow> 'a \<Rightarrow> bool) \<Rightarrow> 'a \<Rightarrow> 'a list \<Rightarrow> 'a list" where
  "insert_by lt x [] = [x]"
| "insert_by lt x (y # ys) = (if lt y x then y # insert_by lt x ys else x # y # ys)"

definition sort_slice :: "('a \<Rightarrow> 'a \<Rightarrow> bool) \<Rightarrow> 'a list \<Rightarrow> 'a list" where
  "sort_slice lt xs = foldr (insert_by lt) xs []"

definition row_dto :: "cache_row \<Rightarrow> json" where
  "row_dto r = JObj ([(''hash'', JStr (cr_hash r)), (''size'', JInt (cr_size r)), (''modTime'', JTime (cr_mod r)),
     (''readCount'', JInt (cr_count r))] @ opt_time ''lastReadAt'' (cr_last r))"

text \<open>A page without entries has the nil slice, which encodes as \<open>null\<close>.\<close>

definition list_dto :: "cache_row list \<Rightarrow> string \<Rightarrow> json" where
  "list_dto rows cursor = JObj ((''entries'', if rows = [] then JNull else JArr (map row_dto rows)) #
     (if cursor = [] then [] else [(''nextCursor'', JStr cursor)]))"

definition ad_on_world :: "(('s, 'g) world \<Rightarrow> 'r \<times> ('s, 'g) world) \<Rightarrow> ('s, 'g, 'l) admin \<Rightarrow> 'r \<times> ('s, 'g, 'l) admin" where
  "ad_on_world f = ad_on_app (lift_state app_world (\<lambda>w a. a\<lparr>app_world := w\<rparr>) f)"

definition list_rows :: "list_page \<Rightarrow> (string \<times> read_stats) list \<Rightarrow> cache_row list" where
  "list_rows page stats = sort_slice row_less (map (row_of stats) (page_entries page))"

definition handle_list_cache ::
  "('s, 'g, 'l) admin_deps \<Rightarrow> user \<Rightarrow> admin_req \<Rightarrow> ('s, 'g, 'l) admin \<Rightarrow> response \<times> ('s, 'g, 'l) admin" where
  "handle_list_cache d u q a =
     (case ad_on_world (b_list (world_backend (dp_apis d)) (query_get (aq_query q) ''cursor'')
              (list_limit (query_get (aq_query q) ''limit''))) a of
        (Inl _, a1) \<Rightarrow> (internal_error, a1)
      | (Inr page, a1) \<Rightarrow>
          (case ad_on_pg (get_cache_read_stats_batch (map e_hash (page_entries page))) a1 of
             (res, a2) \<Rightarrow>
               (write_json 200 (list_dto (list_rows page (case res of Inl _ \<Rightarrow> [] | Inr stats \<Rightarrow> stats))
                  (next_cursor page)), a2)))"

section \<open>Deleting\<close>

text \<open>\<open>clearReadStats\<close> after a deletion: its error is only logged.\<close>

definition clear_read_stats :: "'w stats_if \<Rightarrow> string \<Rightarrow> 'w \<Rightarrow> 'w" where
  "clear_read_stats si hash w = snd (st_delete si hash w)"

definition delete_entry :: "'w backend_if \<Rightarrow> 'w stats_if \<Rightarrow> string \<Rightarrow> 'w \<Rightarrow> response \<times> 'w" where
  "delete_entry bk si hash w =
     (if \<not> valid_hash hash then (write_error 400 ''invalid hash'', w)
      else (case b_delete bk hash w of
              (Inl ErrNotFound, w1) \<Rightarrow> (write_error 404 ''not found'', w1)
            | (Inl _, w1) \<Rightarrow> (internal_error, w1)
            | (Inr _, w1) \<Rightarrow> (plain_response 204, clear_read_stats si hash w1)))"

definition handle_delete_entry ::
  "('s, 'g, 'l) admin_deps \<Rightarrow> string \<Rightarrow> user \<Rightarrow> admin_req \<Rightarrow> ('s, 'g, 'l) admin \<Rightarrow> response \<times> ('s, 'g, 'l) admin" where
  "handle_delete_entry d hash u q a = ad_on_world (delete_entry (world_backend (dp_apis d)) world_stats hash) a"

fun bulk_delete :: "'w backend_if \<Rightarrow> 'w stats_if \<Rightarrow> string list \<Rightarrow> nat \<Rightarrow> 'w \<Rightarrow> nat \<times> 'w" where
  "bulk_delete bk si [] n w = (n, w)"
| "bulk_delete bk si (h # hs) n w =
     (if \<not> valid_hash h then bulk_delete bk si hs n w
      else (case b_delete bk h w of
              (Inl _, w1) \<Rightarrow> bulk_delete bk si hs n w1
            | (Inr _, w1) \<Rightarrow> bulk_delete bk si hs (n + 1) (clear_read_stats si h w1)))"

definition set_hashes :: "string \<Rightarrow> json \<Rightarrow> string list \<Rightarrow> string list option" where
  "set_hashes name v r = decode_str_list (\<lambda>hs. hs) v"

definition decode_hashes :: "json option \<Rightarrow> string list option" where
  "decode_hashes = decode_json [''hashes''] set_hashes []"

definition deleted_dto :: "nat \<Rightarrow> json" where
  "deleted_dto n = JObj [(''deleted'', JInt (int n))]"

definition handle_bulk_delete ::
  "('s, 'g, 'l) admin_deps \<Rightarrow> user \<Rightarrow> admin_req \<Rightarrow> ('s, 'g, 'l) admin \<Rightarrow> response \<times> ('s, 'g, 'l) admin" where
  "handle_bulk_delete d u q a =
     (case decode_hashes (aq_body q) of
        None \<Rightarrow> (bad_body, a)
      | Some hashes \<Rightarrow>
          (if length hashes > max_bulk then (write_error 400 ''too many hashes in one request (max 1000)'', a)
           else (case ad_on_world (bulk_delete (world_backend (dp_apis d)) world_stats hashes 0) a of
                   (n, a1) \<Rightarrow> (write_json 200 (deleted_dto n), a1))))"

section \<open>Pruning\<close>

text \<open>One page: the count, and whether a deletion failed and ended the loop.\<close>

fun prune_entries ::
  "'w backend_if \<Rightarrow> 'w stats_if \<Rightarrow> time \<Rightarrow> entry list \<Rightarrow> nat \<Rightarrow> 'w \<Rightarrow> (nat \<times> bool) \<times> 'w" where
  "prune_entries bk si cutoff [] n w = ((n, False), w)"
| "prune_entries bk si cutoff (e # es) n w =
     (if \<not> time_before (e_mod e) cutoff then prune_entries bk si cutoff es n w
      else (let (res, w1) = b_delete bk (e_hash e) w
            in if (case res of Inl er \<Rightarrow> er \<noteq> ErrNotFound | Inr _ \<Rightarrow> False) then ((n, True), w1)
               else prune_entries bk si cutoff es (n + 1) (clear_read_stats si (e_hash e) w1)))"

partial_function (option) prune_pages ::
  "'w backend_if \<Rightarrow> 'w stats_if \<Rightarrow> time \<Rightarrow> string \<Rightarrow> nat \<Rightarrow> 'w \<Rightarrow> ((nat \<times> bool) \<times> 'w) option" where
  "prune_pages bk si cutoff cursor n w =
     (case b_list bk cursor 200 w of
        (Inl _, w1) \<Rightarrow> Some ((n, True), w1)
      | (Inr page, w1) \<Rightarrow>
          (case prune_entries bk si cutoff (page_entries page) n w1 of
             ((n', failed), w2) \<Rightarrow>
               (if failed then Some ((n', True), w2)
                else if next_cursor page = [] then Some ((n', False), w2)
                else prune_pages bk si cutoff (next_cursor page) n' w2)))"

definition prune_older_than ::
  "'w backend_if \<Rightarrow> 'w stats_if \<Rightarrow> time \<Rightarrow> 'w \<Rightarrow> ((nat \<times> bool) \<times> 'w) option" where
  "prune_older_than bk si cutoff w = prune_pages bk si cutoff [] 0 w"

text \<open>\<open>time.Now().Add(-time.Duration(days) * 24 * time.Hour)\<close>, every product in 64 bits.\<close>

definition prune_cutoff :: "time \<Rightarrow> int \<Rightarrow> time" where
  "prune_cutoff now days = time_add now (dur_mul (dur_mul (dur_neg days) 24) nano_hour)"

definition set_days :: "string \<Rightarrow> json \<Rightarrow> int \<Rightarrow> int option" where
  "set_days name v r = decode_int (\<lambda>i. i) r v"

definition decode_days :: "json option \<Rightarrow> int option" where
  "decode_days = decode_json [''olderThanDays''] set_days 0"

definition handle_prune ::
  "('s, 'g, 'l) admin_deps \<Rightarrow> user \<Rightarrow> admin_req \<Rightarrow> ('s, 'g, 'l) admin \<Rightarrow> (response \<times> ('s, 'g, 'l) admin) option" where
  "handle_prune d u q a =
     (case decode_days (aq_body q) of
        None \<Rightarrow> Some (bad_body, a)
      | Some days \<Rightarrow>
          (if days \<le> 0 then Some (write_error 400 ''olderThanDays must be positive'', a)
           else (case prune_older_than (world_backend (dp_apis d)) world_stats
                        (prune_cutoff (aq_now q) days) (app_world (ad_app a)) of
                   None \<Rightarrow> None
                 | Some ((n, failed), w) \<Rightarrow>
                     Some (if failed then internal_error else write_json 200 (deleted_dto n),
                       a\<lparr>ad_app := (ad_app a)\<lparr>app_world := w\<rparr>\<rparr>))))"

end
