(* ===== verification/AdminServe.thy ===== *)
theory AdminServe
  imports AdminCache
begin

text \<open>
  The admin API, third part: the routes of \<open>Handler\<close> and the handler of the browser application,
  \<open>spa.go\<close>. The built application is an argument: which of its paths exist, the bytes of
  \<open>index.html\<close>, and the answer of \<open>http.FileServerFS\<close> for a path that exists.
\<close>

section \<open>spa.go\<close>

record ui_fs =
  ui_stat :: "string \<Rightarrow> bool"
  ui_index :: "string option"
  ui_file_server :: "string \<Rightarrow> response"

definition serve_index :: "ui_fs \<Rightarrow> response" where
  "serve_index ui =
     (case ui_index ui of
        None \<Rightarrow> http_error ''internal error'' 500
      | Some data \<Rightarrow> (plain_response 200)\<lparr>rs_headers := [(''Content-Type'', ''text/html; charset=utf-8'')],
          rs_body := Text data\<rparr>)"

definition spa_path :: "string \<Rightarrow> string" where
  "spa_path path =
     (let p = trim_prefix ''/'' (trim_prefix ''/admin'' path) in if p = [] then ''index.html'' else p)"

definition spa_handler :: "ui_fs \<Rightarrow> string \<Rightarrow> response" where
  "spa_handler ui path =
     (if \<not> ui_stat ui (spa_path path) then serve_index ui else ui_file_server ui (trim_prefix ''/admin'' path))"

section \<open>adminapi.go\<close>

datatype admin_target =
  AtLogin | AtLogout | AtMe
| AtListUsers | AtCreateUser | AtDeleteUser string | AtPassword
| AtListTokens | AtCreateToken | AtRevokeToken string
| AtListCache | AtDeleteEntry string | AtBulkDelete | AtPrune
| AtGetSettings | AtPutSettings
| AtSpa | AtNoMethod | AtNoRoute

text \<open>The patterns below \<open>/admin/api/\<close> that match a path, with their methods.\<close>

definition admin_patterns :: "string list \<Rightarrow> (string \<times> admin_target) list" where
  "admin_patterns segs =
     (case segs of
        [a] \<Rightarrow>
          (if a = ''users'' then [(''GET'', AtListUsers), (''POST'', AtCreateUser)]
           else if a = ''tokens'' then [(''GET'', AtListTokens), (''POST'', AtCreateToken)]
           else if a = ''cache'' then [(''GET'', AtListCache)]
           else if a = ''settings'' then [(''GET'', AtGetSettings), (''PUT'', AtPutSettings)]
           else [])
      | [a, b] \<Rightarrow>
          (if a = ''auth'' then
             (if b = ''login'' then [(''POST'', AtLogin)]
              else if b = ''logout'' then [(''POST'', AtLogout)]
              else if b = ''me'' then [(''GET'', AtMe)] else [])
           else if a = ''account'' \<and> b = ''password'' then [(''POST'', AtPassword)]
           else if b = [] then []
           else if a = ''users'' then [(''DELETE'', AtDeleteUser b)]
           else if a = ''tokens'' then [(''DELETE'', AtRevokeToken b)]
           else if a = ''cache'' then
             (''DELETE'', AtDeleteEntry b) #
               (if b = ''bulk-delete'' then [(''POST'', AtBulkDelete)]
                else if b = ''prune'' then [(''POST'', AtPrune)] else [])
           else [])
      | _ \<Rightarrow> [])"

text \<open>
  The choice of the multiplexer: a pattern of the method (a \<open>GET\<close> pattern also takes \<open>HEAD\<close>), else
  the application under \<open>GET /admin/\<close>, else 405 when another method has a pattern for the path.
\<close>

definition admin_route :: "bool \<Rightarrow> string \<Rightarrow> string list \<Rightarrow> admin_target" where
  "admin_route has_ui meth segs =
     (let ps = (case segs of a # b # rest \<Rightarrow> (if a = ''admin'' \<and> b = ''api'' then admin_patterns rest else []) | _ \<Rightarrow> []);
          m = (if meth = ''HEAD'' then ''GET'' else meth);
          ui = (has_ui \<and> (case segs of a # b # rest \<Rightarrow> a = ''admin'' | _ \<Rightarrow> False))
      in case map_of ps m of
           Some t \<Rightarrow> t
         | None \<Rightarrow> (if ui \<and> m = ''GET'' then AtSpa
                    else if ui \<or> ps \<noteq> [] then AtNoMethod else AtNoRoute))"

definition path_of :: "string list \<Rightarrow> string" where
  "path_of segs = concat (map (\<lambda>s. CHR ''/'' # s) segs)"

text \<open>Handlers that always return, in the shape \<open>protected\<close> takes.\<close>

definition total_handler ::
  "(user \<Rightarrow> admin_req \<Rightarrow> 'a \<Rightarrow> response \<times> 'a) \<Rightarrow> user \<Rightarrow> admin_req \<Rightarrow> 'a \<Rightarrow> (response \<times> 'a) option" where
  "total_handler h u q a = Some (h u q a)"

text \<open>The handler behind \<open>protected\<close> of a target, if it has one.\<close>

definition admin_handler ::
  "('s, 'g, 'l) admin_deps \<Rightarrow> admin_target \<Rightarrow>
     (user \<Rightarrow> admin_req \<Rightarrow> ('s, 'g, 'l) admin \<Rightarrow> (response \<times> ('s, 'g, 'l) admin) option) option" where
  "admin_handler d t =
     (case t of
        AtLogout \<Rightarrow> Some (total_handler (handle_logout d))
      | AtMe \<Rightarrow> Some (total_handler handle_me)
      | AtListUsers \<Rightarrow> Some (total_handler handle_list_users)
      | AtCreateUser \<Rightarrow> Some (total_handler (handle_create_user d))
      | AtDeleteUser i \<Rightarrow> Some (total_handler (handle_delete_user i))
      | AtPassword \<Rightarrow> Some (total_handler (handle_change_password d))
      | AtListTokens \<Rightarrow> Some (total_handler handle_list_tokens)
      | AtCreateToken \<Rightarrow> Some (total_handler (handle_create_token d))
      | AtRevokeToken i \<Rightarrow> Some (total_handler (handle_revoke_token i))
      | AtListCache \<Rightarrow> Some (total_handler (handle_list_cache d))
      | AtDeleteEntry h \<Rightarrow> Some (total_handler (handle_delete_entry d h))
      | AtBulkDelete \<Rightarrow> Some (total_handler (handle_bulk_delete d))
      | AtPrune \<Rightarrow> Some (handle_prune d)
      | AtGetSettings \<Rightarrow> Some (total_handler handle_get_settings)
      | AtPutSettings \<Rightarrow> Some (total_handler (handle_update_settings d))
      | _ \<Rightarrow> None)"

text \<open>A request to the admin server; \<open>None\<close> when a handler runs forever.\<close>

definition admin_serve ::
  "('s, 'g, 'l) admin_deps \<Rightarrow> ui_fs option \<Rightarrow> string list \<Rightarrow> admin_req \<Rightarrow> ('s, 'g, 'l) admin \<Rightarrow>
     (response \<times> ('s, 'g, 'l) admin) option" where
  "admin_serve d ui segs q a =
     map_option (map_prod (head_only (aq_meth q)) id)
       (let t = admin_route (ui \<noteq> None) (aq_meth q) segs
        in case admin_handler d t of
             Some h \<Rightarrow> protected d h q a
           | None \<Rightarrow>
               (case t of
                  AtLogin \<Rightarrow> Some (handle_login d q a)
                | AtSpa \<Rightarrow> Some (case ui of None \<Rightarrow> http_error ''404 page not found'' 404 | Some u \<Rightarrow> spa_handler u (path_of segs), a)
                | AtNoMethod \<Rightarrow> Some (http_error ''Method Not Allowed'' 405, a)
                | _ \<Rightarrow> Some (http_error ''404 page not found'' 404, a)))"

end
