(* ===== verification/AdminProps.thy ===== *)
theory AdminProps
  imports AdminServe
begin

text \<open>
  Properties of the admin API: who may change what, what a created user, token or password can be
  used for afterwards, and how the login limiter bounds guessing.
\<close>

section \<open>Calls on the parts of the server\<close>

abbreviation ad_pg :: "('s, 'g, 'l) admin \<Rightarrow> pg" where
  "ad_pg a \<equiv> app_pg (ad_app a)"

definition put_pg :: "pg \<Rightarrow> ('s, 'g, 'l) admin \<Rightarrow> ('s, 'g, 'l) admin" where
  "put_pg p a = a\<lparr>ad_app := (ad_app a)\<lparr>app_world := (app_world (ad_app a))\<lparr>w_pg := p\<rparr>\<rparr>\<rparr>"

lemma put_pg_simps [simp]:
  "ad_pg (put_pg p a) = p" "put_pg p' (put_pg p a) = put_pg p' a" "put_pg (ad_pg a) a = a"
  "ad_limits (put_pg p a) = ad_limits a" "app_media (ad_app (put_pg p a)) = app_media (ad_app a)"
  "live (ad_app (put_pg p a)) = live (ad_app a)" "app_ttl (ad_app (put_pg p a)) = app_ttl (ad_app a)"
  "app_settings (ad_app (put_pg p a)) = app_settings (ad_app a)"
  "app_tasks (ad_app (put_pg p a)) = app_tasks (ad_app a)"
  by (simp_all add: put_pg_def app_media_def live_def app_backend_def)

lemma ad_on_pg_call [simp]: "ad_on_pg f a = map_prod id (\<lambda>p. put_pg p a) (f (ad_pg a))"
  by (simp add: ad_on_pg_def ad_on_app_def app_on_pg_def lift_state_def put_pg_def split: prod.splits)

lemma map_snd_eq [simp]: "map_prod id f x = (r, b) \<longleftrightarrow> (\<exists>p. x = (r, p) \<and> b = f p)"
  by (cases x) auto

lemma ad_on_app_eq:
  "ad_on_app f a = (r, a') \<longleftrightarrow> (\<exists>x. f (ad_app a) = (r, x) \<and> a' = a\<lparr>ad_app := x\<rparr>)"
  by (simp add: ad_on_app_def lift_state_eq)

section \<open>Who may change what\<close>

text \<open>A cookie that names a live session of a stored user.\<close>

definition holds_session :: "(string \<Rightarrow> string) \<Rightarrow> admin_req \<Rightarrow> pg \<Rightarrow> user \<Rightarrow> bool" where
  "holds_session sha q p u \<longleftrightarrow>
     (\<exists>c s. aq_cookie q = Some c \<and> c \<noteq> [] \<and> s \<in> set (pg_sessions p) \<and> ses_hash s = hash_id sha c \<and>
        aq_db_now q < ses_expires s \<and> u \<in> set (pg_users p) \<and> usr_id u = ses_user s)"

definition mutating :: "admin_req \<Rightarrow> bool" where
  "mutating q \<longleftrightarrow> aq_meth q \<noteq> ''GET'' \<and> aq_meth q \<noteq> ''HEAD''"

text \<open>\<open>protected\<close> either refuses, with the tables as they were, or runs the handler for the user.\<close>

lemma protected_cases:
  assumes "protected d h q a = Some (r, a')"
  obtains (refused) p where "rs_status r \<in> {401, 403}" "same_tables (ad_pg a) p" "a' = put_pg p a"
  | (passed) u p where "holds_session (dp_sha d) q (ad_pg a) u" "mutating q \<longrightarrow> aq_csrf q \<noteq> []"
      "same_tables (ad_pg a) p" "h u q (put_pg p a) = Some (r, a')"
proof (cases "mutating q \<and> aq_csrf q = []")
  case True
  then have "r = write_error 403 ''missing required header''" "a' = put_pg (ad_pg a) a"
    using assms by (auto simp: protected_def mutating_def)
  then show ?thesis by (intro refused [of "ad_pg a"]) simp_all
next
  case False
  let ?raw = "case aq_cookie q of None \<Rightarrow> [] | Some c \<Rightarrow> c"
  obtain res p where c: "current_user (dp_sha d) (aq_db_now q) ?raw (ad_pg a) = (res, p)" by fastforce
  note same = current_user_same [OF c]
  show ?thesis
  proof (cases res)
    case (Inl er)
    then show ?thesis using assms False c same
      by (intro refused [of p]) (auto simp: protected_def mutating_def)
  next
    case (Inr u)
    then have "holds_session (dp_sha d) q (ad_pg a) u"
      using current_user_Inr [OF c [unfolded Inr]] by (auto simp: holds_session_def split: option.splits)
    moreover have "h u q (put_pg p a) = Some (r, a')"
      using assms False c Inr by (auto simp: protected_def mutating_def)
    ultimately show ?thesis using False same by (intro passed) auto
  qed
qed

lemma put_faults_same:
  "same_tables (ad_pg a) p \<Longrightarrow> \<exists>x. p = (ad_pg a)\<lparr>pg_faults := x\<rparr>"
  by (auto simp: same_tables_def)

text \<open>A login adds at most one session, of a user whose email and password were given.\<close>

definition adds_session :: "(user \<Rightarrow> bool) \<Rightarrow> pg \<Rightarrow> pg \<Rightarrow> bool" where
  "adds_session P p p' \<longleftrightarrow>
     (\<exists>u \<in> set (pg_users p). P u \<and>
        (\<exists>s x. ses_user s = usr_id u \<and> p' = p\<lparr>pg_faults := x, pg_sessions := pg_sessions p @ [s]\<rparr>))"

lemma create_session_effect:
  assumes "create_session h i t p = (r, p')"
  shows "same_tables p p' \<or> (\<exists>s x. ses_user s = i \<and> p' = p\<lparr>pg_faults := x, pg_sessions := pg_sessions p @ [s]\<rparr>)"
proof -
  obtain r0 where "pg_call (q_create_session h i t) p = (r0, p')"
    using assms by (auto simp: create_session_def map_prod_id_eq)
  from pg_call_cases [OF this] obtain x where x: "p' = p\<lparr>pg_faults := x\<rparr> \<or>
      (\<exists>a. q_create_session h i t (p\<lparr>pg_faults := x\<rparr>) = (a, p'))" by blast
  let ?s = "\<lparr>ses_hash = h, ses_user = i, ses_expires = t\<rparr>"
  have "p' = p\<lparr>pg_faults := x\<rparr> \<or> p' = p\<lparr>pg_faults := x, pg_sessions := pg_sessions p @ [?s]\<rparr>"
    using x by (auto simp: q_create_session_def split: if_splits)
  moreover have "ses_user ?s = i" by simp
  ultimately show ?thesis unfolding same_tables_def by blast
qed

lemma login_effect:
  assumes "login bc sha ttl now rnd email password p = (r, p')"
  shows "same_tables p p' \<or>
    adds_session (\<lambda>u. usr_email u = email \<and> bc_compare bc (usr_pwhash u) password) p p'"
proof -
  obtain g p1 where g: "get_user_by_email email p = (g, p1)" by fastforce
  note same = get_user_by_email_same [OF g]
  show ?thesis
  proof (cases "\<exists>u raw. g = Inr u \<and> bc_compare bc (usr_pwhash u) password \<and> generate_id rnd = Some raw")
    case False
    then have "p' = p1" using assms g
      by (auto simp: login_def split: sum.splits store_err.splits if_splits option.splits)
    then show ?thesis using same by simp
  next
    case True
    then obtain u raw where u: "g = Inr u" "bc_compare bc (usr_pwhash u) password" "generate_id rnd = Some raw" by blast
    obtain rc p2 where c: "create_session (hash_id sha raw) (usr_id u) (time_add now ttl) p1 = (rc, p2)" by fastforce
    have p': "p' = p2" using assms g u c by (auto simp: login_def split: sum.splits)
    have um: "u \<in> set (pg_users p)" "usr_email u = email" using get_user_by_email_Inr g u(1) by auto
    from create_session_effect [OF c] show ?thesis
    proof (elim disjE exE conjE)
      assume "same_tables p1 p2"
      then show ?thesis using same_tables_trans [OF same] p' by simp
    next
      fix s x assume "ses_user s = usr_id u" "p2 = p1\<lparr>pg_faults := x, pg_sessions := pg_sessions p1 @ [s]\<rparr>"
      then have "ses_user s = usr_id u" "p' = p\<lparr>pg_faults := x, pg_sessions := pg_sessions p @ [s]\<rparr>"
        using same p' by (auto simp: same_tables_def)
      then show ?thesis using um u(2) unfolding adds_session_def by blast
    qed
  qed
qed

lemma handle_login_effect:
  assumes "handle_login d q a = (r, a')"
  shows "\<exists>p limits. a' = (put_pg p a)\<lparr>ad_limits := limits\<rparr> \<and>
    (same_tables (ad_pg a) p \<or>
     (\<exists>req. decode_login (aq_body q) = Some req \<and>
        adds_session (\<lambda>u. usr_email u = lr_email req \<and> bc_compare (dp_bcrypt d) (usr_pwhash u) (lr_password req))
          (ad_pg a) p))"
proof -
  obtain ok limits where l: "limiter_allow (dp_rate d) (client_ip (aq_remote q)) (aq_now q) (ad_limits a) = (ok, limits)"
    by fastforce
  show ?thesis
  proof (cases "\<exists>req. ok \<and> decode_login (aq_body q) = Some req")
    case False
    then have "a' = a\<lparr>ad_limits := limits\<rparr>" using assms l
      by (auto simp: handle_login_def Let_def split: if_splits option.splits)
    then show ?thesis by (intro exI [of _ "ad_pg a"] exI [of _ limits]) simp
  next
    case True
    then obtain req where req: "ok" "decode_login (aq_body q) = Some req" by blast
    obtain rl cmp p where p: "login (dp_bcrypt d) (dp_sha d) (app_ttl (ad_app a)) (aq_now q) (aq_rnd q)
        (lr_email req) (lr_password req) (ad_pg a) = ((rl, cmp), p)" by (metis prod.exhaust)
    have "a' = (put_pg p a)\<lparr>ad_limits := limits\<rparr>"
      using assms l req p
      by (auto simp: handle_login_def Let_def put_pg_def split: sum.splits login_err.splits)
    then show ?thesis using login_effect [OF p] req(2) by blast
  qed
qed

text \<open>
  C27. Without the cookie of a live session, or with a changing request that lacks the
  CSRF header, the admin API changes nothing but the login limiter and, for a login with the
  stored email and a password bcrypt accepts, one session of that user. Every other endpoint of
  the API answers 401 or 403.
\<close>

theorem admin_needs_session:
  assumes "admin_serve d ui segs q a = Some (r, a')"
    and "(\<forall>u. \<not> holds_session (dp_sha d) q (ad_pg a) u) \<or> mutating q \<and> aq_csrf q = []"
  shows "(\<exists>p limits. a' = (put_pg p a)\<lparr>ad_limits := limits\<rparr> \<and>
      (same_tables (ad_pg a) p \<or>
       admin_route (ui \<noteq> None) (aq_meth q) segs = AtLogin \<and>
       (\<exists>req. decode_login (aq_body q) = Some req \<and>
          adds_session (\<lambda>u. usr_email u = lr_email req \<and> bc_compare (dp_bcrypt d) (usr_pwhash u) (lr_password req))
            (ad_pg a) p))) \<and>
    (admin_handler d (admin_route (ui \<noteq> None) (aq_meth q) segs) \<noteq> None \<longrightarrow> rs_status r \<in> {401, 403})"
proof (cases "admin_handler d (admin_route (ui \<noteq> None) (aq_meth q) segs)")
  case None
  show ?thesis
  proof (cases "admin_route (ui \<noteq> None) (aq_meth q) segs = AtLogin")
    case True
    then obtain r0 where "handle_login d q a = (r0, a')"
      using assms(1) None by (auto simp: admin_serve_def Let_def)
    from handle_login_effect [OF this] show ?thesis using True None by simp
  next
    case False
    then have "a' = a"
      using assms(1) None by (auto simp: admin_serve_def Let_def split: admin_target.splits)
    then have "a' = (put_pg (ad_pg a) a)\<lparr>ad_limits := ad_limits a\<rparr> \<and> same_tables (ad_pg a) (ad_pg a)" by simp
    then show ?thesis using None by blast
  qed
next
  case (Some h)
  then obtain r0 where p: "protected d h q a = Some (r0, a')" "rs_status r0 = rs_status r"
    using assms(1) by (auto simp: admin_serve_def Let_def head_only_def)
  from p(1) show ?thesis
  proof (cases rule: protected_cases)
    case (refused p)
    then have "a' = (put_pg p a)\<lparr>ad_limits := ad_limits a\<rparr>" by (simp add: put_pg_def)
    moreover have "rs_status r \<in> {401, 403}" using refused(1) p(2) by simp
    ultimately show ?thesis using refused(2) by blast
  next
    case (passed u p)
    then show ?thesis using assms(2) by auto
  qed
qed

text \<open>A user changes only through what the store does; the parts of the server these handlers leave.\<close>

lemma create_token_Inr:
  assumes "create_token now name scope h i p = (Inr t, p')"
  shows "scope \<in> {scope_read, scope_write} \<and> h \<notin> set (map row_hash (pg_tokens p)) \<and> i \<in> set (user_ids p) \<and>
    tok_name t = name \<and> tok_scope t = scope \<and> tok_revoked t = None \<and> tok_created_by t = Some i \<and>
    pg_tokens p' = pg_tokens p @ [\<lparr>row_hash = h, row_token = t\<rparr>]"
proof -
  obtain r where r: "pg_call (q_create_token now name scope h i) p = (r, p')" "conflict_result r = Inr t"
    using assms by (auto simp: create_token_def map_prod_id_eq)
  then have "r = Some (Rows t)"
    by (auto simp: conflict_result_def split: option.splits sql.splits)
  then obtain x where "q_create_token now name scope h i (p\<lparr>pg_faults := x\<rparr>) = (Rows t, p')"
    using pg_call_Some r(1) by blast
  then show ?thesis by (auto simp: q_create_token_def Let_def user_ids_def split: if_splits)
qed

lemma find_skip: "find P xs = None \<Longrightarrow> find P (xs @ ys) = find P ys"
  by (induction xs) (auto split: if_splits)

lemma create_token_grant:
  assumes "create_token now name scope h i p = (Inr t, p')"
  shows "pg_grant p' h = Some scope"
proof -
  note c = create_token_Inr [OF assms]
  then have "find (active_hash h) (pg_tokens p) = None"
    by (auto simp: find_None_iff active_hash_def)
  then have "find (active_hash h) (pg_tokens p @ [\<lparr>row_hash = h, row_token = t\<rparr>]) = Some \<lparr>row_hash = h, row_token = t\<rparr>"
    using c by (simp add: find_skip active_hash_def)
  then show ?thesis using c by (simp add: pg_grant_def)
qed

text \<open>
  C28. The token a successful creation answers with works at once and as far as asked:
  sent as a bearer token to the cache server it is live, and it may upload exactly when its scope
  is \<open>write\<close>. The database keeps its hash, not the token.
\<close>

theorem created_token_works:
  assumes "handle_create_token d u q a = (r, a')" "rs_status r = 201"
  shows "\<exists>raw t. rs_body r = JsonBody (JObj (token_fields t @ [(''token'', JStr raw)])) \<and>
    tok_scope t \<in> {scope_read, scope_write} \<and> tok_created_by t = Some (usr_id u) \<and> tok_name t \<noteq> [] \<and>
    (\<exists>row \<in> set (pg_tokens (ad_pg a')). row_token row = t \<and> row_hash row = hash_token (dp_sha d) raw) \<and>
    (\<forall>cq. cq_auth cq = ''Bearer '' @ raw \<longrightarrow>
       may_use world_grant (dp_sha d) (app_world (ad_app a')) cq ScopeRead \<and>
       (may_use world_grant (dp_sha d) (app_world (ad_app a')) cq ScopeWrite \<longleftrightarrow> tok_scope t = scope_write))"
proof -
  obtain req where req: "decode_token (aq_body q) = Some req" "trim_space (tr_name req) \<noteq> []"
    using assms by (auto simp: handle_create_token_def bad_body_def Let_def split: option.splits if_splits)
  obtain raw where raw: "generate_token (aq_rnd q) = Some raw"
    using assms req by (auto simp: handle_create_token_def internal_error_def Let_def split: option.splits if_splits)
  obtain res p where c: "create_token (aq_db_now q) (trim_space (tr_name req)) (tr_scope req)
      (hash_token (dp_sha d) raw) (usr_id u) (ad_pg a) = (res, p)" by fastforce
  obtain t where t: "res = Inr t" "r = write_json 201 (JObj (token_fields t @ [(''token'', JStr raw)]))" "a' = put_pg p a"
    using assms req raw c
    by (auto simp: handle_create_token_def internal_error_def Let_def split: if_splits sum.splits store_err.splits)
  note ct = create_token_Inr [OF c [unfolded t(1)]] and cg = create_token_grant [OF c [unfolded t(1)]]
  have ext: "extract_bearer (''Bearer '' @ raw) = raw"
    using extract_bearer_token [OF generate_token_trim [OF raw]] by (simp add: bearer_prefix_def)
  have g: "world_grant (app_world (ad_app a')) (hash_token (dp_sha d) raw) = Some (tok_scope t)"
    using cg ct by (simp add: t(3) world_grant_def)
  have "\<exists>row \<in> set (pg_tokens (ad_pg a')). row_token row = t \<and> row_hash row = hash_token (dp_sha d) raw"
    using ct by (intro bexI [of _ "\<lparr>row_hash = hash_token (dp_sha d) raw, row_token = t\<rparr>"]) (simp_all add: t(3))
  moreover have "may_use world_grant (dp_sha d) (app_world (ad_app a')) cq ScopeRead \<and>
      (may_use world_grant (dp_sha d) (app_world (ad_app a')) cq ScopeWrite \<longleftrightarrow> tok_scope t = scope_write)"
    if "cq_auth cq = ''Bearer '' @ raw" for cq
  proof -
    have "extract_bearer (cq_auth cq) = raw" unfolding that by (rule ext)
    then show ?thesis using g generate_token_chars [OF raw] by (simp add: may_use_scopes)
  qed
  ultimately show ?thesis using t(2) ct req(2) by (intro exI [of _ raw] exI [of _ t]) simp
qed

section \<open>Users and passwords\<close>

lemma count_users_same: "count_users p = (r, p') \<Longrightarrow> same_tables p p' \<and> (\<forall>n. r = Inr n \<longrightarrow> n = length (pg_users p))"
proof -
  assume "count_users p = (r, p')"
  then obtain r0 where r0: "pg_call (\<lambda>p. (Rows (length (pg_users p)), p)) p = (r0, p')" "r = plain_result r0"
    by (auto simp: count_users_def map_prod_id_eq)
  moreover have "n = length (pg_users p)" if "r0 = Some (Rows n)" for n
    using pg_call_Some [of _ p "Rows n" p'] r0(1) that by fastforce
  ultimately show ?thesis
    by (auto simp: plain_result_def dest: read_call_same split: option.splits sql.splits)
qed

text \<open>Deleting a user either changes no table or removes exactly that user.\<close>

lemma delete_user_effect:
  assumes "delete_user i p = (r, p')"
  shows "same_tables p p' \<and> r \<noteq> Inr () \<or>
    i \<in> set (user_ids p) \<and> pg_users p' = filter (\<lambda>u. usr_id u \<noteq> i) (pg_users p) \<and>
      pg_sessions p' = filter (\<lambda>s. ses_user s \<noteq> i) (pg_sessions p) \<and> r \<in> {Inr (), Inl StDb}"
proof -
  obtain r0 where r0: "pg_call (q_delete_user i) p = (r0, p')" "r = affected_result r0"
    using assms by (auto simp: delete_user_def map_prod_id_eq)
  from pg_call_cases [OF r0(1)] obtain x where "r0 = None \<and> p' = p\<lparr>pg_faults := x\<rparr> \<or>
      (\<exists>a. q_delete_user i (p\<lparr>pg_faults := x\<rparr>) = (a, p') \<and> (r0 = None \<or> r0 = Some a))" by blast
  then show ?thesis
    by (auto simp: r0(2) q_delete_user_def affected_result_def same_tables_def user_ids_def split: if_splits)
qed

lemma filter_other_nonempty:
  assumes "distinct (map f xs)" "1 < length xs"
  shows "filter (\<lambda>x. f x \<noteq> i) xs \<noteq> []"
proof -
  obtain x y zs where "xs = x # y # zs" using assms(2) by (cases xs; cases "tl xs") auto
  then show ?thesis using assms(1) by auto
qed

lemma handle_delete_user_cases:
  assumes "handle_delete_user path_id u q a = (r, a')"
  obtains (kept) "rs_status r \<noteq> 204" "same_tables (ad_pg a) (ad_pg a')"
  | (gone) i where "parse_int path_id = Some i" "i \<noteq> usr_id u" "i \<in> set (user_ids (ad_pg a))"
      "1 < length (pg_users (ad_pg a))" "pg_users (ad_pg a') = filter (\<lambda>v. usr_id v \<noteq> i) (pg_users (ad_pg a))"
      "pg_sessions (ad_pg a') = filter (\<lambda>s. ses_user s \<noteq> i) (pg_sessions (ad_pg a))" "rs_status r \<in> {204, 500}"
proof -
  obtain c a1 where c: "delete_user_checks path_id u a = (c, a1)" by fastforce
  show ?thesis
  proof (cases c)
    case (Inl r0)
    have "rs_status r0 \<in> {400, 500} \<and> same_tables (ad_pg a) (ad_pg a1)"
      using c Inl count_users_same [of "ad_pg a"]
      by (auto simp: delete_user_checks_def internal_error_def split: option.splits if_splits prod.splits sum.splits)
    moreover have "a' = a1" "r = r0" using assms c Inl by (auto simp: handle_delete_user_def)
    ultimately show ?thesis using kept by auto
  next
    case (Inr i)
    obtain n p where n: "count_users (ad_pg a) = (Inr n, p)" "\<not> n \<le> 1" "parse_int path_id = Some i"
        "i \<noteq> usr_id u" "a1 = put_pg p a"
      using c Inr by (auto simp: delete_user_checks_def split: option.splits if_splits prod.splits sum.splits)
    have p: "same_tables (ad_pg a) p" and len: "1 < length (pg_users (ad_pg a))"
      using count_users_same [OF n(1)] n(2) by auto
    note pD = same_tablesD [OF p]
    obtain rd p2 where d: "delete_user i p = (rd, p2)" by fastforce
    have a': "a' = put_pg p2 a" "rs_status r = (case rd of Inr _ \<Rightarrow> 204 | Inl StNotFound \<Rightarrow> 404 | Inl _ \<Rightarrow> 500)"
      using assms c Inr d n(5)
      by (auto simp: handle_delete_user_def delete_user_commit_def internal_error_def split: sum.splits store_err.splits)
    from delete_user_effect [OF d] consider
        (same) "same_tables p p2" "rd \<noteq> Inr ()"
      | (del) "i \<in> set (user_ids p)" "pg_users p2 = filter (\<lambda>u. usr_id u \<noteq> i) (pg_users p)"
          "pg_sessions p2 = filter (\<lambda>s. ses_user s \<noteq> i) (pg_sessions p)" "rd \<in> {Inr (), Inl StDb}" by blast
    then show ?thesis
    proof cases
      case same
      then show ?thesis using kept same_tables_trans [OF p same(1)] a'
        by (auto split: sum.splits store_err.splits)
    next
      case del
      then show ?thesis using gone [of i] n(3,4) len a' pD by (auto simp: user_ids_def)
    qed
  qed
qed

text \<open>
  C29. An admin who deletes users never deletes the own account and never the last one.
  A 204 means that the named user is gone with all its sessions and every other user and session
  is as before; a 400 or 404 means that nothing changed.
\<close>

theorem delete_user_guard:
  assumes "pg_wf (ad_pg a)" "handle_delete_user path_id u q a = (r, a')"
  shows "(\<forall>v \<in> set (pg_users (ad_pg a)). usr_id v = usr_id u \<longrightarrow> v \<in> set (pg_users (ad_pg a'))) \<and>
    (pg_users (ad_pg a) \<noteq> [] \<longrightarrow> pg_users (ad_pg a') \<noteq> []) \<and>
    (rs_status r = 204 \<longrightarrow> (\<exists>i. parse_int path_id = Some i \<and> i \<noteq> usr_id u \<and> i \<in> set (user_ids (ad_pg a)) \<and>
       pg_users (ad_pg a') = filter (\<lambda>v. usr_id v \<noteq> i) (pg_users (ad_pg a)) \<and>
       pg_sessions (ad_pg a') = filter (\<lambda>s. ses_user s \<noteq> i) (pg_sessions (ad_pg a)))) \<and>
    (rs_status r \<in> {400, 404} \<longrightarrow> same_tables (ad_pg a) (ad_pg a'))"
  using assms(2)
proof (cases rule: handle_delete_user_cases)
  case kept
  then show ?thesis using same_tablesD [OF kept(2)] by auto
next
  case (gone i)
  have "distinct (map usr_id (pg_users (ad_pg a)))" using assms(1) by (auto simp: pg_wf_def users_wf_def)
  then have "pg_users (ad_pg a') \<noteq> []" using filter_other_nonempty [OF _ gone(4)] gone(5) by simp
  then show ?thesis using gone by auto
qed

text \<open>
  C30. The guard on the last account counts and deletes in two statements: when two
  admins delete each other at the same time, both counts run before both deletions, both
  requests answer 204, and no user is left.
\<close>

theorem delete_user_race:
  assumes "pg_faults (ad_pg a) = []" "pg_users (ad_pg a) = [u, v]" "usr_id u \<noteq> usr_id v"
    and "parse_int i = Some (usr_id v)" "parse_int j = Some (usr_id u)"
    and "delete_user_checks i u a = (c, a1)" "delete_user_checks j v a1 = (c', a2)"
    and "delete_user_commit (usr_id v) a2 = (r, a3)" "delete_user_commit (usr_id u) a3 = (r', a4)"
  shows "c = Inr (usr_id v) \<and> c' = Inr (usr_id u) \<and> rs_status r = 204 \<and> rs_status r' = 204 \<and> pg_users (ad_pg a4) = []"
proof -
  have cnt: "count_users (ad_pg a) = (Inr 2, ad_pg a)"
    using assms(1,2) by (simp add: count_users_def plain_result_def)
  then have 1: "c = Inr (usr_id v)" "a1 = a" using assms(3,4,6) by (auto simp: delete_user_checks_def)
  then have 2: "c' = Inr (usr_id u)" "a2 = a" using assms(3,5,7) cnt by (auto simp: delete_user_checks_def)
  define p3 where "p3 = snd (q_delete_user (usr_id v) (ad_pg a))"
  have "delete_user (usr_id v) (ad_pg a) = (Inr (), p3)"
    using assms(1,2) by (simp add: delete_user_def q_delete_user_def affected_result_def user_ids_def p3_def)
  then have 3: "rs_status r = 204" "a3 = put_pg p3 a" using assms(8) 2 by (auto simp: delete_user_commit_def)
  have p3: "pg_faults p3 = []" "pg_users p3 = [u]"
    using assms(1-3) by (simp_all add: p3_def q_delete_user_def user_ids_def)
  define p4 where "p4 = snd (q_delete_user (usr_id u) p3)"
  have "delete_user (usr_id u) p3 = (Inr (), p4)" "pg_users p4 = []"
    using p3 by (simp_all add: delete_user_def q_delete_user_def affected_result_def user_ids_def p4_def)
  then show ?thesis using 1 2 3 assms(9) by (auto simp: delete_user_commit_def)
qed

text \<open>bcrypt as documented: a hash it generates matches its password.\<close>

definition bcrypt_ok :: "bcrypt \<Rightarrow> bool" where
  "bcrypt_ok bc \<longleftrightarrow> (\<forall>salt pw h. bc_generate bc salt pw = Some h \<longrightarrow> bc_compare bc h pw)"

text \<open>With a database that answers, the stored email and password log in.\<close>

lemma login_works:
  assumes "pg_wf p" "pg_faults p = []" "u \<in> set (pg_users p)" "bc_compare bc (usr_pwhash u) pw"
    and "hash_id sha (b64_rawurl_encode buf) \<notin> ses_hash ` set (pg_sessions p)"
  shows "fst (fst (login bc sha ttl now (Some buf) (usr_email u) pw p)) = Inr (b64_rawurl_encode buf)"
proof -
  have "find (\<lambda>v. usr_email v = usr_email u) (pg_users p) = Some u"
    using user_email_eq [OF assms(1,3)] by (intro find_unique [OF assms(3)]) auto
  moreover have "usr_id u \<in> set (user_ids p)" using assms(3) by (simp add: user_ids_def)
  ultimately show ?thesis
    using assms by (simp add: login_def get_user_by_email_def row_result_def generate_id_def create_session_def
        q_create_session_def plain_result_def)
qed

lemma create_user_Inr:
  assumes "create_user now email h p = (Inr u, p')"
  shows "usr_email u = email \<and> usr_pwhash u = h \<and> email \<notin> usr_email ` set (pg_users p) \<and>
    pg_users p' = pg_users p @ [u] \<and> pg_sessions p' = pg_sessions p"
proof -
  obtain r where r: "pg_call (q_create_user now email h) p = (r, p')" "conflict_result r = Inr u"
    using assms by (auto simp: create_user_def map_prod_id_eq)
  then have "r = Some (Rows u)"
    by (auto simp: conflict_result_def split: option.splits sql.splits)
  then obtain x where "q_create_user now email h (p\<lparr>pg_faults := x\<rparr>) = (Rows u, p')"
    using pg_call_Some r(1) by blast
  then show ?thesis by (auto simp: q_create_user_def Let_def split: if_splits)
qed


lemma update_password_Inr:
  assumes "update_password i h p = (Inr (), p')"
  shows "\<exists>x. p' = p\<lparr>pg_faults := x, pg_users := map (\<lambda>u. if usr_id u = i then u\<lparr>usr_pwhash := h\<rparr> else u) (pg_users p)\<rparr>"
proof -
  obtain r where r: "pg_call (q_update_password i h) p = (r, p')" "affected_result r = Inr ()"
    using assms by (auto simp: update_password_def map_prod_id_eq)
  then obtain a where "r = Some a" by (cases r) (auto simp: affected_result_def)
  then obtain x where "q_update_password i h (p\<lparr>pg_faults := x\<rparr>) = (a, p')"
    using pg_call_Some r(1) by blast
  then show ?thesis by (auto simp: q_update_password_def)
qed

text \<open>
  C32. A password changes only for the account that is logged in, against its current
  password and to one of at least eight bytes; afterwards the new password logs in. All other
  users are as before, and so are all sessions: those opened under the old password stay.
\<close>

theorem change_password_effect:
  assumes "bcrypt_ok (dp_bcrypt d)" "pg_wf (ad_pg a)" "u \<in> set (pg_users (ad_pg a))"
    and "handle_change_password d u q a = (r, a')" "rs_status r = 200"
  shows "\<exists>req u'. decode_password (aq_body q) = Some req \<and> bc_compare (dp_bcrypt d) (usr_pwhash u) (pr_current req) \<and>
    8 \<le> length (pr_new req) \<and> usr_email u' = usr_email u \<and> usr_id u' = usr_id u \<and>
    pg_users (ad_pg a') = map (\<lambda>v. if usr_id v = usr_id u then u' else v) (pg_users (ad_pg a)) \<and>
    pg_sessions (ad_pg a') = pg_sessions (ad_pg a) \<and>
    (pg_faults (ad_pg a') = [] \<and> hash_id sha (b64_rawurl_encode buf) \<notin> ses_hash ` set (pg_sessions (ad_pg a')) \<longrightarrow>
       fst (fst (login (dp_bcrypt d) sha ttl now (Some buf) (usr_email u) (pr_new req) (ad_pg a'))) =
         Inr (b64_rawurl_encode buf))"
proof -
  obtain req where req: "decode_password (aq_body q) = Some req" "bc_compare (dp_bcrypt d) (usr_pwhash u) (pr_current req)"
    "min_password \<le> length (pr_new req)"
    using assms(4,5)
    by (auto simp: handle_change_password_def bad_body_def verify_password_def split: option.splits if_splits)
  obtain h where h: "bc_generate (dp_bcrypt d) (aq_salt q) (pr_new req) = Some h"
    using assms(4,5) req
    by (auto simp: handle_change_password_def hash_password_def verify_password_def internal_error_def split: option.splits)
  obtain res p where c: "update_password (usr_id u) h (ad_pg a) = (res, p)" by fastforce
  have p: "res = Inr ()" "a' = put_pg p a"
    using assms(4,5) req h c
    by (auto simp: handle_change_password_def hash_password_def verify_password_def internal_error_def split: sum.splits)
  obtain x where x: "p = (ad_pg a)\<lparr>pg_faults := x,
      pg_users := map (\<lambda>v. if usr_id v = usr_id u then v\<lparr>usr_pwhash := h\<rparr> else v) (pg_users (ad_pg a))\<rparr>"
    using update_password_Inr c p(1) by blast
  let ?u = "u\<lparr>usr_pwhash := h\<rparr>"
  have users: "pg_users p = map (\<lambda>v. if usr_id v = usr_id u then ?u else v) (pg_users (ad_pg a))"
    using x user_id_eq [OF assms(2,3)] by (auto intro!: map_cong)
  have "pg_steps (ad_pg a) p"
    using steps_step [OF steps_refl st_update_password, of "ad_pg a" "usr_id u" h] c by simp
  then have wf: "pg_wf p" using pg_steps_wf assms(2) by blast
  have mem: "?u \<in> set (pg_users p)" unfolding users using assms(3) by force
  have cmp: "bc_compare (dp_bcrypt d) (usr_pwhash ?u) (pr_new req)" using assms(1) h by (simp add: bcrypt_ok_def)
  have "fst (fst (login (dp_bcrypt d) sha ttl now (Some buf) (usr_email u) (pr_new req) p)) = Inr (b64_rawurl_encode buf)"
    if "pg_faults p = []" "hash_id sha (b64_rawurl_encode buf) \<notin> ses_hash ` set (pg_sessions p)"
    using login_works [OF wf that(1) mem cmp that(2), of ttl now] by simp
  moreover have "pg_sessions p = pg_sessions (ad_pg a)" using x by simp
  ultimately show ?thesis using req users p(2)
    by (intro exI [of _ req] exI [of _ ?u]) (simp add: min_password_def)
qed

section \<open>Logging out\<close>

lemma logout_deletes:
  assumes "raw \<noteq> []" "pg_faults p = [] \<or> hd (pg_faults p) \<noteq> DbLostBefore"
  shows "pg_sessions (snd (logout sha raw p)) = filter (\<lambda>s. ses_hash s \<noteq> hash_id sha raw) (pg_sessions p)"
  using assms by (auto simp: logout_def delete_session_def pg_call_def Let_def split: list.splits db_fault.splits)

lemma no_session_no_user:
  assumes "raw \<noteq> []" "\<forall>s \<in> set (pg_sessions p). ses_hash s \<noteq> hash_id sha raw"
  shows "fst (current_user sha now raw p) \<in> {Inl StNotFound, Inl StDb}"
proof -
  have "find (\<lambda>s. ses_hash s = hash_id sha raw \<and> now < ses_expires s) (pg_sessions p) = None"
    using assms(2) by (auto simp: find_None_iff)
  then show ?thesis
    using assms(1) by (auto simp: current_user_def get_session_def row_result_def pg_call_def Let_def
        split: list.splits db_fault.splits prod.splits)
qed

text \<open>
  C20. A logout always answers 200 and has the browser drop its cookie. When its statement reaches
  the database, even if the answer is lost, no session of the cookie is left and nobody is behind
  it any more. When the connection is lost before, the answer is the same, but the session stays
  in the table, and whoever holds the cookie still gets its user until it expires.
\<close>

theorem logout_effect:
  assumes "handle_logout d u q a = (r, a')" "aq_cookie q = Some raw" "raw \<noteq> []"
  shows "rs_status r = 200 \<and> rs_cookies r = [cleared_cookie (dp_cookie_secure d)] \<and>
    (pg_faults (ad_pg a) = [] \<or> hd (pg_faults (ad_pg a)) \<noteq> DbLostBefore \<longrightarrow>
       (\<forall>s \<in> set (pg_sessions (ad_pg a')). ses_hash s \<noteq> hash_id (dp_sha d) raw) \<and>
       (\<forall>now. fst (current_user (dp_sha d) now raw (ad_pg a')) \<in> {Inl StNotFound, Inl StDb})) \<and>
    (\<forall>v now. pg_faults (ad_pg a) = [DbLostBefore] \<and>
       current_user (dp_sha d) now raw ((ad_pg a)\<lparr>pg_faults := []\<rparr>) = (Inr v, (ad_pg a)\<lparr>pg_faults := []\<rparr>) \<longrightarrow>
       fst (current_user (dp_sha d) now raw (ad_pg a')) = Inr v)"
proof (intro conjI impI allI)
  have r: "r = status_ok\<lparr>rs_cookies := [cleared_cookie (dp_cookie_secure d)]\<rparr>"
    and pg: "ad_pg a' = snd (logout (dp_sha d) raw (ad_pg a))"
    using assms by (auto simp: handle_logout_def)
  show "rs_status r = 200" "rs_cookies r = [cleared_cookie (dp_cookie_secure d)]" by (simp_all add: r status_ok_def)
  assume reach: "pg_faults (ad_pg a) = [] \<or> hd (pg_faults (ad_pg a)) \<noteq> DbLostBefore"
  show none: "\<forall>s \<in> set (pg_sessions (ad_pg a')). ses_hash s \<noteq> hash_id (dp_sha d) raw"
    by (simp add: pg logout_deletes [OF assms(3) reach])
  show "fst (current_user (dp_sha d) now raw (ad_pg a')) \<in> {Inl StNotFound, Inl StDb}" for now
    by (rule no_session_no_user [OF assms(3) none])
next
  fix v now assume "pg_faults (ad_pg a) = [DbLostBefore] \<and>
    current_user (dp_sha d) now raw ((ad_pg a)\<lparr>pg_faults := []\<rparr>) = (Inr v, (ad_pg a)\<lparr>pg_faults := []\<rparr>)"
  moreover have "ad_pg a' = snd (logout (dp_sha d) raw (ad_pg a))" using assms by (auto simp: handle_logout_def)
  ultimately show "fst (current_user (dp_sha d) now raw (ad_pg a')) = Inr v"
    using assms(3) by (simp add: logout_def delete_session_def pg_call_def)
qed

end
