(* ===== verification/LoginLimit.thy ===== *)
theory LoginLimit
  imports AdminProps
begin

text \<open>
  The login limiter over a whole history of admin requests: whatever else the server is asked in
  between and from whatever ports a client connects, the attempts of one address that reach the
  password check are bounded by its token bucket.
\<close>

section \<open>Token buckets\<close>

text \<open>A bucket after a list of instants, and its answers at them.\<close>

definition bucket_after :: "'l rate_api \<Rightarrow> time list \<Rightarrow> 'l \<Rightarrow> 'l" where
  "bucket_after rl ts l = foldl (\<lambda>l t. snd (rl_allow rl t l)) l ts"

fun bucket_oks :: "'l rate_api \<Rightarrow> time list \<Rightarrow> 'l \<Rightarrow> bool list" where
  "bucket_oks rl [] l = []"
| "bucket_oks rl (t # ts) l = fst (rl_allow rl t l) # bucket_oks rl ts (snd (rl_allow rl t l))"

text \<open>
  What \<open>rate.Limiter\<close> promises: in any window of a history the events allowed are at most the burst
  and one for each interval the window lasts.
\<close>

definition bucket_law :: "'l rate_api \<Rightarrow> bool" where
  "bucket_law rl \<longleftrightarrow>
     (\<forall>past ts. ts \<noteq> [] \<longrightarrow> sorted (past @ ts) \<longrightarrow>
        int (length (filter id (bucket_oks rl ts (bucket_after rl past (rl_new rl login_interval login_burst))))) \<le>
        int login_burst + (last ts - hd ts) div login_interval)"

section \<open>Histories of requests\<close>

fun serve_all ::
  "('s, 'g, 'l) admin_deps \<Rightarrow> ui_fs option \<Rightarrow> (string list \<times> admin_req) list \<Rightarrow> ('s, 'g, 'l) admin \<Rightarrow>
     (response list \<times> ('s, 'g, 'l) admin) option" where
  "serve_all d ui [] a = Some ([], a)"
| "serve_all d ui ((segs, q) # qs) a =
     (case admin_serve d ui segs q a of
        None \<Rightarrow> None
      | Some (r, a1) \<Rightarrow> map_option (map_prod ((#) r) id) (serve_all d ui qs a1))"

definition login_from :: "ui_fs option \<Rightarrow> string \<Rightarrow> string list \<times> admin_req \<Rightarrow> bool" where
  "login_from ui ip sq \<longleftrightarrow>
     admin_route (ui \<noteq> None) (aq_meth (snd sq)) (fst sq) = AtLogin \<and> client_ip (aq_remote (snd sq)) = ip"

definition login_times :: "ui_fs option \<Rightarrow> string \<Rightarrow> (string list \<times> admin_req) list \<Rightarrow> time list" where
  "login_times ui ip qs = map (\<lambda>sq. aq_now (snd sq)) (filter (login_from ui ip) qs)"

text \<open>The attempts of an address that were not answered 429.\<close>

definition attempts :: "ui_fs option \<Rightarrow> string \<Rightarrow> (string list \<times> admin_req) list \<Rightarrow> response list \<Rightarrow> nat" where
  "attempts ui ip qs rs = length (filter (\<lambda>(sq, r). login_from ui ip sq \<and> rs_status r \<noteq> 429) (zip qs rs))"

definition bucket_of :: "'l rate_api \<Rightarrow> string \<Rightarrow> (string \<times> 'l) list \<Rightarrow> 'l" where
  "bucket_of rl ip limits =
     (case map_of limits ip of None \<Rightarrow> rl_new rl login_interval login_burst | Some l \<Rightarrow> l)"

lemma limiter_bucket:
  assumes "limiter_allow rl key now limits = (ok, limits')"
  shows "bucket_of rl ip limits' = (if ip = key then snd (rl_allow rl now (bucket_of rl ip limits)) else bucket_of rl ip limits)"
    "ok = fst (rl_allow rl now (bucket_of rl key limits))"
  using assms by (auto simp: limiter_allow_def bucket_of_def Let_def split: prod.splits)

text \<open>The handlers behind \<open>protected\<close> leave the limiter alone.\<close>

lemma ad_on_app_limits: "ad_on_app f a = (r, a') \<Longrightarrow> ad_limits a' = ad_limits a"
  by (auto simp: ad_on_app_eq)

lemma ad_on_world_limits: "ad_on_world f a = (r, a') \<Longrightarrow> ad_limits a' = ad_limits a"
  by (auto simp: ad_on_world_def dest: ad_on_app_limits)

lemmas handler_defs = handle_logout_def handle_me_def handle_list_users_def handle_create_user_def
  handle_delete_user_def delete_user_checks_def delete_user_commit_def handle_change_password_def
  handle_list_tokens_def handle_create_token_def handle_revoke_token_def handle_get_settings_def

lemma handlers_limits:
  "handle_logout d u q a = (r, a') \<Longrightarrow> ad_limits a' = ad_limits a"
  "handle_me u q a = (r, a') \<Longrightarrow> ad_limits a' = ad_limits a"
  "handle_list_users u q a = (r, a') \<Longrightarrow> ad_limits a' = ad_limits a"
  "handle_create_user d u q a = (r, a') \<Longrightarrow> ad_limits a' = ad_limits a"
  "handle_delete_user i u q a = (r, a') \<Longrightarrow> ad_limits a' = ad_limits a"
  "handle_change_password d u q a = (r, a') \<Longrightarrow> ad_limits a' = ad_limits a"
  "handle_list_tokens u q a = (r, a') \<Longrightarrow> ad_limits a' = ad_limits a"
  "handle_create_token d u q a = (r, a') \<Longrightarrow> ad_limits a' = ad_limits a"
  "handle_revoke_token i u q a = (r, a') \<Longrightarrow> ad_limits a' = ad_limits a"
  "handle_get_settings u q a = (r, a') \<Longrightarrow> ad_limits a' = ad_limits a"
  by (auto simp: handler_defs Let_def split: option.splits if_splits prod.splits sum.splits store_err.splits)

lemma handlers_app:
  "handle_update_settings d u q a = (r, a') \<Longrightarrow> ad_limits a' = ad_limits a"
  "handle_delete_entry d h u q a = (r, a') \<Longrightarrow> ad_limits a' = ad_limits a"
  by (auto simp: handle_update_settings_def handle_delete_entry_def
      dest!: ad_on_app_limits ad_on_world_limits split: option.splits prod.splits sum.splits apply_err.splits)

lemma handle_bulk_delete_limits: "handle_bulk_delete d u q a = (r, a') \<Longrightarrow> ad_limits a' = ad_limits a"
  by (auto simp: handle_bulk_delete_def dest!: ad_on_world_limits split: option.splits if_splits prod.splits)

lemma handle_list_cache_limits: "handle_list_cache d u q a = (r, a') \<Longrightarrow> ad_limits a' = ad_limits a"
  by (auto simp: handle_list_cache_def dest!: ad_on_world_limits split: prod.splits sum.splits)

lemma handle_prune_limits: "handle_prune d u q a = Some (r, a') \<Longrightarrow> ad_limits a' = ad_limits a"
  by (auto simp: handle_prune_def split: option.splits if_splits prod.splits)

lemmas all_handlers_limits = handlers_limits handlers_app handle_bulk_delete_limits handle_list_cache_limits
  handle_prune_limits

lemma admin_handler_limits:
  assumes "admin_handler d t = Some h" "h u q a = Some (r, a')"
  shows "ad_limits a' = ad_limits a"
  using assms by (cases t) (auto simp: admin_handler_def total_handler_def dest: all_handlers_limits)

lemma protected_limits:
  assumes "admin_handler d t = Some h" "protected d h q a = Some (r, a')"
  shows "ad_limits a' = ad_limits a"
  using assms(2)
proof (cases rule: protected_cases)
  case (passed u p)
  then show ?thesis using admin_handler_limits [OF assms(1) passed(4)] by simp
qed simp

lemma handle_login_limits:
  assumes "handle_login d q a = (r, a')"
    and "limiter_allow (dp_rate d) (client_ip (aq_remote q)) (aq_now q) (ad_limits a) = (ok, limits)"
  shows "ad_limits a' = limits" "\<not> ok \<Longrightarrow> rs_status r = 429"
proof -
  show "ad_limits a' = limits"
    using assms by (auto simp: handle_login_def Let_def put_pg_def
        split: if_splits option.splits prod.splits sum.splits login_err.splits)
  show "\<not> ok \<Longrightarrow> rs_status r = 429"
    using assms by (auto simp: handle_login_def Let_def)
qed

text \<open>One request of a history, as the bucket of an address sees it.\<close>

lemma serve_bucket:
  fixes ip :: string
  assumes "admin_serve d ui segs q a = Some (r, a')"
  defines "l \<equiv> bucket_of (dp_rate d) ip (ad_limits a)"
  shows "bucket_of (dp_rate d) ip (ad_limits a') =
      (if login_from ui ip (segs, q) then snd (rl_allow (dp_rate d) (aq_now q) l) else l)"
    "login_from ui ip (segs, q) \<Longrightarrow> rs_status r \<noteq> 429 \<Longrightarrow> fst (rl_allow (dp_rate d) (aq_now q) l)"
proof -
  let ?t = "admin_route (ui \<noteq> None) (aq_meth q) segs"
  have "bucket_of (dp_rate d) ip (ad_limits a') =
      (if login_from ui ip (segs, q) then snd (rl_allow (dp_rate d) (aq_now q) l) else l) \<and>
    (login_from ui ip (segs, q) \<longrightarrow> rs_status r \<noteq> 429 \<longrightarrow> fst (rl_allow (dp_rate d) (aq_now q) l))"
  proof (cases "?t = AtLogin")
    case True
    then obtain r0 where h: "handle_login d q a = (r0, a')" "rs_status r0 = rs_status r"
      using assms(1) True by (auto simp: admin_serve_def Let_def admin_handler_def head_only_def map_prod_id_eq)
    obtain ok limits where la: "limiter_allow (dp_rate d) (client_ip (aq_remote q)) (aq_now q) (ad_limits a) = (ok, limits)"
      by fastforce
    note hl = handle_login_limits [OF h(1) la]
    show ?thesis
      using limiter_bucket(1) [OF la, of ip] limiter_bucket(2) [OF la] hl h(2) True
      by (auto simp: login_from_def l_def)
  next
    case False
    have "ad_limits a' = ad_limits a"
    proof (cases "admin_handler d ?t")
      case None
      then show ?thesis using assms(1) False
        by (auto simp: admin_serve_def Let_def map_prod_id_eq split: admin_target.splits)
    next
      case (Some h)
      then obtain r0 where "protected d h q a = Some (r0, a')"
        using assms(1) by (auto simp: admin_serve_def Let_def map_prod_id_eq)
      then show ?thesis using protected_limits [OF Some] by blast
    qed
    then show ?thesis using False by (simp add: login_from_def l_def)
  qed
  then show "bucket_of (dp_rate d) ip (ad_limits a') =
      (if login_from ui ip (segs, q) then snd (rl_allow (dp_rate d) (aq_now q) l) else l)"
    "login_from ui ip (segs, q) \<Longrightarrow> rs_status r \<noteq> 429 \<Longrightarrow> fst (rl_allow (dp_rate d) (aq_now q) l)" by blast+
qed

lemma serve_all_bucket:
  assumes "serve_all d ui qs a = Some (rs, a')"
  shows "bucket_of (dp_rate d) ip (ad_limits a') =
      bucket_after (dp_rate d) (login_times ui ip qs) (bucket_of (dp_rate d) ip (ad_limits a)) \<and>
    attempts ui ip qs rs \<le>
      length (filter id (bucket_oks (dp_rate d) (login_times ui ip qs) (bucket_of (dp_rate d) ip (ad_limits a))))"
  using assms
proof (induction qs arbitrary: a rs)
  case Nil
  then show ?case by (simp add: login_times_def attempts_def bucket_after_def)
next
  case (Cons sq qs)
  obtain segs q where sq: "sq = (segs, q)" by fastforce
  obtain r a1 rs1 where s: "admin_serve d ui segs q a = Some (r, a1)" "serve_all d ui qs a1 = Some (rs1, a')" "rs = r # rs1"
    using Cons.prems sq by (auto split: option.splits)
  note b = serve_bucket [OF s(1), where ip = ip] and ih = Cons.IH [OF s(2)]
  show ?case using b ih
    by (cases "login_from ui ip sq") (auto simp: sq s(3) login_times_def attempts_def bucket_after_def)
qed

text \<open>
  C33. In any window of the server's history the login attempts of one client address
  that get as far as the password check are at most five, and one more for every twelve seconds
  the window lasts, no matter which other requests and other clients are served in between.
\<close>

theorem login_attempts_bounded:
  assumes "bucket_law (dp_rate d)"
    and "serve_all d ui past (new_admin app) = Some (rs0, a)" "serve_all d ui qs a = Some (rs, a')"
    and "sorted (login_times ui ip past @ login_times ui ip qs)" "login_times ui ip qs \<noteq> []"
  shows "int (attempts ui ip qs rs) \<le>
    5 + (last (login_times ui ip qs) - hd (login_times ui ip qs)) div (12 * nano_second)"
proof -
  have "bucket_of (dp_rate d) ip (ad_limits (new_admin app)) = rl_new (dp_rate d) login_interval login_burst"
    by (simp add: bucket_of_def new_admin_def)
  then have "bucket_of (dp_rate d) ip (ad_limits a) =
      bucket_after (dp_rate d) (login_times ui ip past) (rl_new (dp_rate d) login_interval login_burst)"
    using serve_all_bucket [OF assms(2), of ip] by simp
  then show ?thesis
    using serve_all_bucket [OF assms(3), of ip] assms(1,4,5)
    unfolding bucket_law_def login_burst_def login_interval_def by force
qed

end
