(* ===== verification/AdminCacheProps.thy ===== *)
theory AdminCacheProps
  imports LoginLimit
begin

text \<open>
  Properties of the cache endpoints of the admin API: what pruning and bulk deletion remove, how
  the page size is bounded, and the order of a listing.
\<close>

section \<open>Pruning and deleting in the janitor's world\<close>

lemma should_delete_same [simp]: "should_delete e st c c \<longleftrightarrow> time_before (e_mod e) c"
  by (auto simp: should_delete_def)

context janitor_world
begin

text \<open>While nothing fails, pruning is a sweep with one threshold for everything.\<close>

lemma prune_entries_sweep:
  assumes "ok w" "reliable w" "\<forall>e \<in> set es. store_key (e_hash e)"
    and "sweep_entries bk si reads c c es n w = (n', w')"
  shows "prune_entries bk si c es n w = ((n', False), w')"
  using assms
proof (induction es arbitrary: n w)
  case Nil
  then show ?case by simp
next
  case (Cons e es)
  show ?case
  proof (cases "time_before (e_mod e) c")
    case False
    then show ?thesis using Cons by simp
  next
    case True
    obtain res w1 where d: "b_delete bk (e_hash e) w = (res, w1)" by fastforce
    have "store_key (e_hash e)" using Cons.prems(3) by simp
    note dr = delete_reliable_view [OF Cons.prems(1,2) this d]
    obtain r2 w2 where s: "st_delete si (e_hash e) w1 = (r2, w2)" by fastforce
    have w2: "ok w2" "reliable w2" using stats_delete_frame [OF s] dr by simp_all
    have "sweep_entries bk si reads c c es (n + 1) w2 = (n', w')"
      using Cons.prems(4) True d s dr(4) by (auto split: if_splits)
    from Cons.IH [OF w2 _ this] Cons.prems(3)
    show ?thesis using True d s dr(4) by (simp add: clear_read_stats_def)
  qed
qed

lemma prune_pages_sweep:
  assumes "sweep_pages bk si reads c c cur n w = Some ((m, failed), w')" "ok w" "reliable w"
  shows "prune_pages bk si c cur n w = Some ((m, failed), w')"
proof -
  have "b = bk \<longrightarrow> s = si \<longrightarrow> ac = uc \<longrightarrow> ok w \<longrightarrow> reliable w \<longrightarrow> prune_pages bk si uc cur n w = Some res"
    if "sweep_pages b s reads ac uc cur n w = Some res" for b s reads ac uc cur n w res
  proof (rule sweep_pages.raw_induct [where P = "\<lambda>b s reads ac uc cur n w res. b = bk \<longrightarrow> s = si \<longrightarrow>
      ac = uc \<longrightarrow> ok w \<longrightarrow> reliable w \<longrightarrow> prune_pages bk si uc cur n w = Some res", OF _ that], intro impI)
    fix f b s reads ac uc cur n w res
    assume ih: "\<And>b s reads ac uc cur n w res. f b s reads ac uc cur n w = Some res \<Longrightarrow>
        b = bk \<longrightarrow> s = si \<longrightarrow> ac = uc \<longrightarrow> ok w \<longrightarrow> reliable w \<longrightarrow> prune_pages bk si uc cur n w = Some res"
      and body: "(case b_list b cur 200 w of (Inl _, w1) \<Rightarrow> Some ((n, True), w1)
        | (Inr page, w1) \<Rightarrow>
            (case sweep_entries b s reads ac uc (page_entries page) n w1 of
               (n', w2) \<Rightarrow>
                 (if next_cursor page = [] then Some ((n', False), w2)
                  else f b s reads ac uc (next_cursor page) n' w2))) = Some res"
      and eq: "b = bk" "s = si" "ac = uc" and w: "ok w" "reliable w"
    let ?v = "view w" and ?p = "take 200 (keys_after (view w) cur)"
    define page where "page = \<lparr>page_entries = map (view_entry ?v) ?p,
      next_cursor = (if 200 < length (keys_after ?v cur) then last ?p else [])\<rparr>"
    obtain w1 where w1: "reliable w1" "ok w1" "view w1 = ?v" "b_list bk cur 200 w = (Inr page, w1)"
      using list_page [OF w, of cur] unfolding page_def [symmetric] by (elim exE conjE) (rule that)
    have pg: "page_entries page = map (view_entry ?v) ?p" by (simp add: page_def)
    have mem: "\<forall>k \<in> set ?p. view w1 k = ?v k \<and> ?v k \<noteq> None"
      using w1(3) keys_after_set [OF view_finite [OF w(1)], of cur] by (auto dest!: in_set_takeD)
    then have keys: "\<forall>e \<in> set (page_entries page). store_key (e_hash e)"
      using view_keys [OF w(1)] w1(3) pg by (auto simp del: not_None_eq)
    obtain n2 w2 where e: "sweep_entries bk si reads uc uc (page_entries page) n w1 = (n2, w2)" by fastforce
    have "distinct ?p" using keys_after_sorted(2) by (rule distinct_take)
    note se = sweep_entries_exact [OF w1(2,1) this mem e [unfolded pg]]
    have w2: "ok w2" by (rule se [THEN conjunct1])
    have r2: "reliable w2" by (rule se [THEN conjunct2, THEN conjunct1])
    note pe = prune_entries_sweep [OF w1(2,1) keys e]
    show "prune_pages bk si uc cur n w = Some res"
    proof (cases "next_cursor page = []")
      case True
      then show ?thesis using body eq w1(4) e pe by (subst prune_pages.simps) auto
    next
      case False
      then have "f bk si reads uc uc (next_cursor page) n2 w2 = Some res" using body eq w1(4) e by simp
      then have "prune_pages bk si uc (next_cursor page) n2 w2 = Some res"
        using ih [OF _ ] w2 r2 by simp
      then show ?thesis using False w1(4) pe by (subst prune_pages.simps) simp
    qed
  qed
  then show ?thesis using assms by blast
qed

text \<open>So it removes exactly what is older than the threshold, and counts it.\<close>

lemma prune_exact:
  assumes "ok w" "reliable w"
  shows "\<exists>w'. prune_older_than bk si c w = Some ((card {k. \<exists>a. view w k = Some a \<and> snd a < c}, False), w') \<and>
    ok w' \<and> reliable w' \<and> view w' = purge (\<lambda>k. \<exists>a. view w k = Some a \<and> snd a < c) (view w)"
proof -
  obtain w' where w': "sweep_pages bk si [] c c [] 0 w =
      Some ((card {k. view w k \<noteq> None \<and> stale [] c c (view w) k}, False), w')"
    "ok w'" "reliable w'" "view w' = purge (stale [] c c (view w)) (view w)"
    using sweep_all_pages [OF assms, of "[]" c c] by (elim exE conjE) (rule that)
  have s: "view w k \<noteq> None \<and> stale [] c c (view w) k \<longleftrightarrow> (\<exists>a. view w k = Some a \<and> snd a < c)" for k
    by (cases "view w k") (auto simp: stale_def view_entry_def time_before_def)
  have "purge (stale [] c c (view w)) (view w) = purge (\<lambda>k. \<exists>a. view w k = Some a \<and> snd a < c) (view w)"
    unfolding purge_def fun_eq_iff using s by (metis (no_types, lifting))
  then show ?thesis
    using prune_pages_sweep [OF w'(1) assms] w'(2-4) unfolding s prune_older_than_def by simp
qed

text \<open>Deleting a list of hashes removes the valid ones and counts those that were stored.\<close>

lemma bulk_delete_exact:
  assumes "ok w" "reliable w" "bulk_delete bk si hs n w = (m, w')"
  shows "ok w' \<and> reliable w' \<and> view w' = purge (\<lambda>k. k \<in> set hs \<and> valid_hash k) (view w) \<and>
    m = n + card {k \<in> set hs. valid_hash k \<and> view w k \<noteq> None}"
  using assms
proof (induction hs arbitrary: n w)
  case Nil
  then show ?case by simp
next
  case (Cons h hs)
  show ?case
  proof (cases "valid_hash h")
    case False
    then have "bulk_delete bk si hs n w = (m, w')" using Cons.prems(3) by simp
    from Cons.IH [OF Cons.prems(1,2) this] False show ?thesis
      by (auto simp: purge_def fun_eq_iff intro!: arg_cong [where f = card])
  next
    case True
    obtain res w1 where d: "b_delete bk h w = (res, w1)" by fastforce
    note dr = delete_reliable_view [OF Cons.prems(1,2) valid_hash_store_key [OF True] d]
    let ?S = "\<lambda>w. {k \<in> set hs. valid_hash k \<and> view w k \<noteq> None}"
    show ?thesis
    proof (cases "view w h")
      case None
      then have "bulk_delete bk si hs n w1 = (m, w')" using Cons.prems(3) True d dr(4) by simp
      note ih = Cons.IH [OF dr(1,2) this]
      have "view w1 = view w" using dr(3) None by (simp add: fun_upd_idem)
      then show ?thesis using ih None
        by (auto simp: purge_def fun_eq_iff intro!: arg_cong [where f = card])
    next
      case (Some a)
      obtain r2 w2 where s: "st_delete si h w1 = (r2, w2)" by fastforce
      note sf = stats_delete_frame [OF s]
      have w2: "ok w2" "reliable w2" "view w2 = (view w)(h := None)" using sf dr by simp_all
      have "bulk_delete bk si hs (n + 1) w2 = (m, w')"
        using Cons.prems(3) True d dr(4) s Some by (simp add: clear_read_stats_def)
      note ih = Cons.IH [OF w2(1,2) this]
      have "{k \<in> set (h # hs). valid_hash k \<and> view w k \<noteq> None} = insert h (?S w2)"
        using True Some by (auto simp: w2(3))
      moreover have "h \<notin> ?S w2" "finite (?S w2)" by (simp_all add: w2(3))
      ultimately have "card {k \<in> set (h # hs). valid_hash k \<and> view w k \<noteq> None} = Suc (card (?S w2))" by simp
      moreover have "view w' = purge (\<lambda>k. k \<in> set (h # hs) \<and> valid_hash k) (view w)"
        using ih True by (auto simp: purge_def fun_eq_iff w2(3))
      ultimately show ?thesis using ih by simp
    qed
  qed
qed

end

section \<open>The endpoints\<close>

abbreviation ad_world :: "('s, 'g, 'l) admin \<Rightarrow> ('s, 'g) world" where
  "ad_world a \<equiv> app_world (ad_app a)"

lemma ad_on_world_eq:
  "ad_on_world f a = (r, a') \<longleftrightarrow>
     (\<exists>w. f (ad_world a) = (r, w) \<and> a' = a\<lparr>ad_app := (ad_app a)\<lparr>app_world := w\<rparr>\<rparr>)"
  by (auto simp: ad_on_world_def ad_on_app_eq lift_state_eq)

text \<open>The threshold of a number of days, while it fits into a duration, and past that.\<close>

lemma prune_cutoff_exact:
  assumes "0 < days" "days \<le> 106751"
  shows "prune_cutoff now days = now - days * (24 * nano_hour)"
proof -
  have "dur_neg days = - days" using assms by (intro dur_neg_exact) simp_all
  moreover have "dur_mul (- days) 24 = - days * 24" using assms by (intro dur_mul_exact) simp_all
  moreover have "dur_mul (- days * 24) nano_hour = - days * 24 * nano_hour"
    using assms by (intro dur_mul_exact) (simp_all add: nano_hour_def)
  ultimately show ?thesis by (simp add: prune_cutoff_def time_add_def)
qed

lemma prune_cutoff_wraps: "prune_cutoff now 106752 = now + 9223371273709551616"
  by (simp add: prune_cutoff_def time_add_def dur_mul_def dur_neg_def wrap64_def nano_hour_def)

lemma handle_prune_exact:
  assumes "world_local_ok (ad_world a)" "world_reliable (ad_world a)" "decode_days (aq_body q) = Some days" "0 < days"
  defines "c \<equiv> prune_cutoff (aq_now q) days"
  shows "\<exists>a'. handle_prune d u q a =
      Some (write_json 200 (deleted_dto (card {k. \<exists>x. world_local_view (ad_world a) k = Some x \<and> snd x < c})), a') \<and>
    (\<forall>k. world_local_view (ad_world a') k = (case world_local_view (ad_world a) k of
       None \<Rightarrow> None | Some x \<Rightarrow> if snd x < c then None else Some x))"
proof -
  obtain w' where w': "prune_older_than (world_backend (dp_apis d)) world_stats c (ad_world a) =
      Some ((card {k. \<exists>x. world_local_view (ad_world a) k = Some x \<and> snd x < c}, False), w')"
    "world_local_view w' = purge (\<lambda>k. \<exists>x. world_local_view (ad_world a) k = Some x \<and> snd x < c)
       (world_local_view (ad_world a))"
    using world_janitor.prune_exact [OF assms(1,2), of "dp_apis d" c] by (elim exE conjE) (rule that)
  then show ?thesis using assms(3,4)
    by (simp add: handle_prune_def c_def purge_def split: option.split)
qed

lemma prune_in_range:
  assumes "world_local_ok (ad_world a)" "world_reliable (ad_world a)"
    and "decode_days (aq_body q) = Some days" "0 < days" "days \<le> 106751"
  shows "\<exists>a'. handle_prune d u q a = Some (write_json 200 (deleted_dto (card {k. \<exists>x.
      world_local_view (ad_world a) k = Some x \<and> snd x < aq_now q - days * (24 * nano_hour)})), a') \<and>
    (\<forall>k. world_local_view (ad_world a') k = (case world_local_view (ad_world a) k of
       None \<Rightarrow> None | Some x \<Rightarrow> if snd x < aq_now q - days * (24 * nano_hour) then None else Some x))"
  using handle_prune_exact [OF assms(1-4)] unfolding prune_cutoff_exact [OF assms(4,5)] .

lemma prune_overflow:
  assumes "world_local_ok (ad_world a)" "world_reliable (ad_world a)" "decode_days (aq_body q) = Some 106752"
    and "\<forall>k x. world_local_view (ad_world a) k = Some x \<longrightarrow> snd x \<le> aq_now q"
  shows "\<exists>r a'. handle_prune d u q a = Some (r, a') \<and> rs_status r = 200 \<and> (\<forall>k. world_local_view (ad_world a') k = None)"
proof -
  have "(0 :: int) < 106752" by simp
  from handle_prune_exact [OF assms(1-3) this, of d u] obtain r a' where h: "handle_prune d u q a = Some (r, a')"
    "rs_status r = 200"
    and v: "\<forall>k. world_local_view (ad_world a') k = (case world_local_view (ad_world a) k of
       None \<Rightarrow> None | Some x \<Rightarrow> if snd x < aq_now q + 9223371273709551616 then None else Some x)"
    unfolding prune_cutoff_wraps by auto
  have "world_local_view (ad_world a') k = None" for k
  proof (cases "world_local_view (ad_world a) k")
    case (Some x)
    then have "snd x < aq_now q + 9223371273709551616" using assms(4) by fastforce
    then show ?thesis using v Some by simp
  qed (use v in simp)
  then show ?thesis using h by blast
qed

text \<open>
  C37. Pruning with a number of days that fits into a duration (up to 106751) removes, from a local
  directory that answers, exactly the artifacts last modified more than that many days ago and
  answers with their number; it always returns. One day more and the 64-bit product wraps around:
  a request to prune what is older than 106752 days, some 292 years, removes every artifact, the
  newest included.
\<close>

theorem prune_removes_old:
  assumes "world_local_ok (ad_world a)" "world_reliable (ad_world a)" "decode_days (aq_body q) = Some days" "0 < days"
    and "\<forall>k x. world_local_view (ad_world a) k = Some x \<longrightarrow> snd x \<le> aq_now q"
  shows "\<exists>r a'. handle_prune d u q a = Some (r, a') \<and>
    (days \<le> 106751 \<longrightarrow> r = write_json 200 (deleted_dto (card {k. \<exists>x.
        world_local_view (ad_world a) k = Some x \<and> snd x < aq_now q - days * (24 * nano_hour)})) \<and>
      (\<forall>k. world_local_view (ad_world a') k = (case world_local_view (ad_world a) k of
         None \<Rightarrow> None | Some x \<Rightarrow> if snd x < aq_now q - days * (24 * nano_hour) then None else Some x))) \<and>
    (days = 106752 \<longrightarrow> rs_status r = 200 \<and> (\<forall>k. world_local_view (ad_world a') k = None))"
proof -
  consider "days \<le> 106751" | "days = 106752" | "106752 < days" by linarith
  then show ?thesis
  proof cases
    case 1
    then show ?thesis using prune_in_range [OF assms(1-4) 1, of d u] by fastforce
  next
    case 2
    then show ?thesis using prune_overflow [OF assms(1,2) assms(3) [unfolded 2] assms(5), of d u] by fastforce
  next
    case 3
    then show ?thesis using handle_prune_exact [OF assms(1-4), of d u] by fastforce
  qed
qed

lemma bulk_delete_removes:
  assumes "world_local_ok (ad_world a)" "world_reliable (ad_world a)" "decode_hashes (aq_body q) = Some hashes"
    and "handle_bulk_delete d u q a = (r, a')"
  shows "if 1000 < length hashes then rs_status r = 400 \<and> a' = a
    else r = write_json 200 (deleted_dto (card {k \<in> set hashes. valid_hash k \<and> world_local_view (ad_world a) k \<noteq> None})) \<and>
      (\<forall>k. world_local_view (ad_world a') k =
         (if k \<in> set hashes \<and> valid_hash k then None else world_local_view (ad_world a) k))"
proof (cases "1000 < length hashes")
  case True
  then show ?thesis using assms(3,4) by (auto simp: handle_bulk_delete_def max_bulk_def)
next
  case False
  obtain n w where b: "bulk_delete (world_backend (dp_apis d)) world_stats hashes 0 (ad_world a) = (n, w)" by fastforce
  have "ad_on_world (bulk_delete (world_backend (dp_apis d)) world_stats hashes 0) a =
      (n, a\<lparr>ad_app := (ad_app a)\<lparr>app_world := w\<rparr>\<rparr>)"
    using b by (simp add: ad_on_world_eq)
  then have "r = write_json 200 (deleted_dto n)" "a' = a\<lparr>ad_app := (ad_app a)\<lparr>app_world := w\<rparr>\<rparr>"
    using False assms(3,4) by (auto simp: handle_bulk_delete_def max_bulk_def)
  then show ?thesis
    using world_janitor.bulk_delete_exact [OF assms(1,2) b] False by (simp add: purge_def)
qed

lemma delete_entry_effect:
  assumes "apis_lawful (dp_apis d) co" "world_ok co (ad_world a)" "handle_delete_entry d h u q a = (r, a')"
  shows "(\<forall>k. k \<noteq> h \<longrightarrow> world_view co (ad_world a') k = world_view co (ad_world a) k) \<and>
    (rs_status r = 204 \<longrightarrow> world_view co (ad_world a) h \<noteq> None \<and> world_view co (ad_world a') h = None) \<and>
    (rs_status r = 404 \<longrightarrow> world_view co (ad_world a) h = None) \<and>
    (rs_status r = 400 \<longleftrightarrow> \<not> valid_hash h) \<and> (rs_status r = 400 \<longrightarrow> a' = a)"
proof (cases "valid_hash h")
  case False
  then show ?thesis using assms(3)
    by (auto simp: handle_delete_entry_def ad_on_world_eq delete_entry_def)
next
  case True
  have g: "guarded_store (world_backend (dp_apis d)) (world_view co) (world_ok co)"
    using world_cache [OF assms(1)] by (simp add: cache_world_def)
  obtain res w1 where b: "b_delete (world_backend (dp_apis d)) h (ad_world a) = (res, w1)" by fastforce
  note l = guarded_store.delete_law [OF g assms(2) valid_hash_store_key [OF True] b]
  obtain w2 where w2: "delete_entry (world_backend (dp_apis d)) world_stats h (ad_world a) = (r, w2)"
    "a' = a\<lparr>ad_app := (ad_app a)\<lparr>app_world := w2\<rparr>\<rparr>"
    using assms(3) by (auto simp: handle_delete_entry_def ad_on_world_eq)
  have st: "world_view co (snd (st_delete world_stats h w)) = world_view co w" for w :: "('a, 'b) world"
    by (simp add: world_stats_def on_pg_def lift_state_def world_view_def split: prod.splits)
  have v: "world_view co w2 = world_view co w1"
    using w2(1) True b st by (auto simp: delete_entry_def clear_read_stats_def split: sum.splits storage_err.splits)
  show ?thesis
  proof (cases res)
    case (Inl e)
    then have "rs_status r = (if e = ErrNotFound then 404 else 500)"
      using w2(1) True b by (auto simp: delete_entry_def internal_error_def split: storage_err.splits)
    then show ?thesis using l Inl v w2(2) True by auto
  next
    case (Inr x)
    then have "rs_status r = 204" using w2(1) True b by (auto simp: delete_entry_def)
    then show ?thesis using l Inr v w2(2) True by auto
  qed
qed

text \<open>
  C39. Deleting artifacts. Of one artifact, on any of the three backends: no other is touched; a
  204 means it was stored and is gone, a 404 that it was not stored, and a malformed hash is refused
  with 400 before the backend is asked. Of a batch of at most a thousand hashes, from a local
  directory that answers: the well-formed ones among them are removed and nothing else, and the
  answer is how many of them were stored; a larger batch is refused as a whole.
\<close>

theorem cache_deletions:
  assumes "apis_lawful (dp_apis d) co" "world_ok co (ad_world a)" "handle_delete_entry d h u q a = (r, a')"
    and "world_local_ok (ad_world b)" "world_reliable (ad_world b)" "decode_hashes (aq_body q') = Some hashes"
    and "handle_bulk_delete d u' q' b = (r', b')"
  shows "(\<forall>k. k \<noteq> h \<longrightarrow> world_view co (ad_world a') k = world_view co (ad_world a) k) \<and>
    (rs_status r = 204 \<longrightarrow> world_view co (ad_world a) h \<noteq> None \<and> world_view co (ad_world a') h = None) \<and>
    (rs_status r = 404 \<longrightarrow> world_view co (ad_world a) h = None) \<and>
    (rs_status r = 400 \<longleftrightarrow> \<not> valid_hash h) \<and> (rs_status r = 400 \<longrightarrow> a' = a) \<and>
    (if 1000 < length hashes then rs_status r' = 400 \<and> b' = b
     else r' = write_json 200 (deleted_dto (card {k \<in> set hashes. valid_hash k \<and> world_local_view (ad_world b) k \<noteq> None})) \<and>
       (\<forall>k. world_local_view (ad_world b') k =
          (if k \<in> set hashes \<and> valid_hash k then None else world_local_view (ad_world b) k)))"
  using delete_entry_effect [OF assms(1-3)] bulk_delete_removes [OF assms(4-7)] by blast

section \<open>Listing\<close>

text \<open>Sorting with a strict weak order: \<open>lt\<close> and its complement behave as an order must.\<close>

lemma insert_by_set: "set (insert_by lt x ys) = insert x (set ys)"
  by (induction ys) auto

lemma insert_by_mset: "mset (insert_by lt x ys) = add_mset x (mset ys)"
  by (induction ys) auto

lemma sort_slice_mset: "mset (sort_slice lt xs) = mset xs"
  by (induction xs) (simp_all add: sort_slice_def insert_by_mset)

definition strict_weak :: "('a \<Rightarrow> 'a \<Rightarrow> bool) \<Rightarrow> bool" where
  "strict_weak lt \<longleftrightarrow> (\<forall>a b. lt a b \<longrightarrow> \<not> lt b a) \<and> (\<forall>a b c. lt c a \<longrightarrow> lt b a \<or> lt c b)"

lemma insert_by_sorted:
  assumes "strict_weak lt" "sorted_wrt (\<lambda>a b. \<not> lt b a) ys"
  shows "sorted_wrt (\<lambda>a b. \<not> lt b a) (insert_by lt x ys)"
  using assms(2)
proof (induction ys)
  case Nil
  then show ?case by simp
next
  case (Cons y ys)
  show ?case
  proof (cases "lt y x")
    case True
    then have "\<not> lt x y" using assms(1) unfolding strict_weak_def by blast
    then show ?thesis using True Cons by (simp add: insert_by_set)
  next
    case False
    have "\<not> lt z x" if "z \<in> set ys" for z
      using that False Cons.prems assms(1) unfolding strict_weak_def by fastforce
    then show ?thesis using False Cons.prems by simp
  qed
qed

lemma sort_slice_sorted: "strict_weak lt \<Longrightarrow> sorted_wrt (\<lambda>a b. \<not> lt b a) (sort_slice lt xs)"
  by (induction xs) (simp_all add: sort_slice_def insert_by_sorted)

lemma row_less_strict_weak: "strict_weak row_less"
  unfolding strict_weak_def row_less_def time_after_def by (auto split: option.splits)

text \<open>What a listing is meant to look like: read artifacts first, the most recent read on top.\<close>

definition listed_before :: "cache_row \<Rightarrow> cache_row \<Rightarrow> bool" where
  "listed_before a b \<longleftrightarrow>
     (case cr_last b of
        Some t \<Rightarrow> (\<exists>u. cr_last a = Some u \<and> t \<le> u)
      | None \<Rightarrow> cr_last a \<noteq> None \<or> cr_mod b \<le> cr_mod a)"

lemma row_less_listed: "\<not> row_less b a \<longleftrightarrow> listed_before a b"
  by (auto simp: row_less_def listed_before_def time_after_def split: option.splits)

lemma list_rows_sorted: "sorted_wrt listed_before (list_rows page stats)"
  using sort_slice_sorted [OF row_less_strict_weak, of "map (row_of stats) (page_entries page)"]
  unfolding row_less_listed list_rows_def by blast

lemma list_limit_bounds: "1 \<le> list_limit v" "list_limit v \<le> 500"
  by (auto simp: list_limit_def default_page_def max_page_def split: option.splits)

lemma row_of_hash [simp]: "cr_hash (row_of stats e) = e_hash e" "cr_size (row_of stats e) = e_size e"
  "cr_mod (row_of stats e) = e_mod e"
  by (simp_all add: row_of_def split: option.splits)

text \<open>The read statistics of a page are supplementary: a page is listed with or without them.\<close>

lemma get_batch_same:
  assumes "get_cache_read_stats_batch hs p = (r, p')"
  shows "same_tables p p'"
  using assms by (auto simp: get_cache_read_stats_batch_def map_prod_id_eq dest: read_call_same split: if_splits)

lemma get_batch_fine:
  assumes "pg_faults p = []"
  shows "get_cache_read_stats_batch hs p = (Inr (filter (\<lambda>(h, _). h \<in> set hs) (pg_reads p)), p)"
  using assms by (simp add: get_cache_read_stats_batch_def plain_result_def)

lemma map_of_filter_key: "k \<in> S \<Longrightarrow> map_of (filter (\<lambda>(h, _). h \<in> S) al) k = map_of al k"
  by (induction al) auto

text \<open>The rows of a page over a view: one for each key, with its data and its read statistics.\<close>

lemma list_rows_exact:
  fixes v :: blob_view and following :: string and reads :: "(string \<times> read_stats) list"
  assumes "\<forall>k \<in> set ks. v k \<noteq> None"
  defines "page \<equiv> \<lparr>page_entries = map (view_entry v) ks, next_cursor = following\<rparr>"
  defines "st \<equiv> filter (\<lambda>(h, _). h \<in> set (map e_hash (page_entries page))) reads"
  shows "mset (map cr_hash (list_rows page st)) = mset ks"
    "\<forall>r \<in> set (list_rows page st). v (cr_hash r) \<noteq> None \<and> cr_size r = int (length (fst (the (v (cr_hash r))))) \<and>
       cr_mod r = snd (the (v (cr_hash r))) \<and>
       (case map_of reads (cr_hash r) of
          None \<Rightarrow> cr_count r = 0 \<and> cr_last r = None
        | Some s \<Rightarrow> cr_count r = rs_count s \<and> cr_last r = rs_last s)"
proof -
  have ms: "mset (list_rows page st) = mset (map (row_of st) (map (view_entry v) ks))"
    by (simp add: list_rows_def sort_slice_mset page_def del: map_map)
  then have "mset (map cr_hash (list_rows page st)) = image_mset cr_hash (mset (map (row_of st) (map (view_entry v) ks)))"
    by (simp only: mset_map [of cr_hash])
  then show "mset (map cr_hash (list_rows page st)) = mset ks" by (simp add: image_mset.compositionality comp_def)
  show "\<forall>r \<in> set (list_rows page st). v (cr_hash r) \<noteq> None \<and> cr_size r = int (length (fst (the (v (cr_hash r))))) \<and>
       cr_mod r = snd (the (v (cr_hash r))) \<and>
       (case map_of reads (cr_hash r) of
          None \<Rightarrow> cr_count r = 0 \<and> cr_last r = None
        | Some s \<Rightarrow> cr_count r = rs_count s \<and> cr_last r = rs_last s)"
  proof
    fix r assume "r \<in> set (list_rows page st)"
    then have "r \<in> set (map (row_of st) (map (view_entry v) ks))" using mset_eq_setD [OF ms] by blast
    then obtain k where k: "k \<in> set ks" "r = row_of st (view_entry v k)" by auto
    moreover have "map_of st k = map_of reads k"
      unfolding st_def using k(1) by (intro map_of_filter_key) (simp add: page_def comp_def)
    ultimately show "v (cr_hash r) \<noteq> None \<and> cr_size r = int (length (fst (the (v (cr_hash r))))) \<and>
       cr_mod r = snd (the (v (cr_hash r))) \<and>
       (case map_of reads (cr_hash r) of
          None \<Rightarrow> cr_count r = 0 \<and> cr_last r = None
        | Some s \<Rightarrow> cr_count r = rs_count s \<and> cr_last r = rs_last s)"
      using assms(1) by (auto simp: row_of_def view_entry_def split: option.splits)
  qed
qed

text \<open>
  C40. The limit of a listing is between one and five hundred whatever the request asks
  for, and over a local directory and a database that answer, a page holds the first artifacts
  after the cursor in key order up to that limit, each once, with its size, time, read count and
  last read. It shows those that were read before those that never were, the most recent first.
  The next cursor is the last key of the page while there are more, and empty at the end.
\<close>

theorem list_cache_page:
  assumes "world_local_ok (ad_world a)" "world_reliable (ad_world a)" "pg_faults (ad_pg a) = []"
    and v_def: "v = world_local_view (ad_world a)" and cur_def: "cur = query_get (aq_query q) ''cursor''"
    and lim_def: "lim = nat (list_limit (query_get (aq_query q) ''limit''))"
  shows "1 \<le> lim \<and> lim \<le> 500 \<and>
    (\<exists>rows a'. handle_list_cache d u q a =
         (write_json 200 (list_dto rows (if lim < length (keys_after v cur) then last (take lim (keys_after v cur)) else [])), a') \<and>
       mset (map cr_hash rows) = mset (take lim (keys_after v cur)) \<and> sorted_wrt listed_before rows \<and>
       (\<forall>r \<in> set rows. v (cr_hash r) \<noteq> None \<and> cr_size r = int (length (fst (the (v (cr_hash r))))) \<and>
          cr_mod r = snd (the (v (cr_hash r))) \<and>
          (case map_of (pg_reads (ad_pg a)) (cr_hash r) of
             None \<Rightarrow> cr_count r = 0 \<and> cr_last r = None
           | Some s \<Rightarrow> cr_count r = rs_count s \<and> cr_last r = rs_last s)) \<and>
       world_local_view (ad_world a') = v)"
proof -
  let ?L = "list_limit (query_get (aq_query q) ''limit'')"
  have lim: "1 \<le> lim" "lim \<le> 500" "0 < ?L"
    unfolding lim_def using list_limit_bounds [of "query_get (aq_query q) ''limit''"] by linarith+
  let ?ks = "take lim (keys_after v cur)"
  let ?next = "if lim < length (keys_after v cur) then last ?ks else []"
  let ?page = "\<lparr>page_entries = map (view_entry v) ?ks, next_cursor = ?next\<rparr>"
  obtain w where w: "world_local_view w = v" "b_list (world_backend (dp_apis d)) cur ?L (ad_world a) = (Inr ?page, w)"
    using world_janitor.list_reliable [OF assms(1,2) lim(3), of "dp_apis d" cur]
    unfolding Let_def v_def [symmetric] lim_def [symmetric]
    unfolding keys_after_def view_entry_def [abs_def] by blast
  have "b_list (world_backend (dp_apis d)) cur ?L = on_dyn (b_list (dyn_backend (dp_apis d)) cur ?L)"
    by (simp add: world_backend_def lift_backend_def on_dyn_def)
  then have wpg: "w_pg w = ad_pg a" using w(2) by (auto simp: on_dyn_eq)
  define a1 where "a1 = a\<lparr>ad_app := (ad_app a)\<lparr>app_world := w\<rparr>\<rparr>"
  have l: "ad_on_world (b_list (world_backend (dp_apis d)) cur ?L) a = (Inr ?page, a1)"
    using w(2) by (simp add: ad_on_world_eq a1_def)
  let ?st = "filter (\<lambda>(h, _). h \<in> set (map e_hash (page_entries ?page))) (pg_reads (ad_pg a))"
  have pg1: "ad_pg a1 = ad_pg a" by (simp add: a1_def wpg)
  then have s: "get_cache_read_stats_batch (map e_hash (page_entries ?page)) (ad_pg a1) = (Inr ?st, ad_pg a1)"
    using get_batch_fine assms(3) by simp
  let ?rows = "list_rows ?page ?st"
  have h: "handle_list_cache d u q a = (write_json 200 (list_dto ?rows ?next), a1)"
    using l s by (simp add: handle_list_cache_def cur_def [symmetric])
  have fin: "finite (dom v)" unfolding v_def by (rule world_janitor.view_finite [OF assms(1)])
  then have "\<forall>k \<in> set ?ks. v k \<noteq> None" using keys_after_set [OF fin, of cur] by (auto dest!: in_set_takeD)
  note rows = list_rows_exact [OF this, of ?next "pg_reads (ad_pg a)"]
  have "world_local_view (ad_world a1) = v" by (simp add: a1_def w(1))
  then show ?thesis using lim(1,2) h rows list_rows_sorted by blast
qed

end
