(* ===== verification/Server.thy ===== *)
theory Server
  imports AdminCacheProps
begin

text \<open>
  The whole process: the multiplexer of \<open>cmd/server/main.go\<close> over the cache server and the admin
  server, request logging (\<open>internal/httplog\<close>), and the steps the running server takes: requests,
  the read-tracking tasks downloads leave behind, and sweeps of the janitor. The properties that
  hold over all histories of these steps are proved here.
\<close>

section \<open>The data plane on the state of the server\<close>

definition app_srv :: "('s, 'g) app \<Rightarrow> ('s, 'g) world cache_srv" where
  "app_srv a = \<lparr>cs_world = app_world a, cs_max = app_max a, cs_tasks = app_tasks a\<rparr>"

definition put_srv :: "('s, 'g) world cache_srv \<Rightarrow> ('s, 'g) app \<Rightarrow> ('s, 'g) app" where
  "put_srv s a = a\<lparr>app_world := cs_world s, app_max := cs_max s, app_tasks := cs_tasks s\<rparr>"

definition admin_cache_deps :: "('s, 'g, 'l) admin_deps \<Rightarrow> ('s, 'g) world cache_deps" where
  "admin_cache_deps d = world_deps (dp_apis d) (dp_sha d)"

definition data_serve ::
  "('s, 'g, 'l) admin_deps \<Rightarrow> string \<Rightarrow> string list \<Rightarrow> cache_req \<Rightarrow> ('s, 'g, 'l) admin \<Rightarrow> response \<times> ('s, 'g, 'l) admin" where
  "data_serve d meth segs q = ad_on_app (lift_state app_srv put_srv (cache_serve (admin_cache_deps d) meth segs q))"

section \<open>httplog.go\<close>

record log_line =
  ll_method :: string
  ll_path :: string
  ll_status :: int
  ll_remote :: string

text \<open>The line a request leaves in the log, with the status the handler wrote.\<close>

definition with_logging :: "string \<Rightarrow> string \<Rightarrow> string \<Rightarrow> response \<times> 'a \<Rightarrow> (response \<times> log_line list) \<times> 'a" where
  "with_logging meth path remote res =
     (case res of (r, a) \<Rightarrow>
        ((r, [\<lparr>ll_method = meth, ll_path = path, ll_status = rs_status r, ll_remote = remote\<rparr>]), a))"

section \<open>The multiplexer of main.go\<close>

datatype main_target = MtHome | MtData | MtAdmin | MtMoved string | MtNoMethod | MtNoRoute

text \<open>
  By the segments of the path; a path that lacks the final slash of a subtree is redirected to it.
\<close>

definition main_route :: "string \<Rightarrow> string list \<Rightarrow> main_target" where
  "main_route meth segs =
     (case segs of
        [a] \<Rightarrow>
          (if a = [] then (if meth = ''GET'' \<or> meth = ''HEAD'' then MtHome else MtNoMethod)
           else if a = ''health'' then MtData
           else if a = ''v1'' then MtMoved ''/v1/''
           else if a = ''admin'' then MtMoved ''/admin/''
           else MtNoRoute)
      | a # _ \<Rightarrow> (if a = ''v1'' then MtData else if a = ''admin'' then MtAdmin else MtNoRoute)
      | [] \<Rightarrow> MtNoRoute)"

text \<open>\<open>http.Redirect\<close> adds a short page for a \<open>GET\<close>.\<close>

definition redirect :: "string \<Rightarrow> string \<Rightarrow> int \<Rightarrow> response" where
  "redirect meth url code =
     (plain_response code)\<lparr>rs_headers := (''Location'', url) #
          (if meth = ''GET'' \<or> meth = ''HEAD'' then [(''Content-Type'', ''text/html; charset=utf-8'')] else []),
        rs_body := (if meth = ''GET''
          then Text (''<a href=\"'' @ url @ ''\">'' @ (if code = 302 then ''Found'' else ''Moved Permanently'') @
                 ''</a>.'' @ [CHR 0x0A, CHR 0x0A]) else NoBody)\<rparr>"

text \<open>A request, as both servers read it: \<open>hq_admin\<close> holds the method and the peer.\<close>

record http_req =
  hq_segs :: "string list"
  hq_admin :: admin_req
  hq_cache :: cache_req

definition main_serve ::
  "('s, 'g, 'l) admin_deps \<Rightarrow> ui_fs option \<Rightarrow> http_req \<Rightarrow> ('s, 'g, 'l) admin \<Rightarrow>
     ((response \<times> log_line list) \<times> ('s, 'g, 'l) admin) option" where
  "main_serve d ui q a =
     (let meth = aq_meth (hq_admin q);
          logged = with_logging meth (path_of (hq_segs q)) (aq_remote (hq_admin q))
      in case main_route meth (hq_segs q) of
           MtHome \<Rightarrow> Some ((redirect meth ''/admin/'' 302, []), a)
         | MtData \<Rightarrow> Some (logged (data_serve d meth (hq_segs q) (hq_cache q) a))
         | MtAdmin \<Rightarrow> map_option logged (admin_serve d ui (hq_segs q) (hq_admin q) a)
         | MtMoved url \<Rightarrow> Some ((redirect meth url 301, []), a)
         | MtNoMethod \<Rightarrow> Some ((http_error ''Method Not Allowed'' 405, []), a)
         | MtNoRoute \<Rightarrow> Some ((http_error ''404 page not found'' 404, []), a))"

section \<open>The running server\<close>

definition run_task :: "('s, 'g, 'l) admin_deps \<Rightarrow> time \<Rightarrow> nat \<Rightarrow> ('s, 'g, 'l) admin \<Rightarrow> ('s, 'g, 'l) admin" where
  "run_task d now i a = a\<lparr>ad_app := put_srv (run_read_task (admin_cache_deps d) now i (app_srv (ad_app a))) (ad_app a)\<rparr>"

definition run_sweep :: "('s, 'g, 'l) admin_deps \<Rightarrow> time \<Rightarrow> ('s, 'g, 'l) admin \<Rightarrow> ('s, 'g, 'l) admin option" where
  "run_sweep d now a =
     (case sweep (world_backend (dp_apis d)) world_stats main_janitor now (ad_world a) of
        None \<Rightarrow> None
      | Some (_, w) \<Rightarrow> Some (a\<lparr>ad_app := (ad_app a)\<lparr>app_world := w\<rparr>\<rparr>))"

inductive server_step ::
  "('s, 'g, 'l) admin_deps \<Rightarrow> ui_fs option \<Rightarrow> ('s, 'g, 'l) admin \<Rightarrow> ('s, 'g, 'l) admin \<Rightarrow> bool"
  for d :: "('s, 'g, 'l) admin_deps" and ui :: "ui_fs option" where
  step_request: "main_serve d ui q a = Some (r, a') \<Longrightarrow> nonces_ok (aq_nonces (hq_admin q)) \<Longrightarrow> server_step d ui a a'"
| step_task: "server_step d ui a (run_task d now i a)"
| step_sweep: "run_sweep d now a = Some a' \<Longrightarrow> server_step d ui a a'"

inductive server_run ::
  "('s, 'g, 'l) admin_deps \<Rightarrow> ui_fs option \<Rightarrow> ('s, 'g, 'l) admin \<Rightarrow> ('s, 'g, 'l) admin \<Rightarrow> bool"
  for d :: "('s, 'g, 'l) admin_deps" and ui :: "ui_fs option" and a :: "('s, 'g, 'l) admin" where
  srun_refl: "server_run d ui a a"
| srun_step: "server_run d ui a a1 \<Longrightarrow> server_step d ui a1 a2 \<Longrightarrow> server_run d ui a a2"

section \<open>What all steps but a change of settings leave as it is\<close>

lemma pg_steps_trans: "pg_steps p p' \<Longrightarrow> pg_steps p' p'' \<Longrightarrow> pg_steps p p''"
  by (rotate_tac, induction rule: pg_steps.induct) (auto intro: steps_step)

text \<open>
  The stored configuration, but for the user it refers to; and calls of the store that keep it.
\<close>

definition same_config :: "pg \<Rightarrow> pg \<Rightarrow> bool" where
  "same_config p p' \<longleftrightarrow>
     pg_settings p' = (pg_settings p)\<lparr>as_updated_by := as_updated_by (pg_settings p')\<rparr>"

definition quiet_steps :: "pg \<Rightarrow> pg \<Rightarrow> bool" where
  "quiet_steps p p' \<longleftrightarrow> pg_steps p p' \<and> same_config p p'"

lemma same_config_refl [simp]: "same_config p p"
  by (simp add: same_config_def)

lemma same_config_keep [simp]: "pg_settings p' = pg_settings p \<Longrightarrow> same_config p p'"
  by (simp add: same_config_def)

lemma same_config_trans: "same_config p p' \<Longrightarrow> same_config p' p'' \<Longrightarrow> same_config p p''"
  unfolding same_config_def by (metis app_settings.update_convs(16) app_settings.surjective)

lemma quiet_steps_refl: "quiet_steps p p"
  by (simp add: quiet_steps_def steps_refl)

lemma quiet_steps_trans: "quiet_steps p p' \<Longrightarrow> quiet_steps p' p'' \<Longrightarrow> quiet_steps p p''"
  unfolding quiet_steps_def using pg_steps_trans same_config_trans by blast

lemma same_config_faults [simp]: "same_config (p\<lparr>pg_faults := x\<rparr>) p' = same_config p p'"
  by (simp add: same_config_def)

lemma call_config:
  assumes "\<And>p. same_config p (snd (q p))"
  shows "same_config p (snd (pg_call q p))"
proof -
  obtain x where x: "snd (pg_call q p) = p\<lparr>pg_faults := x\<rparr> \<or> (\<exists>a. q (p\<lparr>pg_faults := x\<rparr>) = (a, snd (pg_call q p)))"
    using pg_call_cases [of q p "fst (pg_call q p)" "snd (pg_call q p)"] by auto
  then show ?thesis
    using assms [of "p\<lparr>pg_faults := x\<rparr>"] by auto
qed

lemma q_config:
  "same_config p (snd (q_create_user now e h p))" "same_config p (snd (q_delete_user i p))"
  "same_config p (snd (q_update_password i h p))" "same_config p (snd (q_create_session h i t p))"
  "same_config p (snd (q_create_token now n sc h i p))" "same_config p (snd (q_revoke_token now i p))"
  "same_config p (snd (q_authenticate now h p))" "same_config p (snd (q_record_cache_read now h p))"
  by (auto simp: same_config_def q_create_user_def q_delete_user_def q_update_password_def q_create_session_def
      q_create_token_def q_revoke_token_def q_authenticate_def q_record_cache_read_def Let_def split: option.splits)

lemma quiet_op: "pg_step p (snd x) \<Longrightarrow> same_config p (snd x) \<Longrightarrow> x = (r, p') \<Longrightarrow> quiet_steps p p'"
  unfolding quiet_steps_def using steps_step [OF steps_refl] by fastforce

lemma op_config:
  "same_config p (snd (create_user now e h p))" "same_config p (snd (get_user_by_email e p))"
  "same_config p (snd (get_user_by_id i p))" "same_config p (snd (list_users p))"
  "same_config p (snd (delete_user i p))" "same_config p (snd (count_users p))"
  "same_config p (snd (update_password i h p))" "same_config p (snd (create_session h i t p))"
  "same_config p (snd (get_session now h p))" "same_config p (snd (delete_session h p))"
  "same_config p (snd (create_token now n sc h i p))" "same_config p (snd (list_tokens p))"
  "same_config p (snd (revoke_token now i p))" "same_config p (snd (authenticate now h p))"
  "same_config p (snd (record_cache_read now h p))" "same_config p (snd (delete_cache_read_stats h p))"
  "same_config p (snd (get_cache_read_stats_batch hs p))" "same_config p (snd (list_all_cache_read_stats p))"
  by (simp_all add: create_user_def get_user_by_email_def get_user_by_id_def list_users_def delete_user_def
      count_users_def update_password_def create_session_def get_session_def delete_session_def create_token_def
      list_tokens_def revoke_token_def authenticate_def record_cache_read_def delete_cache_read_stats_def
      get_cache_read_stats_batch_def list_all_cache_read_stats_def call_config q_config)

lemmas op_quiet = quiet_op [OF st_create_user op_config(1)] quiet_op [OF st_get_user_by_email op_config(2)]
  quiet_op [OF st_get_user_by_id op_config(3)] quiet_op [OF st_list_users op_config(4)]
  quiet_op [OF st_delete_user op_config(5)] quiet_op [OF st_count_users op_config(6)]
  quiet_op [OF st_update_password op_config(7)] quiet_op [OF st_create_session op_config(8)]
  quiet_op [OF st_get_session op_config(9)] quiet_op [OF st_delete_session op_config(10)]
  quiet_op [OF st_create_token op_config(11)] quiet_op [OF st_list_tokens op_config(12)]
  quiet_op [OF st_revoke_token op_config(13)] quiet_op [OF st_authenticate op_config(14)]
  quiet_op [OF st_record_read op_config(15)] quiet_op [OF st_delete_reads op_config(16)]
  quiet_op [OF st_read_batch op_config(17)] quiet_op [OF st_read_all op_config(18)]

text \<open>On the world and on the server: the active backend and what is live stay as well.\<close>

definition quietw :: "('s, 'g) world \<Rightarrow> ('s, 'g) world \<Rightarrow> bool" where
  "quietw w w' \<longleftrightarrow> dy_current (w_dyn w') = dy_current (w_dyn w) \<and> quiet_steps (w_pg w) (w_pg w')"

definition quiet :: "('s, 'g, 'l) admin \<Rightarrow> ('s, 'g, 'l) admin \<Rightarrow> bool" where
  "quiet a a' \<longleftrightarrow> live (ad_app a') = live (ad_app a) \<and> quiet_steps (ad_pg a) (ad_pg a')"

lemma quietw_refl: "quietw w w"
  by (simp add: quietw_def quiet_steps_refl)

lemma quietw_trans: "quietw w w' \<Longrightarrow> quietw w' w'' \<Longrightarrow> quietw w w''"
  unfolding quietw_def using quiet_steps_trans by fastforce

lemma quiet_refl: "quiet a a"
  by (simp add: quiet_def quiet_steps_refl)

lemma quiet_trans: "quiet a a' \<Longrightarrow> quiet a' a'' \<Longrightarrow> quiet a a''"
  unfolding quiet_def using quiet_steps_trans by fastforce

lemma quiet_put_pg: "quiet_steps (ad_pg a) p \<Longrightarrow> quiet a (put_pg p a)"
  by (simp add: quiet_def)

lemma quiet_limits: "quiet a a' \<Longrightarrow> quiet a (a'\<lparr>ad_limits := l\<rparr>)"
  by (simp add: quiet_def)

lemma quiet_world: "quietw (ad_world a) w \<Longrightarrow> quiet a (a\<lparr>ad_app := (ad_app a)\<lparr>app_world := w\<rparr>\<rparr>)"
  by (simp add: quiet_def quietw_def live_def app_backend_def)

lemma backend_quiet:
  "b_exists (world_backend apis) h w = (r1, w') \<Longrightarrow> quietw w w'"
  "b_put (world_backend apis) h rd sz w = (r2, w') \<Longrightarrow> quietw w w'"
  "b_get (world_backend apis) h w = (r3, w') \<Longrightarrow> quietw w w'"
  "b_delete (world_backend apis) h w = (r4, w') \<Longrightarrow> quietw w w'"
  "b_list (world_backend apis) c n w = (r5, w') \<Longrightarrow> quietw w w'"
  by (auto simp: world_backend_def lift_state_eq quietw_def quiet_steps_refl dyn_backend_simps on_media_eq)

lemma stats_quiet:
  "st_delete world_stats h w = (r1, w') \<Longrightarrow> quietw w w'"
  "st_list_all world_stats w = (r2, w') \<Longrightarrow> quietw w w'"
  by (auto simp: world_stats_def on_pg_eq quietw_def intro: op_quiet)

lemma clear_read_stats_quiet: "quietw w (clear_read_stats world_stats h w)"
  unfolding clear_read_stats_def by (rule stats_quiet(1)) (rule prod.collapse [symmetric])

text \<open>Sweeping and pruning, page by page.\<close>

lemma sweep_entries_quiet:
  "sweep_entries (world_backend apis) world_stats reads ac uc es n w = (m, w') \<Longrightarrow> quietw w w'"
proof (induction es arbitrary: n w)
  case Nil
  then show ?case by (simp add: quietw_refl)
next
  case (Cons e es)
  obtain res w1 where d: "b_delete (world_backend apis) (e_hash e) w = (res, w1)" by fastforce
  obtain r2 w2 where s: "st_delete world_stats (e_hash e) w1 = (r2, w2)" by fastforce
  have w1: "quietw w w1" by (rule backend_quiet(4) [OF d])
  have w2: "quietw w w2" by (rule quietw_trans [OF w1 stats_quiet(1) [OF s]])
  show ?case
    using Cons.prems d s Cons.IH [of n w] Cons.IH [of n w1] Cons.IH [of "n + 1" w2] w1 quietw_trans [OF w1] quietw_trans [OF w2]
    by (auto split: if_splits sum.splits)
qed

lemma sweep_pages_quiet:
  "sweep_pages (world_backend apis) world_stats reads ac uc c n w = Some res \<Longrightarrow> quietw w (snd res)"
proof -
  have "b = world_backend apis \<longrightarrow> s = world_stats \<longrightarrow> quietw w (snd res)"
    if "sweep_pages b s reads ac uc c n w = Some res"
    for b :: "('a, 'b) world backend_if" and s reads ac uc c n w and res :: "(nat \<times> bool) \<times> ('a, 'b) world"
  proof (rule sweep_pages.raw_induct [where P = "\<lambda>b s reads ac uc c n (w :: ('a, 'b) world) res. b = world_backend apis \<longrightarrow>
      s = world_stats \<longrightarrow> quietw w (snd res)", OF _ that], intro impI)
    fix f and b :: "('a, 'b) world backend_if" and s reads ac uc c n w and res :: "(nat \<times> bool) \<times> ('a, 'b) world"
    assume ih: "\<And>b s reads ac uc c n w res. f b s reads ac uc c n w = Some res \<Longrightarrow> b = world_backend apis \<longrightarrow>
        s = world_stats \<longrightarrow> quietw w (snd (res :: (nat \<times> bool) \<times> ('a, 'b) world))"
      and body: "(case b_list b c 200 w of (Inl _, w1) \<Rightarrow> Some ((n, True), w1)
        | (Inr page, w1) \<Rightarrow>
            (case sweep_entries b s reads ac uc (page_entries page) n w1 of
               (n', w2) \<Rightarrow>
                 (if next_cursor page = [] then Some ((n', False), w2)
                  else f b s reads ac uc (next_cursor page) n' w2))) = Some res"
      and eq: "b = world_backend apis" "s = world_stats"
    obtain rl w1 where l: "b_list b c 200 w = (rl, w1)" by fastforce
    have w1: "quietw w w1" using backend_quiet(5) l eq by blast
    show "quietw w (snd res)"
    proof (cases rl)
      case (Inl e)
      then show ?thesis using body l w1 by (auto simp: quietw_refl)
    next
      case (Inr page)
      obtain n2 w2 where e: "sweep_entries b s reads ac uc (page_entries page) n w1 = (n2, w2)" by fastforce
      have w2: "quietw w w2" using quietw_trans [OF w1] sweep_entries_quiet e eq by metis
      show ?thesis
      proof (cases "next_cursor page = []")
        case True
        then show ?thesis using body l Inr e w2 by auto
      next
        case False
        then have "f b s reads ac uc (next_cursor page) n2 w2 = Some res" using body l Inr e by simp
        then show ?thesis using ih eq quietw_trans [OF w2] by blast
      qed
    qed
  qed
  then show "sweep_pages (world_backend apis) world_stats reads ac uc c n w = Some res \<Longrightarrow>
    quietw w (snd res)" by blast
qed

lemma prune_entries_quiet:
  "prune_entries (world_backend apis) world_stats cutoff es n w = (m, w') \<Longrightarrow> quietw w w'"
proof (induction es arbitrary: n w)
  case Nil
  then show ?case by (simp add: quietw_refl)
next
  case (Cons e es)
  obtain res w1 where d: "b_delete (world_backend apis) (e_hash e) w = (res, w1)" by fastforce
  have w1: "quietw w w1" by (rule backend_quiet(4) [OF d])
  have w2: "quietw w (clear_read_stats world_stats (e_hash e) w1)"
    by (rule quietw_trans [OF w1 clear_read_stats_quiet])
  show ?case
    using Cons.prems d Cons.IH [of n w] Cons.IH [of "n + 1"] w1 quietw_trans [OF w1] quietw_trans [OF w2]
    by (auto simp: quietw_refl split: if_splits sum.splits)
qed

lemma bulk_delete_quiet:
  "bulk_delete (world_backend apis) world_stats hs n w = (m, w') \<Longrightarrow> quietw w w'"
proof (induction hs arbitrary: n w)
  case Nil
  then show ?case by (simp add: quietw_refl)
next
  case (Cons h hs)
  obtain res w1 where d: "b_delete (world_backend apis) h w = (res, w1)" by fastforce
  have w1: "quietw w w1" by (rule backend_quiet(4) [OF d])
  have w2: "quietw w (clear_read_stats world_stats h w1)"
    by (rule quietw_trans [OF w1 clear_read_stats_quiet])
  show ?case
    using Cons.prems d Cons.IH [of n w] Cons.IH [of n w1] Cons.IH [of "n + 1"] w1 quietw_trans [OF w1] quietw_trans [OF w2]
    by (auto split: if_splits sum.splits)
qed

lemma prune_pages_quiet:
  assumes "prune_pages (world_backend apis) world_stats cutoff c n w = Some res"
  shows "quietw w (snd res)"
proof -
  have "b = world_backend apis \<longrightarrow> s = world_stats \<longrightarrow> quietw w (snd res)"
    if "prune_pages b s cutoff c n w = Some res"
    for b :: "('a, 'b) world backend_if" and s cutoff c n w and res :: "(nat \<times> bool) \<times> ('a, 'b) world"
  proof (rule prune_pages.raw_induct [where P = "\<lambda>b s cutoff c n (w :: ('a, 'b) world) res. b = world_backend apis \<longrightarrow>
      s = world_stats \<longrightarrow> quietw w (snd res)", OF _ that], intro impI)
    fix f and b :: "('a, 'b) world backend_if" and s cutoff c n w and res :: "(nat \<times> bool) \<times> ('a, 'b) world"
    assume ih: "\<And>b s cutoff c n w res. f b s cutoff c n w = Some res \<Longrightarrow> b = world_backend apis \<longrightarrow>
        s = world_stats \<longrightarrow> quietw w (snd (res :: (nat \<times> bool) \<times> ('a, 'b) world))"
      and body: "(case b_list b c 200 w of (Inl _, w1) \<Rightarrow> Some ((n, True), w1)
        | (Inr page, w1) \<Rightarrow>
            (case prune_entries b s cutoff (page_entries page) n w1 of
               ((n', failed), w2) \<Rightarrow>
                 (if failed then Some ((n', True), w2)
                  else if next_cursor page = [] then Some ((n', False), w2)
                  else f b s cutoff (next_cursor page) n' w2))) = Some res"
      and eq: "b = world_backend apis" "s = world_stats"
    obtain rl w1 where l: "b_list b c 200 w = (rl, w1)" by fastforce
    have w1: "quietw w w1" using backend_quiet(5) l eq by blast
    show "quietw w (snd res)"
    proof (cases rl)
      case (Inl e)
      then show ?thesis using body l w1 by (auto simp: quietw_refl)
    next
      case (Inr page)
      obtain n2 failed w2 where e: "prune_entries b s cutoff (page_entries page) n w1 = ((n2, failed), w2)"
        by (metis prod.exhaust)
      have w2: "quietw w w2" using quietw_trans [OF w1] prune_entries_quiet e eq by metis
      show ?thesis
      proof (cases "failed \<or> next_cursor page = []")
        case True
        then have "snd res = w2" using body unfolding l Inr prod.case sum.case e by (auto split: if_splits)
        then show ?thesis using w2 by simp
      next
        case False
        then have "f b s cutoff (next_cursor page) n2 w2 = Some res" using body l Inr e by simp
        then show ?thesis using ih eq quietw_trans [OF w2] by blast
      qed
    qed
  qed
  then show ?thesis using assms by blast
qed

text \<open>The handlers.\<close>

lemma current_user_quiet: "current_user sha now raw p = (r, p') \<Longrightarrow> quiet_steps p p'"
  by (auto simp: current_user_def quiet_steps_refl split: if_splits prod.splits sum.splits
      intro: op_quiet quiet_steps_trans)

lemma logout_quiet: "logout sha raw p = (r, p') \<Longrightarrow> quiet_steps p p'"
  by (auto simp: logout_def quiet_steps_refl split: if_splits intro: op_quiet)

lemma login_quiet:
  assumes "login bc sha ttl now rnd email password p = (r, p')"
  shows "quiet_steps p p'"
proof -
  have "same_config p p'" using login_effect [OF assms]
    by (auto simp: adds_session_def same_tables_def)
  then show ?thesis using login_steps [OF assms] by (simp add: quiet_steps_def)
qed

lemma handle_logout_quiet: "handle_logout d u q a = (r, a') \<Longrightarrow> quiet a a'"
  by (auto simp: handle_logout_def quiet_refl split: option.splits
      intro: quiet_put_pg logout_quiet [OF prod.collapse [symmetric]])

lemma handlers_quiet:
  "handle_me u q a = (r, a') \<Longrightarrow> quiet a a'"
  "handle_get_settings u q a = (r, a') \<Longrightarrow> quiet a a'"
  "handle_list_users u q a = (r, a') \<Longrightarrow> quiet a a'"
  "handle_list_tokens u q a = (r, a') \<Longrightarrow> quiet a a'"
  by (auto simp: handler_defs quiet_refl split: prod.splits sum.splits intro: quiet_put_pg op_quiet)

lemma handle_create_user_quiet: "handle_create_user d u q a = (r, a') \<Longrightarrow> quiet a a'"
  by (auto simp: handle_create_user_def Let_def quiet_refl
      split: option.splits if_splits prod.splits sum.splits store_err.splits intro: quiet_put_pg op_quiet)

lemma handle_change_password_quiet: "handle_change_password d u q a = (r, a') \<Longrightarrow> quiet a a'"
  by (auto simp: handle_change_password_def quiet_refl
      split: option.splits if_splits prod.splits sum.splits intro: quiet_put_pg op_quiet)

lemma handle_create_token_quiet: "handle_create_token d u q a = (r, a') \<Longrightarrow> quiet a a'"
  by (auto simp: handle_create_token_def Let_def quiet_refl
      split: option.splits if_splits prod.splits sum.splits store_err.splits intro: quiet_put_pg op_quiet)

lemma handle_revoke_token_quiet: "handle_revoke_token i u q a = (r, a') \<Longrightarrow> quiet a a'"
  by (auto simp: handle_revoke_token_def quiet_refl
      split: option.splits prod.splits sum.splits store_err.splits intro: quiet_put_pg op_quiet)

lemma handle_delete_user_quiet:
  assumes "handle_delete_user i u q a = (r, a')"
  shows "quiet a a'"
proof -
  obtain c a1 where c: "delete_user_checks i u a = (c, a1)" by fastforce
  have 1: "quiet a a1" using c
    by (auto simp: delete_user_checks_def quiet_refl split: option.splits if_splits prod.splits sum.splits
        intro: quiet_put_pg op_quiet)
  have "quiet a1 a2" if "delete_user_commit j a1 = (r2, a2)" for j r2 a2
    using that by (auto simp: delete_user_commit_def split: prod.splits sum.splits store_err.splits
        intro: quiet_put_pg op_quiet)
  then show ?thesis using assms c 1 quiet_trans [OF 1]
    by (auto simp: handle_delete_user_def split: sum.splits)
qed

lemma handle_delete_entry_quiet:
  assumes "handle_delete_entry d h u q a = (r, a')"
  shows "quiet a a'"
proof -
  obtain w where w: "delete_entry (world_backend (dp_apis d)) world_stats h (ad_world a) = (r, w)"
    "a' = a\<lparr>ad_app := (ad_app a)\<lparr>app_world := w\<rparr>\<rparr>"
    using assms by (auto simp: handle_delete_entry_def ad_on_world_eq)
  obtain res w1 where b: "b_delete (world_backend (dp_apis d)) h (ad_world a) = (res, w1)" by fastforce
  note 1 = backend_quiet(4) [OF b]
  have "quietw (ad_world a) w"
    using w(1) b 1 quietw_trans [OF 1 clear_read_stats_quiet]
    by (auto simp: delete_entry_def quietw_refl split: if_splits sum.splits storage_err.splits)
  then show ?thesis unfolding w(2) by (rule quiet_world)
qed

lemma handle_bulk_delete_quiet:
  assumes "handle_bulk_delete d u q a = (r, a')"
  shows "quiet a a'"
  using assms
  by (auto simp: handle_bulk_delete_def quiet_refl ad_on_world_eq
      split: option.splits if_splits prod.splits intro: quiet_world bulk_delete_quiet)

lemma handle_list_cache_quiet:
  assumes "handle_list_cache d u q a = (r, a')"
  shows "quiet a a'"
proof -
  obtain res a1 where l: "ad_on_world (b_list (world_backend (dp_apis d)) (query_get (aq_query q) ''cursor'')
      (list_limit (query_get (aq_query q) ''limit''))) a = (res, a1)" by fastforce
  then have 1: "quiet a a1" by (auto simp: ad_on_world_eq intro: quiet_world backend_quiet(5))
  show ?thesis
    using assms l 1 quiet_trans [OF 1 quiet_put_pg]
    by (auto simp: handle_list_cache_def split: sum.splits prod.splits intro: op_quiet)
qed

lemma handle_prune_quiet:
  assumes "handle_prune d u q a = Some (r, a')"
  shows "quiet a a'"
  using assms
  by (auto simp: handle_prune_def prune_older_than_def quiet_refl
      split: option.splits if_splits prod.splits intro!: quiet_world dest!: prune_pages_quiet)

lemmas all_handlers_quiet = handle_logout_quiet handlers_quiet handle_create_user_quiet handle_change_password_quiet
  handle_create_token_quiet handle_revoke_token_quiet handle_delete_user_quiet
  handle_delete_entry_quiet handle_bulk_delete_quiet handle_list_cache_quiet handle_prune_quiet

lemma admin_handler_quiet:
  assumes "admin_handler d t = Some h" "h u q a = Some (r, a')" "t \<noteq> AtPutSettings"
  shows "quiet a a'"
  using assms by (cases t) (auto simp: admin_handler_def total_handler_def dest: all_handlers_quiet)

text \<open>A request to the admin server is quiet, or a quiet part and then a change of settings.\<close>

definition changes_settings :: "('s, 'g, 'l) admin_deps \<Rightarrow> admin_req \<Rightarrow> ('s, 'g, 'l) admin \<Rightarrow> ('s, 'g, 'l) admin \<Rightarrow> bool" where
  "changes_settings d q a a' \<longleftrightarrow> (\<exists>u r. handle_update_settings d u q a = (r, a'))"

lemma handle_login_quiet:
  assumes "handle_login d q a = (r, a')"
  shows "quiet a a'"
proof -
  obtain ok l where la: "limiter_allow (dp_rate d) (client_ip (aq_remote q)) (aq_now q) (ad_limits a) = (ok, l)" by fastforce
  have "\<exists>p. a' = (put_pg p a)\<lparr>ad_limits := l\<rparr> \<and> quiet_steps (ad_pg a) p"
  proof (cases "\<exists>req. ok \<and> decode_login (aq_body q) = Some req")
    case False
    then have "a' = (put_pg (ad_pg a) a)\<lparr>ad_limits := l\<rparr>" using assms la
      by (auto simp: handle_login_def Let_def split: if_splits option.splits)
    then show ?thesis using quiet_steps_refl by blast
  next
    case True
    then obtain req where req: "ok" "decode_login (aq_body q) = Some req" by blast
    obtain rl p where p: "login (dp_bcrypt d) (dp_sha d) (app_ttl (ad_app a)) (aq_now q) (aq_rnd q)
        (lr_email req) (lr_password req) (ad_pg a) = (rl, p)" by fastforce
    have "a' = (put_pg p a)\<lparr>ad_limits := l\<rparr>" using assms la req p
      by (auto simp: handle_login_def Let_def put_pg_def split: prod.splits sum.splits login_err.splits)
    then show ?thesis using login_quiet [OF p] by blast
  qed
  then show ?thesis using quiet_limits quiet_put_pg by blast
qed

lemma protected_quiet:
  assumes "admin_handler d t = Some h" "protected d h q a = Some (r, a')"
  shows "quiet a a' \<or> (\<exists>a1. quiet a a1 \<and> changes_settings d q a1 a')"
proof -
  obtain res p1 where c: "current_user (dp_sha d) (aq_db_now q) (case aq_cookie q of None \<Rightarrow> [] | Some c \<Rightarrow> c) (ad_pg a) =
      (res, p1)" by fastforce
  have 1: "quiet a (put_pg p1 a)" by (rule quiet_put_pg [OF current_user_quiet [OF c]])
  show ?thesis
  proof (cases "a' = a \<or> a' = put_pg p1 a")
    case True
    then show ?thesis using 1 quiet_refl by blast
  next
    case False
    then obtain u where u: "h u q (put_pg p1 a) = Some (r, a')"
      using assms(2) c by (auto simp: protected_def split: if_splits sum.splits)
    show ?thesis
    proof (cases "t = AtPutSettings")
      case True
      then have "handle_update_settings d u q (put_pg p1 a) = (r, a')"
        using u assms(1) by (auto simp: admin_handler_def total_handler_def)
      then show ?thesis using 1 unfolding changes_settings_def by blast
    next
      case False
      then show ?thesis using quiet_trans [OF 1] admin_handler_quiet [OF assms(1) u] by blast
    qed
  qed
qed

lemma admin_serve_quiet:
  assumes "admin_serve d ui segs q a = Some (r, a')"
  shows "quiet a a' \<or> (\<exists>a1. quiet a a1 \<and> changes_settings d q a1 a')"
proof (cases "admin_handler d (admin_route (ui \<noteq> None) (aq_meth q) segs)")
  case (Some h)
  then obtain r0 where "protected d h q a = Some (r0, a')"
    using assms by (auto simp: admin_serve_def Let_def map_prod_id_eq)
  then show ?thesis by (rule protected_quiet [OF Some])
next
  case None
  then consider r0 where "handle_login d q a = (r0, a')" | "a' = a"
    using assms by (auto simp: admin_serve_def Let_def map_prod_id_eq split: admin_target.splits)
  then show ?thesis using handle_login_quiet quiet_refl by cases blast+
qed

text \<open>The data plane, tasks and sweeps are quiet.\<close>

lemma quietw_pg: "quiet_steps (w_pg w) p \<Longrightarrow> quietw w (w\<lparr>w_pg := p\<rparr>)"
  by (simp add: quietw_def)

lemma authorize_quiet: "authorize world_authn sha now token scope w = (r, w') \<Longrightarrow> quietw w w'"
  by (auto simp: authorize_def world_authn_def quietw_refl on_pg_eq split: if_splits prod.splits sum.splits store_err.splits
      intro: quietw_pg op_quiet)

lemma guard_quiet: "guard_request (world_deps apis sha) scope q w = (r, w') \<Longrightarrow> quietw w w'"
  by (auto simp: guard_request_def world_deps_def quietw_refl split: if_splits prod.splits sum.splits dest: authorize_quiet)

lemma handle_get_quiet:
  assumes "handle_get (world_deps apis sha) q s = (r, s')"
  shows "quietw (cs_world s) (cs_world s') \<and> cs_max s' = cs_max s"
proof -
  obtain g w1 where g: "guard_request (world_deps apis sha) ScopeRead q (cs_world s) = (g, w1)" by fastforce
  note 1 = guard_quiet [OF g]
  show ?thesis
  proof (cases g)
    case (Some r0)
    then show ?thesis using assms g 1 by (auto simp: handle_get_def)
  next
    case None
    obtain res w2 where b: "b_get (world_backend apis) (cq_hash q) w1 = (res, w2)" by fastforce
    then have "cs_world s' = w2 \<and> cs_max s' = cs_max s" using assms g None
      by (auto simp: handle_get_def world_deps_def split: sum.splits storage_err.splits)
    then show ?thesis using quietw_trans [OF 1 backend_quiet(3) [OF b]] by simp
  qed
qed

lemma handle_put_quiet:
  assumes "handle_put (world_deps apis sha) q s = (r, s')"
  shows "quietw (cs_world s) (cs_world s') \<and> cs_max s' = cs_max s"
proof -
  obtain g w1 where g: "guard_request (world_deps apis sha) ScopeWrite q (cs_world s) = (g, w1)" by fastforce
  note 1 = guard_quiet [OF g]
  obtain res w2 where b: "b_put (world_backend apis) (cq_hash q) (cq_body q) (cq_len q) w1 = (res, w2)" by fastforce
  have "(cs_world s' = w1 \<or> cs_world s' = w2) \<and> cs_max s' = cs_max s" using assms g b
    by (auto simp: handle_put_def world_deps_def split: option.splits if_splits sum.splits storage_err.splits)
  then show ?thesis using 1 quietw_trans [OF 1 backend_quiet(2) [OF b]] by auto
qed

lemma quiet_srv: "quietw (ad_world a) (cs_world s) \<Longrightarrow> cs_max s = app_max (ad_app a) \<Longrightarrow>
    quiet a (a\<lparr>ad_app := put_srv s (ad_app a)\<rparr>)"
  by (simp add: quiet_def quietw_def live_def app_backend_def put_srv_def)

lemma data_serve_quiet:
  assumes "data_serve d meth segs q a = (r, a')"
  shows "quiet a a'"
proof -
  obtain s where s: "cache_serve (world_deps (dp_apis d) (dp_sha d)) meth segs q (app_srv (ad_app a)) = (r, s)"
    "a' = a\<lparr>ad_app := put_srv s (ad_app a)\<rparr>"
    using assms by (auto simp: data_serve_def admin_cache_deps_def ad_on_app_eq lift_state_eq)
  have "quietw (cs_world (app_srv (ad_app a))) (cs_world s) \<and> cs_max s = cs_max (app_srv (ad_app a))"
    using s(1) by (auto simp: cache_serve_def map_prod_id_eq quietw_refl split: cache_target.splits
        dest: handle_get_quiet handle_put_quiet)
  then show ?thesis unfolding s(2) by (intro quiet_srv) (simp_all add: app_srv_def)
qed

lemma run_task_quiet: "quiet a (run_task d now i a)"
  unfolding run_task_def
  by (intro quiet_srv) (auto simp: run_read_task_def admin_cache_deps_def world_deps_def world_reads_def app_srv_def
      quietw_refl on_pg_def lift_state_def split: prod.splits intro: quietw_pg op_quiet)

lemma run_sweep_quiet:
  assumes "run_sweep d now a = Some a'"
  shows "quiet a a'"
proof -
  obtain res w' where s: "sweep (world_backend (dp_apis d)) world_stats main_janitor now (ad_world a) = Some (res, w')"
    "a' = a\<lparr>ad_app := (ad_app a)\<lparr>app_world := w'\<rparr>\<rparr>"
    using assms by (auto simp: run_sweep_def split: option.splits)
  obtain rl w0 where l: "st_list_all world_stats (ad_world a) = (rl, w0)" by fastforce
  note 1 = stats_quiet(2) [OF l]
  have "quietw (ad_world a) w'"
    using s(1) l 1 quietw_trans [OF 1] by (auto simp: sweep_def split: sum.splits dest!: sweep_pages_quiet)
  then show ?thesis unfolding s(2) by (rule quiet_world)
qed

text \<open>So every step is quiet up to at most one change of settings, with nonces of the right size.\<close>

lemma server_step_cases:
  assumes "server_step d ui a a'"
  obtains (quiet) "quiet a a'"
  | (settings) a1 q where "nonces_ok (aq_nonces q)" "quiet a a1" "changes_settings d q a1 a'"
  using assms
proof (cases rule: server_step.cases)
  case (step_request q r)
  then show ?thesis using quiet settings
    by (auto simp: main_serve_def Let_def with_logging_def quiet_refl split: main_target.splits prod.splits
        dest!: data_serve_quiet admin_serve_quiet)
next
  case (step_task now i)
  then show ?thesis using quiet run_task_quiet by blast
next
  case (step_sweep now)
  then show ?thesis using quiet run_sweep_quiet by blast
qed

lemma apply_steps: "apply_settings apis ci e rnds now db_now i a = (r, a') \<Longrightarrow> pg_steps (app_pg a) (app_pg a')"
proof (erule apply_cases)
  fix raw er
  assume "update_settings db_now raw (in_updated_by i) (app_pg a) = (Inl er, app_pg a')"
  then show ?thesis using steps_step [OF steps_refl st_update_settings] by (metis snd_conv)
next
  fix raw
  assume "update_settings db_now raw (in_updated_by i) (app_pg a) = (Inr (), app_pg a')"
  then show ?thesis using steps_step [OF steps_refl st_update_settings] by (metis snd_conv)
qed (simp add: steps_refl)

lemma changes_settings_apply:
  assumes "changes_settings d q a a'"
  obtains (bad) "a' = a"
  | (applied) i res x where "apply_settings (dp_apis d) (dp_cipher d) (dp_enc d) (aq_nonces q) (aq_now q)
      (aq_db_now q) i (ad_app a) = (res, x)" "a' = a\<lparr>ad_app := x\<rparr>"
proof -
  obtain u r where h: "handle_update_settings d u q a = (r, a')" using assms by (auto simp: changes_settings_def)
  show ?thesis
  proof (cases "decode_settings (aq_body q)")
    case None
    then show ?thesis using h bad by (auto simp: handle_update_settings_def)
  next
    case (Some req)
    obtain res x where ap: "apply_settings (dp_apis d) (dp_cipher d) (dp_enc d) (aq_nonces q) (aq_now q)
        (aq_db_now q) (settings_input (usr_id u) req) (ad_app a) = (res, x)" by fastforce
    then have "a' = a\<lparr>ad_app := x\<rparr>" using h Some
      by (auto simp: handle_update_settings_def ad_on_app_def lift_state_def split: sum.splits apply_err.splits)
    then show ?thesis using ap applied by blast
  qed
qed

lemma server_step_pg:
  assumes "server_step d ui a a'"
  shows "pg_steps (ad_pg a) (ad_pg a')"
  using assms
proof (cases rule: server_step_cases)
  case quiet
  then show ?thesis by (simp add: quiet_def quiet_steps_def)
next
  case (settings a1 q)
  have 1: "pg_steps (ad_pg a) (ad_pg a1)" using settings(2) by (simp add: quiet_def quiet_steps_def)
  from settings(3) have "pg_steps (ad_pg a1) (ad_pg a')"
    by (cases rule: changes_settings_apply) (auto simp: steps_refl dest: apply_steps)
  then show ?thesis using pg_steps_trans [OF 1] by blast
qed

lemma server_run_pg: "server_run d ui a a' \<Longrightarrow> pg_steps (ad_pg a) (ad_pg a')"
  by (induction rule: server_run.induct) (auto intro: steps_refl pg_steps_trans server_step_pg)

end
