(* ===== verification/ServerProps.thy ===== *)
theory ServerProps
  imports Server
begin

text \<open>
  Properties of whole histories of the running server: what every reachable state satisfies, that
  a revoked token is refused for good, and which parts of the settings can be seen or lost.
\<close>

section \<open>Every reachable state\<close>

text \<open>What is live is what the settings say, and the flags of the settings are true.\<close>

definition live_ok :: "('s, 'g, 'l) admin_deps \<Rightarrow> ('s, 'g) app \<Rightarrow> bool" where
  "live_ok d a \<longleftrightarrow> flags_ok (app_settings a) \<and> app_ttl a = se_ttl (app_settings a) \<and>
     app_max a = se_max (app_settings a) \<and>
     (\<exists>m. fst (build_backend (dp_apis d) (app_settings a) m) = Inr (app_backend a))"

text \<open>The stored settings decrypt, and none of their secrets is empty.\<close>

definition restartable :: "('s, 'g, 'l) admin_deps \<Rightarrow> pg \<Rightarrow> bool" where
  "restartable d p \<longleftrightarrow> (\<exists>s. decrypt_settings (dp_cipher d) (dp_enc d) (pg_settings p) = Some s \<and> flags_ok s)"

definition server_inv :: "('s, 'g, 'l) admin_deps \<Rightarrow> ('s, 'g, 'l) admin \<Rightarrow> bool" where
  "server_inv d a \<longleftrightarrow> pg_wf (ad_pg a) \<and> live_ok d (ad_app a) \<and> restartable d (ad_pg a)"

lemma live_ok_cong: "live a' = live a \<Longrightarrow> live_ok d a' = live_ok d a"
  by (simp add: live_def live_ok_def)

lemma decrypt_author:
  "decrypt_settings ci e (raw\<lparr>as_updated_by := u\<rparr>) = map_option (\<lambda>s. s\<lparr>se_updated_by := u\<rparr>) (decrypt_settings ci e raw)"
  by (simp add: decrypt_settings_def split: option.splits prod.splits)

lemma flags_ok_stamp [simp]: "flags_ok (s\<lparr>se_updated_by := u\<rparr>) = flags_ok s" "flags_ok (s\<lparr>se_updated_at := t\<rparr>) = flags_ok s"
  by (simp_all add: flags_ok_def)

lemma restartable_config:
  assumes "same_config p p'" "restartable d p"
  shows "restartable d p'"
proof -
  have "pg_settings p' = (pg_settings p)\<lparr>as_updated_by := as_updated_by (pg_settings p')\<rparr>"
    using assms(1) unfolding same_config_def .
  then have "decrypt_settings (dp_cipher d) (dp_enc d) (pg_settings p') =
      map_option (\<lambda>s. s\<lparr>se_updated_by := as_updated_by (pg_settings p')\<rparr>)
        (decrypt_settings (dp_cipher d) (dp_enc d) (pg_settings p))"
    by (metis decrypt_author)
  then show ?thesis using assms(2) by (auto simp: restartable_def)
qed

lemma inv_quiet: "quiet a a' \<Longrightarrow> server_inv d a \<Longrightarrow> server_inv d a'"
  unfolding server_inv_def quiet_def quiet_steps_def
  using live_ok_cong restartable_config pg_steps_wf by blast

lemma update_settings_config:
  assumes "update_settings now raw u p = (r, p')"
  shows "same_config p p' \<or> pg_settings p' = raw\<lparr>as_updated_at := now, as_updated_by := Some u\<rparr>"
proof -
  obtain r0 where "pg_call (q_update_settings now raw u) p = (r0, p')"
    using assms by (auto simp: update_settings_def map_prod_id_eq)
  from pg_call_cases [OF this] show ?thesis
    by (auto simp: q_update_settings_def same_config_def split: if_splits)
qed

lemma flags_stored_form: "flags_ok (stored_form s)"
  by (simp add: flags_ok_def stored_form_def)

lemma update_restartable:
  assumes "cipher_ok (dp_cipher d)" "nonces_ok rnds"
    and "encrypt_for_storage (dp_cipher d) (dp_enc d) rnds s = Some raw"
    and "update_settings now raw u p = (r, p')" "restartable d p"
  shows "restartable d p'"
  using update_settings_config [OF assms(4)]
proof
  assume "pg_settings p' = raw\<lparr>as_updated_at := now, as_updated_by := Some u\<rparr>"
  then show ?thesis
    using decrypt_encrypted [OF assms(1-3)] flags_stored_form
    by (simp add: restartable_def decrypt_stamped)
qed (use restartable_config assms(5) in blast)

lemma inv_apply:
  assumes "cipher_ok (dp_cipher d)" "nonces_ok rnds" "live_ok d a" "restartable d (app_pg a)"
    and "apply_settings (dp_apis d) (dp_cipher d) (dp_enc d) rnds now db_now i a = (r, a')"
  shows "live_ok d a' \<and> restartable d (app_pg a')"
  using assms(5)
proof (cases rule: apply_cases)
  case (refused er)
  then show ?thesis using assms(3,4) live_ok_cong [OF refused(3), of d] by simp
next
  case (not_stored er raw)
  then show ?thesis
    using update_restartable [OF assms(1,2) not_stored(4,3) assms(4)] assms(3) live_ok_cong [OF not_stored(2), of d] by blast
next
  case (accepted b raw s)
  have "restartable d (app_pg a')" by (rule update_restartable [OF assms(1,2) accepted(4,5) assms(4)])
  moreover have "flags_ok s" unfolding accepted(1) using assms(3) flags_ok_next by (simp add: live_ok_def)
  ultimately show ?thesis using accepted(3,7) by (auto simp: live_ok_def live_def)
qed

lemma inv_step:
  assumes "cipher_ok (dp_cipher d)" "server_step d ui a a'" "server_inv d a"
  shows "server_inv d a'"
  using assms(2)
proof (cases rule: server_step_cases)
  case quiet
  then show ?thesis using inv_quiet assms(3) by blast
next
  case (settings a1 q)
  have i1: "server_inv d a1" using inv_quiet settings(2) assms(3) by blast
  have "pg_wf (ad_pg a')" using server_step_pg [OF assms(2)] assms(3) pg_steps_wf by (auto simp: server_inv_def)
  moreover from settings(3) have "live_ok d (ad_app a') \<and> restartable d (ad_pg a')"
  proof (cases rule: changes_settings_apply)
    case bad
    then show ?thesis using i1 by (simp add: server_inv_def)
  next
    case (applied i res x)
    have "live_ok d (ad_app a1)" "restartable d (app_pg (ad_app a1))" using i1 by (simp_all add: server_inv_def)
    from inv_apply [OF assms(1) settings(1) this applied(1)] show ?thesis by (simp add: applied(2))
  qed
  ultimately show ?thesis by (simp add: server_inv_def)
qed

lemma load_pg:
  assumes "load_settings apis ci e a = (r, a')"
  shows "same_tables (app_pg a) (app_pg a')"
proof -
  obtain rg a1 where g: "app_on_pg get_settings a = (rg, a1)" by fastforce
  then have 1: "same_tables (app_pg a) (app_pg a1)"
    by (auto simp: app_on_pg_eq get_settings_def map_prod_id_eq dest: read_call_same)
  have "app_pg a' = app_pg a1"
  proof (cases "\<exists>raw s. rg = Inr raw \<and> decrypt_settings ci e raw = Some s")
    case False
    then show ?thesis using assms g by (cases rg) (auto simp: load_settings_def split: option.splits)
  next
    case True
    then obtain raw s where rs: "rg = Inr raw" "decrypt_settings ci e raw = Some s" by blast
    obtain rb a2 where b: "app_on_media (build_backend apis s) a1 = (rb, a2)" by fastforce
    have "app_pg a2 = app_pg a1" using app_on_media_live [OF b] by simp
    then show ?thesis using assms g rs b by (cases rb) (auto simp: load_settings_def go_live_live)
  qed
  then show ?thesis using 1 by simp
qed

section \<open>Revoked tokens\<close>

lemma authorize_revoked:
  assumes "pg_wf (w_pg w)" "revoked (hash_token sha token) (w_pg w)"
    and "authorize world_authn sha now token scope w = (res, w')"
  shows "w_dyn w' = w_dyn w \<and> (res = Inr (False, False) \<or> (\<exists>e. res = Inl e))"
proof (cases "token = []")
  case True
  then show ?thesis using assms(3) by (simp add: authorize_def)
next
  case False
  obtain ra p where au: "authenticate now (hash_token sha token) (w_pg w) = (ra, p)" by fastforce
  then have w: "a_authenticate world_authn now (hash_token sha token) w = (ra, w\<lparr>w_pg := p\<rparr>)"
    by (simp add: world_authn_def on_pg_eq)
  have "ra \<in> {Inl StNotFound, Inl StDb}" using revoked_no_auth [OF assms(1,2)] au by (metis fst_conv)
  then show ?thesis using assms(3) False w by (auto simp: authorize_def)
qed

lemma guard_revoked:
  assumes "pg_wf (w_pg w)" "revoked (hash_token sha (extract_bearer (cq_auth q))) (w_pg w)"
    and "guard_request (world_deps apis sha) scope q w = (g, w')"
  shows "w_dyn w' = w_dyn w \<and> (\<exists>r. g = Some r \<and> rs_status r \<in> {400, 401, 500})"
proof -
  obtain res w1 where au: "authorize world_authn sha (cq_now q) (extract_bearer (cq_auth q)) scope w = (res, w1)"
    by fastforce
  from authorize_revoked [OF assms(1,2) au] assms(3) au show ?thesis
    by (auto simp: guard_request_def world_deps_def http_error_def split: if_splits)
qed

lemma revoke_handler_revokes:
  assumes "t \<in> set (pg_tokens (ad_pg a))" "parse_int i = Some (tok_id (row_token t))"
    and "handle_revoke_token i u q a = (r, a')" "rs_status r = 204"
  shows "revoked (row_hash t) (ad_pg a')"
proof -
  obtain res p where rv: "revoke_token (aq_db_now q) (tok_id (row_token t)) (ad_pg a) = (res, p)" by fastforce
  have "res = Inr () \<and> a' = put_pg p a"
    using assms(2-4) rv
    by (auto simp: handle_revoke_token_def ad_on_pg_call write_error_def internal_error_def write_json_def
        split: sum.splits store_err.splits)
  then show ?thesis using revoke_token_revoked assms(1) rv by simp
qed

text \<open>
  C8. After the admin API answered 204 to the revocation of a token, no history of
  requests, tasks, sweeps and lost connections makes the token work again: every download and
  upload that carries it is answered 400, 401 or 500 and leaves every backend as it is.
\<close>

theorem revoked_token_refused:
  assumes "pg_reach (ad_pg a0)" "t \<in> set (pg_tokens (ad_pg a0))" "parse_int i = Some (tok_id (row_token t))"
    and "handle_revoke_token i u q a0 = (r0, a1)" "rs_status r0 = 204"
    and "server_run d ui a1 a2" "hash_token (dp_sha d) (extract_bearer (cq_auth cq)) = row_hash t"
    and "h \<noteq> []" "meth \<in> {''GET'', ''HEAD'', ''PUT''}"
    and "data_serve d meth [''v1'', ''cache'', h] cq a2 = (r, a3)"
  shows "rs_status r \<in> {400, 401, 500} \<and> w_dyn (ad_world a3) = w_dyn (ad_world a2)"
proof -
  have wf0: "pg_wf (ad_pg a0)" by (rule pg_reach_wf [OF assms(1)])
  have "quiet a0 a1" by (rule handle_revoke_token_quiet [OF assms(4)])
  then have s1: "pg_steps (ad_pg a0) (ad_pg a1)" by (simp add: quiet_def quiet_steps_def)
  have wf1: "pg_wf (ad_pg a1)" by (rule pg_steps_wf [OF s1 wf0])
  note s2 = server_run_pg [OF assms(6)]
  have wf2: "pg_wf (ad_pg a2)" by (rule pg_steps_wf [OF s2 wf1])
  have rv: "revoked (row_hash t) (ad_pg a2)"
    by (rule revoked_steps [OF s2 revoke_handler_revokes [OF assms(2-5)] wf1])
  let ?q = "cq\<lparr>cq_hash := h\<rparr>" and ?s = "app_srv (ad_app a2)"
  have ws: "cs_world ?s = ad_world a2" by (simp add: app_srv_def)
  have g: "w_dyn w' = w_dyn (ad_world a2) \<and> (\<exists>r. g = Some r \<and> rs_status r \<in> {400, 401, 500})"
    if "guard_request (world_deps (dp_apis d) (dp_sha d)) sc ?q (ad_world a2) = (g, w')" for sc g w'
    using guard_revoked [OF _ _ that] wf2 rv assms(7) by simp
  obtain s where s: "cache_serve (admin_cache_deps d) meth [''v1'', ''cache'', h] cq ?s = (r, s)"
    "a3 = a2\<lparr>ad_app := put_srv s (ad_app a2)\<rparr>"
    using assms(10) by (auto simp: data_serve_def ad_on_app_eq lift_state_eq)
  have world: "ad_world a3 = cs_world s" by (simp add: s(2) put_srv_def)
  show ?thesis
  proof (cases "meth = ''PUT''")
    case True
    obtain gr w' where gg: "guard_request (world_deps (dp_apis d) (dp_sha d)) ScopeWrite ?q (ad_world a2) = (gr, w')" by fastforce
    then show ?thesis using g [OF gg] s(1) True assms(8) ws
      by (auto simp: world cache_serve_def cache_route_def handle_put_def admin_cache_deps_def)
  next
    case False
    obtain gr w' where gg: "guard_request (world_deps (dp_apis d) (dp_sha d)) ScopeRead ?q (ad_world a2) = (gr, w')" by fastforce
    obtain r1 where r1: "gr = Some r1" "rs_status r1 \<in> {400, 401, 500}" using g [OF gg] by blast
    have "handle_get (admin_cache_deps d) ?q ?s = (r1, ?s\<lparr>cs_world := w'\<rparr>)"
      using gg r1(1) ws by (simp add: handle_get_def admin_cache_deps_def)
    moreover have "cache_route meth [''v1'', ''cache'', h] = RGet h" using False assms(8,9) by (auto simp: cache_route_def)
    ultimately have "r = head_only meth r1" "s = ?s\<lparr>cs_world := w'\<rparr>" using s(1) by (simp_all add: cache_serve_def)
    then show ?thesis using g [OF gg] r1(2) by (auto simp: world head_only_def)
  qed
qed

section \<open>The lifetime of sessions, in seconds\<close>

lemma encrypt_ttl: "encrypt_for_storage ci e rnds s = Some raw \<Longrightarrow> as_ttl_seconds raw = go_quot (se_ttl s) nano_second"
  by (auto simp: encrypt_for_storage_def split: prod.splits option.splits)

lemma accepted_settings:
  assumes "handle_update_settings d u q a = (r, a')" "rs_status r = 200"
  obtains req out x where "decode_settings (aq_body q) = Some req" "a' = a\<lparr>ad_app := x\<rparr>"
    "apply_settings (dp_apis d) (dp_cipher d) (dp_enc d) (aq_nonces q) (aq_now q) (aq_db_now q)
       (settings_input (usr_id u) req) (ad_app a) = (Inr out, x)"
proof -
  obtain req where req: "decode_settings (aq_body q) = Some req"
    using assms by (cases "decode_settings (aq_body q)") (auto simp: handle_update_settings_def bad_body_def write_error_def write_json_def)
  obtain res x where ap: "apply_settings (dp_apis d) (dp_cipher d) (dp_enc d) (aq_nonces q) (aq_now q)
      (aq_db_now q) (settings_input (usr_id u) req) (ad_app a) = (res, x)" by fastforce
  from assms req ap obtain out where "res = Inr out" "a' = a\<lparr>ad_app := x\<rparr>"
    by (auto simp: handle_update_settings_def ad_on_app_def lift_state_def write_error_def write_json_def internal_error_def
        split: sum.splits apply_err.splits)
  then show ?thesis using req ap that by blast
qed

text \<open>
  C35. A change of settings that is answered 200 sets the session lifetime, now and after a
  restart, to the seconds asked for, when these are fewer than $2^{31}$; they are always at least
  one. But the product with a second wraps: 18446744074 seconds are accepted too, mean less than a
  third of a second for the running server, and nothing at all for the restarted one.
\<close>

theorem session_ttl_seconds:
  assumes "cipher_ok (dp_cipher d)" "nonces_ok (aq_nonces q)" "decode_settings (aq_body q) = Some req"
    and "handle_update_settings d u q a = (r, a')" "rs_status r = 200"
    and "pg_settings (app_pg b) = pg_settings (ad_pg a')"
    and "load_settings (dp_apis d) (dp_cipher d) (dp_enc d) b = (Inr (), b')"
  shows "(\<bar>sr_ttl_seconds req\<bar> \<le> 9223372036 \<longrightarrow>
      0 < sr_ttl_seconds req \<and> sr_ttl_seconds req < 2 ^ 31 \<and>
      app_ttl (ad_app a') = sr_ttl_seconds req * nano_second \<and> app_ttl b' = sr_ttl_seconds req * nano_second) \<and>
    (sr_ttl_seconds req = 18446744074 \<longrightarrow> app_ttl (ad_app a') = 290448384 \<and> app_ttl b' = 0)"
proof -
  let ?n = "sr_ttl_seconds req" and ?i = "settings_input (usr_id u) req"
  obtain out x where x: "a' = a\<lparr>ad_app := x\<rparr>"
    "apply_settings (dp_apis d) (dp_cipher d) (dp_enc d) (aq_nonces q) (aq_now q) (aq_db_now q) ?i (ad_app a) = (Inr out, x)"
    using accepted_settings [OF assms(4,5)] assms(3) by (metis option.inject)
  from x(2) obtain bk raw s where ac: "s = next_settings ?i (app_settings (ad_app a))" "validate s = None"
    "encrypt_for_storage (dp_cipher d) (dp_enc d) (aq_nonces q) s = Some raw"
    "update_settings (aq_db_now q) raw (in_updated_by ?i) (app_pg (ad_app a)) = (Inr (), app_pg x)"
    "live x = (bk, se_ttl s, se_max s, s\<lparr>se_updated_at := aq_now q\<rparr>)"
    by (cases rule: apply_cases) auto
  have ttl: "se_ttl s = dur_mul ?n nano_second"
    by (simp add: ac(1) next_settings_def settings_input_def Let_def split: prod.splits)
  have live: "app_ttl (ad_app a') = dur_mul ?n nano_second" using ac(5) ttl x(1) by (simp add: live_def)
  have st: "pg_settings (app_pg b) = raw\<lparr>as_updated_at := aq_db_now q, as_updated_by := Some (in_updated_by ?i)\<rparr>"
    using update_settings_Inr [OF ac(4)] assms(6) x(1) by auto
  have fits: "go_quot (se_ttl s) nano_second < 2 ^ 31"
    using update_settings_Inr [OF ac(4)] encrypt_ttl [OF ac(3)] by simp
  from assms(7) have stored: "app_ttl b' = dur_mul (go_quot (dur_mul ?n nano_second) nano_second) nano_second"
  proof (cases rule: load_cases)
    case (loaded s2 bk2 m)
    have "se_ttl s2 = dur_mul (go_quot (se_ttl s) nano_second) nano_second"
      using loaded(1) decrypt_encrypted [OF assms(1,2) ac(3)] by (auto simp: st decrypt_stamped stored_form_def)
    then show ?thesis using loaded(4) by (simp add: live_def ttl)
  qed simp_all
  have pos: "0 < dur_mul ?n nano_second" using ac(2) by (simp add: validate_def ttl split: if_splits)
  show ?thesis
  proof (intro conjI impI)
    assume small: "\<bar>?n\<bar> \<le> 9223372036"
    then have e: "dur_mul ?n nano_second = ?n * nano_second" by (intro dur_mul_exact) (auto simp: nano_second_def)
    have g: "go_quot (?n * nano_second) nano_second = ?n" by (rule go_quot_exact) (simp add: nano_second_def)
    show "0 < ?n" using pos e by (simp add: nano_second_def)
    show "?n < 2 ^ 31" using fits by (simp add: ttl e g)
    show "app_ttl (ad_app a') = ?n * nano_second" using live e by simp
    show "app_ttl b' = ?n * nano_second" using stored by (simp add: e g)
  next
    assume n: "?n = 18446744074"
    then have e: "dur_mul ?n nano_second = 290448384" by (simp add: dur_mul_def wrap64_def nano_second_def)
    show "app_ttl (ad_app a') = 290448384" using live e by simp
    have "go_quot 290448384 nano_second = 0" by (simp add: go_quot_nonneg nano_second_def)
    moreover have "dur_mul 0 nano_second = 0" by (simp add: dur_mul_def wrap64_def)
    ultimately show "app_ttl b' = 0" using stored by (simp add: e)
  qed
qed

end
