(* ===== verification/GoDuration.thy ===== *)
theory GoDuration
  imports Nx_Prelude
begin

text \<open>
  Two parsers of Go's standard library the configuration goes through: \<open>strconv.ParseBool\<close>, and
  \<open>time.ParseDuration\<close> with its 64-bit overflow checks and its use of floating point for
  fractions.
\<close>

section \<open>strconv.ParseBool\<close>

definition parse_bool :: "string \<Rightarrow> bool option" where
  "parse_bool s =
     (if s \<in> {''1'', ''t'', ''T'', ''TRUE'', ''true'', ''True''} then Some True
      else if s \<in> {''0'', ''f'', ''F'', ''FALSE'', ''false'', ''False''} then Some False
      else None)"

section \<open>Non-negative numbers of type float64\<close>

text \<open>
  A value is a fraction of naturals; every operation is rounded to 53 significant bits, half to
  even. Values below the smallest normal number or beyond the largest do not change what the
  parser makes of them: they only come from fractions with more than 290 digits, whose product
  with a unit is less than a nanosecond.
\<close>

fun log2_nat :: "nat \<Rightarrow> nat" where
  "log2_nat n = (if n < 2 then 0 else Suc (log2_nat (n div 2)))"

declare log2_nat.simps [simp del]

definition round_div :: "nat \<Rightarrow> nat \<Rightarrow> nat" where
  "round_div n d =
     (let q = n div d; r = n mod d
      in if 2 * r < d \<or> (2 * r = d \<and> even q) then q else q + 1)"

definition scale_frac :: "int \<Rightarrow> nat \<times> nat \<Rightarrow> nat \<times> nat" where
  "scale_frac s q = (fst q * 2 ^ nat (- s), snd q * 2 ^ nat s)"

definition f64 :: "nat \<times> nat \<Rightarrow> nat \<times> nat" where
  "f64 q =
     (if fst q = 0 then (0, 1)
      else (let s0 = int (log2_nat (fst q)) - int (log2_nat (snd q)) - 52;
                (n, d) = scale_frac s0 q;
                s = (if n < 2 ^ 52 * d then s0 - 1 else s0);
                (n', d') = scale_frac s q
            in (round_div n' d' * 2 ^ nat s, 2 ^ nat (- s))))"

definition f64_mul :: "nat \<times> nat \<Rightarrow> nat \<times> nat \<Rightarrow> nat \<times> nat" where
  "f64_mul x y = f64 (fst x * fst y, snd x * snd y)"

definition f64_div :: "nat \<times> nat \<Rightarrow> nat \<times> nat \<Rightarrow> nat \<times> nat" where
  "f64_div x y = f64 (fst x * snd y, snd x * fst y)"

section \<open>time.ParseDuration\<close>

text \<open>The units; a micro sign or a Greek letter mu takes two bytes of UTF-8. \<open>max_u\<close> is \<open>1 << 63\<close>.\<close>

definition unit_map :: "(string \<times> nat) list" where
  "unit_map =
     [(''ns'', 1), (''us'', 1000), ([CHR 0xC2, CHR 0xB5, CHR ''s''], 1000), ([CHR 0xCE, CHR 0xBC, CHR ''s''], 1000),
      (''ms'', 1000000), (''s'', 1000000000), (''m'', 60000000000), (''h'', 3600000000000)]"

definition max_u :: nat where "max_u = 2 ^ 63"

fun leading_int :: "nat \<Rightarrow> string \<Rightarrow> (nat \<times> string) option" where
  "leading_int x [] = Some (x, [])"
| "leading_int x (c # s) =
     (if \<not> is_digit c then Some (x, c # s)
      else if x > max_u div 10 then None
      else (let y = x * 10 + digit_val c in if y > max_u then None else leading_int y s))"

text \<open>The digits after the point and their scale; digits that overflow are dropped.\<close>

fun leading_fraction :: "nat \<Rightarrow> nat \<times> nat \<Rightarrow> bool \<Rightarrow> string \<Rightarrow> (nat \<times> (nat \<times> nat)) \<times> string" where
  "leading_fraction x sc ovf [] = ((x, sc), [])"
| "leading_fraction x sc ovf (c # s) =
     (if \<not> is_digit c then ((x, sc), c # s)
      else if ovf then leading_fraction x sc True s
      else if x > (max_u - 1) div 10 then leading_fraction x sc True s
      else (let y = x * 10 + digit_val c
            in if y > max_u then leading_fraction x sc True s
               else leading_fraction y (f64_mul sc (10, 1)) False s))"

text \<open>\<open>uint64(float64(f) * (float64(unit) / scale))\<close>\<close>

definition fraction_nanos :: "nat \<Rightarrow> nat \<Rightarrow> nat \<times> nat \<Rightarrow> nat" where
  "fraction_nanos f unit sc =
     (case f64_mul (f64 (f, 1)) (f64_div (f64 (unit, 1)) sc) of (n, d) \<Rightarrow> n div d)"

definition unit_char :: "char \<Rightarrow> bool" where
  "unit_char c \<longleftrightarrow> c \<noteq> CHR ''.'' \<and> \<not> is_digit c"

text \<open>One number with its unit: the nanoseconds, and what follows.\<close>

definition duration_group :: "string \<Rightarrow> (nat \<times> string) option" where
  "duration_group s =
     (if s = [] \<or> \<not> (hd s = CHR ''.'' \<or> is_digit (hd s)) then None
      else case leading_int 0 s of
             None \<Rightarrow> None
           | Some (v, s1) \<Rightarrow>
               (let dot = (s1 \<noteq> [] \<and> hd s1 = CHR ''.'');
                    ((f, sc), s2) = (if dot then leading_fraction 0 (1, 1) False (tl s1) else ((0, (1, 1)), s1));
                    pre = (length s \<noteq> length s1);
                    post = (dot \<and> length (tl s1) \<noteq> length s2)
                in if \<not> pre \<and> \<not> post then None
                   else case map_of unit_map (takeWhile unit_char s2) of
                          None \<Rightarrow> None
                        | Some unit \<Rightarrow>
                            (if v > max_u div unit then None
                             else (let v' = v * unit + (if f > 0 then fraction_nanos f unit sc else 0)
                                   in if f > 0 \<and> v' > max_u then None
                                      else Some (v', dropWhile unit_char s2)))))"

lemma leading_int_length: "leading_int x s = Some (v, s') \<Longrightarrow> length s' \<le> length s"
  by (induction x s rule: leading_int.induct) (auto simp: Let_def split: if_splits)

lemma leading_fraction_length: "leading_fraction x sc ovf s = (r, s') \<Longrightarrow> length s' \<le> length s"
  by (induction x sc ovf s rule: leading_fraction.induct) (auto simp: Let_def split: if_splits)

lemma unit_map_nonempty: "map_of unit_map u = Some n \<Longrightarrow> u \<noteq> []"
  by (auto simp: unit_map_def)

lemma duration_group_shorter:
  assumes "duration_group s = Some (v, s')"
  shows "length s' < length s"
proof -
  have drop: "length (dropWhile unit_char s2) < length s2" if "map_of unit_map (takeWhile unit_char s2) = Some n" for s2 n
  proof -
    have "takeWhile unit_char s2 \<noteq> []" by (rule unit_map_nonempty [OF that])
    then have "0 < length (takeWhile unit_char s2)" by blast
    moreover have "length (takeWhile unit_char s2) + length (dropWhile unit_char s2) = length s2"
      by (metis length_append takeWhile_dropWhile_id)
    ultimately show ?thesis by linarith
  qed
  from assms obtain x s1 where 1: "leading_int 0 s = Some (x, s1)"
    by (auto simp: duration_group_def split: if_splits option.splits)
  obtain f sc s2 where 2: "((f, sc), s2) =
      (if s1 \<noteq> [] \<and> hd s1 = CHR ''.'' then leading_fraction 0 (1, 1) False (tl s1) else ((0, (1, 1)), s1))"
    by (metis surj_pair)
  then have "length s2 \<le> length s1"
    using leading_fraction_length [of 0 "(1, 1)" False "tl s1" "(f, sc)" s2] by (auto split: if_splits)
  moreover have "length s1 \<le> length s" by (rule leading_int_length [OF 1])
  moreover obtain n where "map_of unit_map (takeWhile unit_char s2) = Some n" "s' = dropWhile unit_char s2"
    using assms 1 by (auto simp: duration_group_def Let_def 2 [symmetric] split: if_splits option.splits)
  ultimately show ?thesis using drop by (metis le_trans less_le_trans)
qed

text \<open>The loop over the numbers; the sum is a \<open>uint64\<close>.\<close>

function duration_sum :: "nat \<Rightarrow> string \<Rightarrow> nat option" where
  "duration_sum d s =
     (if s = [] then Some d
      else case duration_group s of
             None \<Rightarrow> None
           | Some (v, s') \<Rightarrow>
               (let d' = (d + v) mod 2 ^ 64 in if d' > max_u then None else duration_sum d' s'))"
  by pat_completeness auto

termination
  by (relation "measure (\<lambda>(d, s). length s)") (auto dest: duration_group_shorter)

declare duration_sum.simps [simp del]

definition parse_duration :: "string \<Rightarrow> duration option" where
  "parse_duration s =
     (let neg = (s \<noteq> [] \<and> hd s = CHR ''-'');
          s1 = (if s \<noteq> [] \<and> (hd s = CHR ''-'' \<or> hd s = CHR ''+'') then tl s else s)
      in if s1 = ''0'' then Some 0
         else if s1 = [] then None
         else case duration_sum 0 s1 of
                None \<Rightarrow> None
              | Some d \<Rightarrow>
                  (if neg then Some (dur_neg (wrap64 (int d)))
                   else if d > max_u - 1 then None
                   else Some (int d)))"

section \<open>Whole seconds\<close>

lemma foldl_digits_le: "x \<le> foldl (\<lambda>n c. 10 * n + digit_val c) x s"
proof (induction s arbitrary: x)
  case (Cons c s)
  have "x \<le> 10 * x + digit_val c" by simp
  also have "\<dots> \<le> foldl (\<lambda>n c. 10 * n + digit_val c) (10 * x + digit_val c) s" by (rule Cons.IH)
  finally show ?case by simp
qed simp

lemma leading_int_digits:
  assumes "list_all is_digit ds" "foldl (\<lambda>n c. 10 * n + digit_val c) x ds \<le> max_u" "s = [] \<or> \<not> is_digit (hd s)"
  shows "leading_int x (ds @ s) = Some (foldl (\<lambda>n c. 10 * n + digit_val c) x ds, s)"
  using assms(1,2)
proof (induction ds arbitrary: x)
  case Nil
  then show ?case using assms(3) by (cases s) simp_all
next
  case (Cons c ds)
  let ?y = "10 * x + digit_val c"
  have y: "?y \<le> max_u" using foldl_digits_le [of ?y ds] Cons.prems(2) by simp
  then have "10 * x \<le> max_u" by simp
  then have "\<not> x > max_u div 10" by linarith
  then show ?case using Cons y by (simp add: Let_def mult.commute)
qed

lemma parse_seconds:
  assumes "n \<le> 9223372036"
  shows "parse_duration (show_nat n @ ''s'') = Some (int n * nano_second)"
proof -
  let ?s = "show_nat n @ ''s''"
  obtain c r where cr: "show_nat n = c # r" "is_digit c" using show_nat_hd by blast
  have max: "max_u = 9223372036854775808" by (simp add: max_u_def)
  have "leading_int 0 (show_nat n @ ''s'') = Some (n, ''s'')"
    using leading_int_digits [OF show_nat_digits, of 0 n "''s''"] assms
    by (simp add: foldl_show_nat max is_digit_def less_eq_char_def)
  moreover have "unit_char CHR ''s''" by (simp add: unit_char_def is_digit_def less_eq_char_def)
  moreover have "map_of unit_map ''s'' = Some 1000000000" by (simp add: unit_map_def)
  ultimately have "duration_group ?s = Some (n * 1000000000, [])"
    using assms cr by (simp add: duration_group_def max)
  moreover have "?s \<noteq> []" by simp
  ultimately have sum: "duration_sum 0 ?s = Some (n * 1000000000)"
    using assms by (subst duration_sum.simps) (simp add: Let_def max duration_sum.simps)
  have "hd ?s \<noteq> CHR ''-'' \<and> hd ?s \<noteq> CHR ''+''" using cr is_digit_not_sign by simp
  moreover have "?s \<noteq> ''0''" by (auto simp: append_eq_Cons_conv)
  moreover have "n * 1000000000 \<le> max_u - 1" using assms by (simp add: max)
  ultimately show ?thesis
    using sum by (simp add: parse_duration_def nano_second_def)
qed

end
