(* ===== verification/Config.thy ===== *)
theory Config
  imports GoDuration
begin

text \<open>
  \<open>internal/config/config.go\<close>: the configuration of the process from its environment. An
  environment maps each name to its value, as \<open>os.Getenv\<close> does: the empty string when it is unset.
\<close>

type_synonym environ = "string \<Rightarrow> string"

record config =
  cfg_addr :: string
  cfg_database_url :: string
  cfg_key :: string
  cfg_cookie_secure :: bool
  cfg_bootstrap_email :: string
  cfg_bootstrap_password :: string
  cfg_read_timeout :: duration
  cfg_write_timeout :: duration
  cfg_shutdown_grace :: duration

datatype config_err = NoDatabaseUrl | NoEncryptionKey

definition get_env :: "environ \<Rightarrow> string \<Rightarrow> string \<Rightarrow> string" where
  "get_env env key fallback = (if env key \<noteq> [] then env key else fallback)"

definition get_env_bool :: "environ \<Rightarrow> string \<Rightarrow> bool \<Rightarrow> bool" where
  "get_env_bool env key fallback =
     (if env key = [] then fallback
      else (case parse_bool (env key) of None \<Rightarrow> fallback | Some b \<Rightarrow> b))"

definition get_env_duration :: "environ \<Rightarrow> string \<Rightarrow> duration \<Rightarrow> duration" where
  "get_env_duration env key fallback =
     (if env key = [] then fallback
      else (case parse_duration (env key) of None \<Rightarrow> fallback | Some d \<Rightarrow> d))"

definition from_env :: "environ \<Rightarrow> config_err + config" where
  "from_env env =
     (let cfg = \<lparr>cfg_addr = get_env env ''PORT_ADDR'' (CHR '':'' # get_env env ''PORT'' ''3000''),
                 cfg_database_url = env ''DATABASE_URL'',
                 cfg_key = env ''SETTINGS_ENCRYPTION_KEY'',
                 cfg_cookie_secure = get_env_bool env ''COOKIE_SECURE'' True,
                 cfg_bootstrap_email = env ''ADMIN_BOOTSTRAP_EMAIL'',
                 cfg_bootstrap_password = env ''ADMIN_BOOTSTRAP_PASSWORD'',
                 cfg_read_timeout = get_env_duration env ''READ_TIMEOUT'' (30 * nano_second),
                 cfg_write_timeout = get_env_duration env ''WRITE_TIMEOUT'' (60 * nano_second),
                 cfg_shutdown_grace = get_env_duration env ''SHUTDOWN_GRACE'' (15 * nano_second)\<rparr>
      in if cfg_database_url cfg = [] then Inl NoDatabaseUrl
         else if cfg_key cfg = [] then Inl NoEncryptionKey
         else Inr cfg)"

section \<open>What a variable means\<close>

lemma parse_bool_false: "parse_bool s = Some False \<longleftrightarrow> s \<in> {''0'', ''f'', ''F'', ''FALSE'', ''false'', ''False''}"
  by (auto simp: parse_bool_def)

lemma get_env_bool_on: "get_env_bool env key True = (env key \<notin> {''0'', ''f'', ''F'', ''FALSE'', ''false'', ''False''})"
proof (cases "parse_bool (env key) = Some False")
  case True
  then show ?thesis using parse_bool_false [of "env key"] by (auto simp: get_env_bool_def)
next
  case False
  then have "env key \<notin> {''0'', ''f'', ''F'', ''FALSE'', ''false'', ''False''}" using parse_bool_false by blast
  moreover have "get_env_bool env key True" using False by (auto simp: get_env_bool_def split: option.splits)
  ultimately show ?thesis by blast
qed

lemma get_env_seconds: "env key = show_nat n @ ''s'' \<Longrightarrow> n \<le> 9223372036 \<Longrightarrow> get_env_duration env key d = int n * nano_second"
  by (simp add: get_env_duration_def parse_seconds)

lemma from_env_cases:
  assumes "from_env env = Inr c"
  shows "cfg_addr c = get_env env ''PORT_ADDR'' (CHR '':'' # get_env env ''PORT'' ''3000'')"
    "cfg_database_url c = env ''DATABASE_URL'' \<and> env ''DATABASE_URL'' \<noteq> []"
    "cfg_key c = env ''SETTINGS_ENCRYPTION_KEY'' \<and> env ''SETTINGS_ENCRYPTION_KEY'' \<noteq> []"
    "cfg_cookie_secure c = get_env_bool env ''COOKIE_SECURE'' True"
    "cfg_bootstrap_email c = env ''ADMIN_BOOTSTRAP_EMAIL''" "cfg_bootstrap_password c = env ''ADMIN_BOOTSTRAP_PASSWORD''"
    "cfg_read_timeout c = get_env_duration env ''READ_TIMEOUT'' (30 * nano_second)"
    "cfg_write_timeout c = get_env_duration env ''WRITE_TIMEOUT'' (60 * nano_second)"
    "cfg_shutdown_grace c = get_env_duration env ''SHUTDOWN_GRACE'' (15 * nano_second)"
  using assms by (simp_all add: from_env_def Let_def split: if_splits) auto

end
