(* ===== verification/WebUi.thy ===== *)
theory WebUi
  imports AdminServe
begin

text \<open>
  The embedded browser application, \<open>web/embed.go\<close>: the tree \<open>//go:embed dist\<close> puts into the binary,
  the part of \<open>io/fs\<close> that \<open>DistFS\<close> and \<open>internal/adminapi/spa.go\<close> use on it, and what a request
  below \<open>/admin/\<close> can reach of it. What the build has put below \<open>dist\<close>, and the answer of
  \<open>http.FileServerFS\<close> for a path that exists, are arguments.
\<close>

section \<open>io/fs\<close>

datatype fs_node = FsDir | FsFile string

text \<open>A tree by the full names of its files and directories, all of them valid UTF-8.\<close>

type_synonym embed_tree = "string \<Rightarrow> fs_node option"

definition fs_valid_path :: "string \<Rightarrow> bool" where
  "fs_valid_path name \<longleftrightarrow> name = ''.'' \<or> list_all (\<lambda>e. e \<noteq> [] \<and> e \<noteq> ''.'' \<and> e \<noteq> ''..'') (split_slash name)"

definition fs_open :: "embed_tree \<Rightarrow> string \<Rightarrow> fs_node option" where
  "fs_open t name = (if fs_valid_path name then t name else None)"

text \<open>\<open>fs.Sub\<close>: a directory that is no valid path is an error; names are joined to it.\<close>

definition fs_sub :: "embed_tree \<Rightarrow> string \<Rightarrow> embed_tree option" where
  "fs_sub t dir =
     (if \<not> fs_valid_path dir then None
      else if dir = ''.'' then Some t
      else Some (\<lambda>name. if fs_valid_path name then fs_open t (path_join dir name) else None))"

section \<open>embed.go\<close>

definition dist_fs :: "embed_tree \<Rightarrow> embed_tree option" where
  "dist_fs embedded = fs_sub embedded ''dist''"

text \<open>What \<open>spa.go\<close> asks of the application: \<open>fs.Stat\<close>, \<open>fs.ReadFile\<close> of its page, and its files.\<close>

definition ui_of :: "(embed_tree \<Rightarrow> string \<Rightarrow> response) \<Rightarrow> embed_tree \<Rightarrow> ui_fs" where
  "ui_of file_server t =
     \<lparr>ui_stat = (\<lambda>name. fs_open t name \<noteq> None),
      ui_index = (case fs_open t ''index.html'' of Some (FsFile data) \<Rightarrow> Some data | _ \<Rightarrow> None),
      ui_file_server = file_server t\<rparr>"

section \<open>What is reached\<close>

lemma clean_elems_plain:
  "list_all (\<lambda>e. e \<noteq> [] \<and> e \<noteq> ''.'' \<and> e \<noteq> ''..'') es \<Longrightarrow> clean_elems rooted st es = rev st @ es"
  by (induction es arbitrary: st) auto

lemma join_split_slash: "join_slash (split_slash s) = s"
proof (induction s)
  case (Cons c s)
  obtain w ws where w: "split_slash s = w # ws" using split_slash_nonempty [of s] by (meson neq_Nil_conv)
  then show ?case using Cons by (cases ws) auto
qed simp

lemma join_dist:
  assumes "fs_valid_path name" "name \<noteq> ''.''"
  shows "path_join ''dist'' name = ''dist/'' @ name"
proof -
  have l: "list_all (\<lambda>e. e \<noteq> [] \<and> e \<noteq> ''.'' \<and> e \<noteq> ''..'') (split_slash name)" using assms by (simp add: fs_valid_path_def)
  have s: "split_slash (''dist'' @ CHR ''/'' # name) = ''dist'' # split_slash name"
    using split_slash_append [of "''dist''" name] by simp
  have c: "clean_elems False [] (split_slash (''dist'' @ CHR ''/'' # name)) = ''dist'' # split_slash name"
    unfolding s using clean_elems_plain [of "''dist'' # split_slash name" False "[]"] l by simp
  obtain v vs where v: "split_slash name = v # vs" using split_slash_nonempty [of name] by (meson neq_Nil_conv)
  have "join_slash (''dist'' # split_slash name) = ''dist'' @ CHR ''/'' # name"
    using join_split_slash [of name] v by simp
  then show ?thesis using c unfolding path_join_def path_clean_def path_norm_def by (simp add: Let_def)
qed

text \<open>The application is always there, and holds what lies below \<open>dist\<close>.\<close>

lemma dist_fs_eq:
  "dist_fs t = Some (\<lambda>name. if fs_valid_path name then fs_open t (path_join ''dist'' name) else None)"
  by (simp add: dist_fs_def fs_sub_def fs_valid_path_def)

lemma dist_open:
  assumes "dist_fs t = Some ui" "fs_open ui name = Some node"
  shows "fs_valid_path name \<and> (name = ''.'' \<and> t ''dist'' = Some node \<or> t (''dist/'' @ name) = Some node)"
proof -
  have v: "fs_valid_path name" "fs_open t (path_join ''dist'' name) = Some node"
    using assms by (auto simp: dist_fs_eq fs_open_def split: if_splits)
  have "path_join ''dist'' ''.'' = ''dist''" by code_simp
  then show ?thesis using v join_dist [of name] by (cases "name = ''.''") (auto simp: fs_open_def split: if_splits)
qed


section \<open>What a browser is served\<close>

text \<open>
  C38. Below \<open>/admin/\<close>, whatever is not the API changes nothing and is answered from the embedded
  tree. A path that names no file of \<open>dist\<close> is a page of the browser application: it is answered 200
  with the bytes of \<open>index.html\<close>, so that deep links and reloads work. The file server is asked only
  for names that exist, and those lie below \<open>dist\<close>: no path leads out of it.
\<close>

theorem spa_pages:
  assumes "aq_meth q = ''GET''" "admin_route True ''GET'' segs = AtSpa"
    and "t ''dist/index.html'' = Some (FsFile page)" "name = spa_path (path_of segs)"
  shows "\<exists>tree r. dist_fs t = Some tree \<and> admin_serve d (Some (ui_of files tree)) segs q a = Some (r, a) \<and>
    (fs_open tree name = None \<longrightarrow> rs_status r = 200 \<and> rs_body r = Text page \<and> rs_cookies r = []) \<and>
    (fs_open tree name \<noteq> None \<longrightarrow> r = files tree (trim_prefix ''/admin'' (path_of segs)) \<and>
       ''..'' \<notin> set (split_slash name) \<and> (name = ''.'' \<or> t (''dist/'' @ name) \<noteq> None))"
proof -
  obtain tree where tree: "dist_fs t = Some tree" by (simp add: dist_fs_eq)
  have index: "fs_open tree ''index.html'' = Some (FsFile page)"
  proof -
    have "fs_valid_path ''index.html''" "path_join ''dist'' ''index.html'' = ''dist/index.html''"
      "fs_valid_path ''dist/index.html''" by code_simp+
    then show ?thesis using tree assms(3) by (auto simp: dist_fs_eq fs_open_def)
  qed
  let ?u = "ui_of files tree"
  have "admin_serve d (Some ?u) segs q a = Some (spa_handler ?u (path_of segs), a)"
    using assms(1,2) by (simp add: admin_serve_def admin_handler_def head_only_def)
  moreover have "spa_handler ?u (path_of segs) = serve_index ?u" "rs_status (serve_index ?u) = 200"
    "rs_body (serve_index ?u) = Text page" "rs_cookies (serve_index ?u) = []" if "fs_open tree name = None"
    using that index assms(4) by (simp_all add: spa_handler_def serve_index_def ui_of_def)
  moreover have "spa_handler ?u (path_of segs) = files tree (trim_prefix ''/admin'' (path_of segs))"
    "''..'' \<notin> set (split_slash name)" "name = ''.'' \<or> t (''dist/'' @ name) \<noteq> None" if some: "fs_open tree name \<noteq> None"
  proof -
    show "spa_handler ?u (path_of segs) = files tree (trim_prefix ''/admin'' (path_of segs))"
      using some assms(4) by (simp add: spa_handler_def ui_of_def)
    obtain node where "fs_open tree name = Some node" using some by blast
    note o = dist_open [OF tree this]
    then show "name = ''.'' \<or> t (''dist/'' @ name) \<noteq> None" by auto
    show "''..'' \<notin> set (split_slash name)"
      using conjunct1 [OF o] by (auto simp: fs_valid_path_def list_all_iff)
  qed
  ultimately show ?thesis
    using tree by (intro exI [of _ tree] exI [of _ "spa_handler ?u (path_of segs)"] conjI impI) simp_all
qed

end
