(* ===== verification/Startup.thy ===== *)
theory Startup
  imports Server Config WebUi
begin

text \<open>
  The start of the process: \<open>internal/db/db.go\<close>, and \<open>main.go\<close> from the environment to the server
  that listens. The database server is a state: whether its schema is new, and how it answers the
  next attempts to migrate and to ping; what golang-migrate and pgx accept as a URL is an argument.
\<close>

section \<open>db.go\<close>

text \<open>The embedded migrations can be read; URLs the migrator opens; URLs the pool takes.\<close>

record db_service =
  ds_source :: bool
  ds_opens :: "string \<Rightarrow> bool"
  ds_pool :: "string \<Rightarrow> bool"

text \<open>
  Outcomes of the next migrations and pings, successful when the lists have run out; whether the
  schema is still to be created; the tables, and the faults to come on a new database.
\<close>

record database =
  db_ups :: "bool list"
  db_pings :: "bool list"
  db_fresh :: bool
  db_pg :: pg
  db_faults :: "db_fault list"

datatype migrate_err = MigSource | MigInit | MigUp
datatype connect_err = ConnPool | ConnPing
datatype up_result = UpApplied | UpNoChange | UpFailed

definition connect_db :: "db_service \<Rightarrow> string \<Rightarrow> database \<Rightarrow> connect_err option \<times> database" where
  "connect_db svc url d =
     (if \<not> ds_pool svc url then (Some ConnPool, d)
      else (let d1 = d\<lparr>db_pings := drop 1 (db_pings d)\<rparr>
            in if db_pings d \<noteq> [] \<and> \<not> hd (db_pings d) then (Some ConnPing, d1) else (None, d1)))"

definition migrate_url :: "string \<Rightarrow> string" where
  "migrate_url url = ''pgx5://'' @ trim_prefix ''postgresql://'' (trim_prefix ''postgres://'' url)"

text \<open>\<open>Up\<close> of golang-migrate: it creates the schema of a new database.\<close>

definition migrate_up :: "time \<Rightarrow> database \<Rightarrow> up_result \<times> database" where
  "migrate_up now d =
     (let d1 = d\<lparr>db_ups := drop 1 (db_ups d)\<rparr>
      in if db_ups d \<noteq> [] \<and> \<not> hd (db_ups d) then (UpFailed, d1)
         else if db_fresh d then (UpApplied, d1\<lparr>db_fresh := False, db_pg := migrated_pg now (db_faults d)\<rparr>)
         else (UpNoChange, d1))"

definition migrate_db :: "db_service \<Rightarrow> string \<Rightarrow> time \<Rightarrow> database \<Rightarrow> migrate_err option \<times> database" where
  "migrate_db svc url now d =
     (if \<not> ds_source svc then (Some MigSource, d)
      else if \<not> ds_opens svc (migrate_url url) then (Some MigInit, d)
      else (case migrate_up now d of
              (UpFailed, d1) \<Rightarrow> (Some MigUp, d1)
            | (_, d1) \<Rightarrow> (None, d1)))"

section \<open>waitForDB\<close>

datatype wait_result = WaitReady | WaitCancelled | WaitExhausted "migrate_err option"

definition max_attempts :: nat where "max_attempts = 15"

text \<open>
  \<open>cancelled n\<close> says whether the context was done when the wait after attempt \<open>n\<close> ended;
  \<open>clock n\<close> is the time of the database at that attempt.
\<close>

primrec wait_loop ::
  "db_service \<Rightarrow> string \<Rightarrow> (nat \<Rightarrow> bool) \<Rightarrow> (nat \<Rightarrow> time) \<Rightarrow> nat \<Rightarrow> nat \<Rightarrow> migrate_err option \<Rightarrow> database \<Rightarrow>
     wait_result \<times> database" where
  "wait_loop svc url cancelled clock 0 attempt last_err d = (WaitExhausted last_err, d)"
| "wait_loop svc url cancelled clock (Suc left) attempt last_err d =
     (case migrate_db svc url (clock attempt) d of
        (None, d1) \<Rightarrow> (WaitReady, d1)
      | (Some e, d1) \<Rightarrow>
          (if cancelled attempt then (WaitCancelled, d1)
           else wait_loop svc url cancelled clock left (attempt + 1) (Some e) d1))"

definition wait_for_db ::
  "db_service \<Rightarrow> string \<Rightarrow> (nat \<Rightarrow> bool) \<Rightarrow> (nat \<Rightarrow> time) \<Rightarrow> database \<Rightarrow> wait_result \<times> database" where
  "wait_for_db svc url cancelled clock d = wait_loop svc url cancelled clock max_attempts 1 None d"

section \<open>bootstrapAdmin\<close>

datatype boot_err = BootCount store_err | BootHash | BootCreate store_err

text \<open>Counting the users, which says whether to go on, and creating one are two statements.\<close>

definition bootstrap_check :: "config \<Rightarrow> pg \<Rightarrow> (boot_err + bool) \<times> pg" where
  "bootstrap_check cfg p =
     (if cfg_bootstrap_email cfg = [] \<or> cfg_bootstrap_password cfg = [] then (Inr False, p)
      else (case count_users p of
              (Inl e, p1) \<Rightarrow> (Inl (BootCount e), p1)
            | (Inr n, p1) \<Rightarrow> (Inr (\<not> n > 0), p1)))"

definition bootstrap_create :: "bcrypt \<Rightarrow> config \<Rightarrow> string \<Rightarrow> time \<Rightarrow> pg \<Rightarrow> (boot_err + bool) \<times> pg" where
  "bootstrap_create bc cfg salt now p =
     (case hash_password bc salt (cfg_bootstrap_password cfg) of
        None \<Rightarrow> (Inl BootHash, p)
      | Some hash \<Rightarrow>
          (case create_user now (cfg_bootstrap_email cfg) hash p of
             (Inl e, p1) \<Rightarrow> (Inl (BootCreate e), p1)
           | (Inr u, p1) \<Rightarrow> (Inr True, p1)))"

text \<open>The result says whether an account was created.\<close>

definition bootstrap_admin :: "bcrypt \<Rightarrow> config \<Rightarrow> string \<Rightarrow> time \<Rightarrow> pg \<Rightarrow> (boot_err + bool) \<times> pg" where
  "bootstrap_admin bc cfg salt now p =
     (case bootstrap_check cfg p of
        (Inl e, p1) \<Rightarrow> (Inl e, p1)
      | (Inr go, p1) \<Rightarrow> (if go then bootstrap_create bc cfg salt now p1 else (Inr False, p1)))"

section \<open>runHealthcheck\<close>

definition health_url :: "environ \<Rightarrow> string" where
  "health_url env =
     ''http://localhost:'' @ (if env ''PORT'' = [] then ''3000'' else env ''PORT'') @ ''/health''"

text \<open>\<open>get url\<close> is the status of a \<open>GET\<close>, if there was an answer; the result is the exit code.\<close>

definition run_healthcheck :: "environ \<Rightarrow> (string \<Rightarrow> int option) \<Rightarrow> nat" where
  "run_healthcheck env get =
     (case get (health_url env) of None \<Rightarrow> 1 | Some status \<Rightarrow> (if status \<noteq> 200 then 1 else 0))"

section \<open>run\<close>

text \<open>
  What \<open>run\<close> is given: the environment, the clocks, a salt, the tree embedded into the binary with
  the answers of a file server over such trees, the media.
\<close>

record ('s, 'g) start_input =
  si_env :: environ
  si_cancelled :: "nat \<Rightarrow> bool"
  si_clock :: "nat \<Rightarrow> time"
  si_boot_now :: time
  si_salt :: string
  si_embedded :: embed_tree
  si_files :: "embed_tree \<Rightarrow> string \<Rightarrow> response"
  si_media :: "('s, 'g) media"

datatype run_err =
  RunConfig config_err | RunKey key_err | RunDb wait_result | RunConnect connect_err
| RunBootstrap boot_err | RunUi | RunLoad load_err

text \<open>
  The servers before \<open>Load\<close>: \<open>NewDynamic(nil)\<close>, a lifetime and a limit of zero. A local backend
  stands for \<open>nil\<close>; nothing reads it before \<open>Load\<close> replaces it.
\<close>

definition unloaded :: "('s, 'g) media \<Rightarrow> pg \<Rightarrow> ('s, 'g) app" where
  "unloaded m p =
     \<lparr>app_world = \<lparr>w_dyn = new_dynamic (BLocal \<lparr>l_dir = []\<rparr>) m, w_pg = p\<rparr>,
      app_max = 0, app_tasks = [], app_ttl = 0, app_settings = zero_settings\<rparr>"

definition start_deps :: "('s, 'g, 'l) admin_deps \<Rightarrow> encryptor \<Rightarrow> config \<Rightarrow> ('s, 'g, 'l) admin_deps" where
  "start_deps d enc cfg = d\<lparr>dp_enc := enc, dp_cookie_secure := cfg_cookie_secure cfg\<rparr>"

text \<open>Up to the server that listens; the encryptor and the cookie flag come from the environment.\<close>

definition run_server ::
  "('s, 'g, 'l) admin_deps \<Rightarrow> db_service \<Rightarrow> ('s, 'g) start_input \<Rightarrow> database \<Rightarrow>
     (run_err + ('s, 'g, 'l) admin_deps \<times> config \<times> ('s, 'g, 'l) admin) \<times> database" where
  "run_server d svc si db =
     (case from_env (si_env si) of
        Inl e \<Rightarrow> (Inl (RunConfig e), db)
      | Inr cfg \<Rightarrow>
          (case new_encryptor (cfg_key cfg) of
             Inl e \<Rightarrow> (Inl (RunKey e), db)
           | Inr enc \<Rightarrow>
               (let (ready, db1) = wait_for_db svc (cfg_database_url cfg) (si_cancelled si) (si_clock si) db
                in if ready \<noteq> WaitReady then (Inl (RunDb ready), db1)
                   else case connect_db svc (cfg_database_url cfg) db1 of
                     (Some e, db2) \<Rightarrow> (Inl (RunConnect e), db2)
                   | (None, db2) \<Rightarrow>
                       (case bootstrap_admin (dp_bcrypt d) cfg (si_salt si) (si_boot_now si) (db_pg db2) of
                          (Inl e, p) \<Rightarrow> (Inl (RunBootstrap e), db2\<lparr>db_pg := p\<rparr>)
                        | (Inr _, p) \<Rightarrow>
                            (case dist_fs (si_embedded si) of
                               None \<Rightarrow> (Inl RunUi, db2\<lparr>db_pg := p\<rparr>)
                             | Some tree \<Rightarrow>
                                 (case load_settings (dp_apis d) (dp_cipher d) enc (unloaded (si_media si) p) of
                                    (Inl e, a) \<Rightarrow> (Inl (RunLoad e), db2\<lparr>db_pg := app_pg a\<rparr>)
                                  | (Inr _, a) \<Rightarrow>
                                      (Inr (start_deps d enc cfg, cfg, new_admin a),
                                       db2\<lparr>db_pg := app_pg a\<rparr>)))))))"

section \<open>Serving, and the end of the process\<close>

record http_server =
  hs_addr :: string
  hs_read_timeout :: duration
  hs_write_timeout :: duration

definition http_server_of :: "config \<Rightarrow> http_server" where
  "http_server_of cfg =
     \<lparr>hs_addr = cfg_addr cfg, hs_read_timeout = cfg_read_timeout cfg, hs_write_timeout = cfg_write_timeout cfg\<rparr>"

text \<open>The application behind the admin server's paths.\<close>

definition start_ui :: "('s, 'g) start_input \<Rightarrow> ui_fs option" where
  "start_ui si = map_option (ui_of (si_files si)) (dist_fs (si_embedded si))"

text \<open>
  What happens while the server listens, in the order it takes effect: requests, the tasks downloads
  leave behind, sweeps of the janitor. \<open>None\<close> when one of them runs forever.
\<close>

datatype server_event = EvRequest http_req | EvTask time nat | EvSweep time

definition serve_event ::
  "('s, 'g, 'l) admin_deps \<Rightarrow> ui_fs option \<Rightarrow> server_event \<Rightarrow> ('s, 'g, 'l) admin \<Rightarrow> ('s, 'g, 'l) admin option" where
  "serve_event d ui ev a =
     (case ev of
        EvRequest q \<Rightarrow> map_option snd (main_serve d ui q a)
      | EvTask now i \<Rightarrow> Some (run_task d now i a)
      | EvSweep now \<Rightarrow> run_sweep d now a)"

primrec serve_events ::
  "('s, 'g, 'l) admin_deps \<Rightarrow> ui_fs option \<Rightarrow> server_event list \<Rightarrow> ('s, 'g, 'l) admin \<Rightarrow> ('s, 'g, 'l) admin option" where
  "serve_events d ui [] a = Some a"
| "serve_events d ui (ev # evs) a = Option.bind (serve_event d ui ev a) (serve_events d ui evs)"

text \<open>
  The \<open>select\<close> at the end of \<open>run\<close>: \<open>ListenAndServe\<close> failed (the server for which is told whether its
  address can be listened on), or a signal arrived. \<open>Shutdown\<close> answers, within the time it is given,
  whether the connections were drained.
\<close>

datatype serve_end = ListenFailed | Signalled

record http_service =
  hv_end :: "http_server \<Rightarrow> serve_end"
  hv_shutdown :: "duration \<Rightarrow> bool"

datatype exit_err = ExitRun run_err | ExitListen | ExitShutdown

definition run_end :: "http_service \<Rightarrow> config \<Rightarrow> exit_err option" where
  "run_end hv cfg =
     (case hv_end hv (http_server_of cfg) of
        ListenFailed \<Rightarrow> Some ExitListen
      | Signalled \<Rightarrow> (if hv_shutdown hv (cfg_shutdown_grace cfg) then None else Some ExitShutdown))"

text \<open>All of \<open>run\<close>: its error and the database it leaves; \<open>None\<close> when it never returns.\<close>

definition run_all ::
  "('s, 'g, 'l) admin_deps \<Rightarrow> db_service \<Rightarrow> http_service \<Rightarrow> ('s, 'g) start_input \<Rightarrow> server_event list \<Rightarrow> database \<Rightarrow>
     (exit_err option \<times> database) option" where
  "run_all d svc hv si evs db =
     (case run_server d svc si db of
        (Inl e, db') \<Rightarrow> Some (Some (ExitRun e), db')
      | (Inr (d', cfg, a), db') \<Rightarrow>
          map_option (\<lambda>a'. (run_end hv cfg, db'\<lparr>db_pg := ad_pg a'\<rparr>)) (serve_events d' (start_ui si) evs a))"

section \<open>main\<close>

text \<open>The exit code, and the database the process leaves; \<open>None\<close> when it never exits.\<close>

definition main_process ::
  "string list \<Rightarrow> (string \<Rightarrow> int option) \<Rightarrow> ('s, 'g, 'l) admin_deps \<Rightarrow> db_service \<Rightarrow> http_service \<Rightarrow>
     ('s, 'g) start_input \<Rightarrow> server_event list \<Rightarrow> database \<Rightarrow> (nat \<times> database) option" where
  "main_process args get d svc hv si evs db =
     (if length args > 1 \<and> args ! 1 = ''healthcheck'' then Some (run_healthcheck (si_env si) get, db)
      else map_option (\<lambda>(e, db'). (if e \<noteq> None then 1 else 0, db')) (run_all d svc hv si evs db))"

end
