(* ===== verification/StartupProps.thy ===== *)
theory StartupProps
  imports ServerProps Startup
begin

text \<open>
  Properties of the start of the process: what the environment means, how long the start waits for
  the database, the first account, and what holds in every state the started server reaches.
\<close>

section \<open>The environment\<close>

text \<open>
  C36. The process does not start without a database URL and an encryption key. Cookies
  are restricted to HTTPS unless the variable is one of the six spellings of false; durations
  written in seconds are taken as such. While \<open>PORT_ADDR\<close> is unset, the health check asks the
  address the server listens on; when it is set, the server listens there, and the health check
  still asks \<open>PORT\<close>.
\<close>

theorem config_environment:
  "(\<forall>e. from_env env = Inl e \<longrightarrow> env ''DATABASE_URL'' = [] \<or> env ''SETTINGS_ENCRYPTION_KEY'' = []) \<and>
   (\<forall>c. from_env env = Inr c \<longrightarrow>
      cfg_database_url c = env ''DATABASE_URL'' \<and> cfg_database_url c \<noteq> [] \<and>
      cfg_key c = env ''SETTINGS_ENCRYPTION_KEY'' \<and> cfg_key c \<noteq> [] \<and>
      (cfg_cookie_secure c \<longleftrightarrow> env ''COOKIE_SECURE'' \<notin> {''0'', ''f'', ''F'', ''FALSE'', ''false'', ''False''}) \<and>
      (\<forall>n \<le> 9223372036. (env ''READ_TIMEOUT'' = show_nat n @ ''s'' \<longrightarrow> cfg_read_timeout c = int n * nano_second) \<and>
        (env ''WRITE_TIMEOUT'' = show_nat n @ ''s'' \<longrightarrow> cfg_write_timeout c = int n * nano_second) \<and>
        (env ''SHUTDOWN_GRACE'' = show_nat n @ ''s'' \<longrightarrow> cfg_shutdown_grace c = int n * nano_second)) \<and>
      (env ''PORT_ADDR'' = [] \<longrightarrow> health_url env = ''http://localhost'' @ cfg_addr c @ ''/health'') \<and>
      (env ''PORT_ADDR'' \<noteq> [] \<longrightarrow> cfg_addr c = env ''PORT_ADDR'' \<and>
        (env ''PORT'' = [] \<longrightarrow> health_url env = ''http://localhost:3000/health'')))"
proof (intro conjI allI impI)
  fix e assume "from_env env = Inl e"
  then show "env ''DATABASE_URL'' = [] \<or> env ''SETTINGS_ENCRYPTION_KEY'' = []"
    by (auto simp: from_env_def Let_def split: if_splits)
next
  fix c assume c: "from_env env = Inr c"
  note f = from_env_cases [OF c]
  show "cfg_database_url c = env ''DATABASE_URL''" "cfg_database_url c \<noteq> []"
    "cfg_key c = env ''SETTINGS_ENCRYPTION_KEY''" "cfg_key c \<noteq> []" using f(2,3) by simp_all
  show "cfg_cookie_secure c \<longleftrightarrow> env ''COOKIE_SECURE'' \<notin> {''0'', ''f'', ''F'', ''FALSE'', ''false'', ''False''}"
    unfolding f(4) by (rule get_env_bool_on)
  fix n assume n: "n \<le> (9223372036 :: nat)"
  show "env ''READ_TIMEOUT'' = show_nat n @ ''s'' \<Longrightarrow> cfg_read_timeout c = int n * nano_second"
    "env ''WRITE_TIMEOUT'' = show_nat n @ ''s'' \<Longrightarrow> cfg_write_timeout c = int n * nano_second"
    "env ''SHUTDOWN_GRACE'' = show_nat n @ ''s'' \<Longrightarrow> cfg_shutdown_grace c = int n * nano_second"
    using get_env_seconds [OF _ n] by (simp_all add: f)
next
  fix c assume c: "from_env env = Inr c"
  note f = from_env_cases(1) [OF c]
  show "env ''PORT_ADDR'' = [] \<Longrightarrow> health_url env = ''http://localhost'' @ cfg_addr c @ ''/health''"
    by (simp add: f get_env_def health_url_def)
  show "env ''PORT_ADDR'' \<noteq> [] \<Longrightarrow> cfg_addr c = env ''PORT_ADDR''" by (simp add: f get_env_def)
  show "env ''PORT'' = [] \<Longrightarrow> health_url env = ''http://localhost:3000/health''" by (simp add: health_url_def)
qed

section \<open>Waiting for the database\<close>

text \<open>The database after \<open>n\<close> attempts, the first of them number \<open>i + 1\<close>; the outcome of the next one.\<close>

primrec tries :: "db_service \<Rightarrow> string \<Rightarrow> (nat \<Rightarrow> time) \<Rightarrow> nat \<Rightarrow> nat \<Rightarrow> database \<Rightarrow> database" where
  "tries svc url clock i 0 d = d"
| "tries svc url clock i (Suc n) d = snd (migrate_db svc url (clock (Suc (i + n))) (tries svc url clock i n d))"

definition outcome :: "db_service \<Rightarrow> string \<Rightarrow> (nat \<Rightarrow> time) \<Rightarrow> nat \<Rightarrow> nat \<Rightarrow> database \<Rightarrow> migrate_err option" where
  "outcome svc url clock i n d = fst (migrate_db svc url (clock (Suc (i + n))) (tries svc url clock i n d))"

lemma tries_Suc: "tries svc url clock i (Suc n) d = tries svc url clock (Suc i) n (snd (migrate_db svc url (clock (Suc i)) d))"
  by (induction n) simp_all

lemma outcome_Suc:
  "outcome svc url clock i (Suc n) d = outcome svc url clock (Suc i) n (snd (migrate_db svc url (clock (Suc i)) d))"
  by (simp only: outcome_def tries_Suc add_Suc add_Suc_right)

lemma wait_loop_attempts:
  assumes "wait_loop svc url cancelled clock left (Suc i) e0 d = (r, d')"
  shows "\<exists>n \<le> left. d' = tries svc url clock i n d \<and>
    (\<forall>k. Suc k < n \<longrightarrow> outcome svc url clock i k d \<noteq> None \<and> \<not> cancelled (Suc (i + k))) \<and>
    (case r of
       WaitReady \<Rightarrow> \<exists>k. n = Suc k \<and> outcome svc url clock i k d = None
     | WaitCancelled \<Rightarrow> \<exists>k. n = Suc k \<and> outcome svc url clock i k d \<noteq> None \<and> cancelled (Suc (i + k))
     | WaitExhausted e \<Rightarrow> n = left \<and> (if left = 0 then e = e0
         else e \<noteq> None \<and> e = outcome svc url clock i (left - 1) d \<and> \<not> cancelled (i + left)))"
  using assms
proof (induction left arbitrary: i e0 d)
  case (Suc left)
  obtain o1 d1 where m: "migrate_db svc url (clock (Suc i)) d = (o1, d1)" by fastforce
  have o0: "outcome svc url clock i 0 d = o1" and t1: "tries svc url clock i (Suc 0) d = d1" using m by (simp_all add: outcome_def)
  show ?case
  proof (cases "o1 = None \<or> cancelled (Suc i)")
    case True
    then have "(r = WaitReady \<and> o1 = None \<or> r = WaitCancelled \<and> o1 \<noteq> None) \<and> d' = d1"
      using Suc.prems m by (cases o1) auto
    then show ?thesis using True o0 t1 by (intro exI [of _ "Suc 0"]) auto
  next
    case False
    then obtain e1 where e1: "o1 = Some e1" "\<not> cancelled (Suc i)" by (cases o1) auto
    then have "wait_loop svc url cancelled clock left (Suc (Suc i)) (Some e1) d1 = (r, d')" using Suc.prems m by simp
    from Suc.IH [OF this] obtain n where n: "n \<le> left" "d' = tries svc url clock (Suc i) n d1"
      "\<forall>k. Suc k < n \<longrightarrow> outcome svc url clock (Suc i) k d1 \<noteq> None \<and> \<not> cancelled (Suc (Suc i + k))"
      "case r of
         WaitReady \<Rightarrow> \<exists>k. n = Suc k \<and> outcome svc url clock (Suc i) k d1 = None
       | WaitCancelled \<Rightarrow> \<exists>k. n = Suc k \<and> outcome svc url clock (Suc i) k d1 \<noteq> None \<and> cancelled (Suc (Suc i + k))
       | WaitExhausted e \<Rightarrow> n = left \<and> (if left = 0 then e = Some e1
           else e \<noteq> None \<and> e = outcome svc url clock (Suc i) (left - 1) d1 \<and> \<not> cancelled (Suc i + left))" by blast
    have oS: "outcome svc url clock i (Suc k) d = outcome svc url clock (Suc i) k d1" for k using outcome_Suc m by simp
    have tS: "tries svc url clock i (Suc n) d = d'" using tries_Suc m n(2) by simp
    have early: "\<forall>k. Suc k < Suc n \<longrightarrow> outcome svc url clock i k d \<noteq> None \<and> \<not> cancelled (Suc (i + k))"
    proof (intro allI impI)
      fix k assume "Suc k < Suc n"
      then show "outcome svc url clock i k d \<noteq> None \<and> \<not> cancelled (Suc (i + k))"
        using n(3) e1 o0 oS by (cases k) auto
    qed
    show ?thesis
    proof (intro exI [of _ "Suc n"] conjI)
      show "Suc n \<le> Suc left" "d' = tries svc url clock i (Suc n) d" using n(1) tS by simp_all
      show "\<forall>k. Suc k < Suc n \<longrightarrow> outcome svc url clock i k d \<noteq> None \<and> \<not> cancelled (Suc (i + k))" by (rule early)
    next
      show "case r of
         WaitReady \<Rightarrow> \<exists>k. Suc n = Suc k \<and> outcome svc url clock i k d = None
       | WaitCancelled \<Rightarrow> \<exists>k. Suc n = Suc k \<and> outcome svc url clock i k d \<noteq> None \<and> cancelled (Suc (i + k))
       | WaitExhausted e \<Rightarrow> Suc n = Suc left \<and> (if Suc left = 0 then e = e0
           else e \<noteq> None \<and> e = outcome svc url clock i (Suc left - 1) d \<and> \<not> cancelled (i + Suc left))"
        using n(4) e1 o0 oS by (cases r; cases left) (auto simp: oS)
    qed
  qed
qed (auto split: wait_result.split)
text \<open>
  C34. The start waits for the database for at most fifteen attempts to migrate it, and
  does nothing else to it. It goes on exactly when one of them succeeds before the process is told
  to stop; it gives up, with the error of the last attempt, only after all fifteen failed.
\<close>

theorem wait_for_db_attempts:
  assumes "wait_for_db svc url cancelled clock d = (r, d')"
  shows "(r = WaitReady \<longleftrightarrow> (\<exists>k < 15. outcome svc url clock 0 k d = None \<and>
      (\<forall>j < k. outcome svc url clock 0 j d \<noteq> None \<and> \<not> cancelled (Suc j)))) \<and>
    (\<exists>n \<le> 15. d' = tries svc url clock 0 n d) \<and>
    (r = WaitCancelled \<longrightarrow> (\<exists>k < 15. outcome svc url clock 0 k d \<noteq> None \<and> cancelled (Suc k))) \<and>
    (\<forall>e. r = WaitExhausted e \<longrightarrow> e = outcome svc url clock 0 14 d \<and>
      (\<forall>k < 15. outcome svc url clock 0 k d \<noteq> None \<and> \<not> cancelled (Suc k)))"
proof -
  let ?o = "\<lambda>k. outcome svc url clock 0 k d"
  have "wait_loop svc url cancelled clock 15 (Suc 0) None d = (r, d')"
    using assms by (simp add: wait_for_db_def max_attempts_def del: wait_loop.simps)
  note w = wait_loop_attempts [OF this]
  then obtain n where n: "n \<le> 15" "d' = tries svc url clock 0 n d"
    "\<forall>k. Suc k < n \<longrightarrow> ?o k \<noteq> None \<and> \<not> cancelled (Suc (0 + k))"
    "case r of WaitReady \<Rightarrow> \<exists>k. n = Suc k \<and> ?o k = None
       | WaitCancelled \<Rightarrow> \<exists>k. n = Suc k \<and> ?o k \<noteq> None \<and> cancelled (Suc (0 + k))
       | WaitExhausted e \<Rightarrow> n = 15 \<and> (if (15 :: nat) = 0 then e = None
           else e \<noteq> None \<and> e = ?o (15 - 1) \<and> \<not> cancelled (0 + 15))" by blast
  have stop: "\<not> (\<exists>k < 15. ?o k = None \<and> (\<forall>j < k. ?o j \<noteq> None \<and> \<not> cancelled (Suc j)))"
    if "n = Suc m" "?o m \<noteq> None" "cancelled (Suc m) \<or> m = 14" for m
  proof (intro notI, elim exE conjE)
    fix k assume k: "k < 15" "?o k = None" "\<forall>j < k. ?o j \<noteq> None \<and> \<not> cancelled (Suc j)"
    then have "\<not> m < k" using that(3) by auto
    moreover have "\<not> k < m" using n(3) k(2) that(1) by auto
    ultimately show False using k(2) that(2) by (metis linorder_neqE_nat)
  qed
  show ?thesis
  proof (cases r)
    case WaitReady
    then obtain k where "n = Suc k" "?o k = None" using n(4) by auto
    then have "k < 15 \<and> ?o k = None \<and> (\<forall>j < k. ?o j \<noteq> None \<and> \<not> cancelled (Suc j))" using n(1,3) by simp
    moreover have "\<exists>n \<le> 15. d' = tries svc url clock 0 n d" using n(1,2) by blast
    ultimately show ?thesis using WaitReady by blast
  next
    case WaitCancelled
    then obtain k where k: "n = Suc k" "?o k \<noteq> None" "cancelled (Suc k)" using n(4) by auto
    have "k < 15 \<and> ?o k \<noteq> None \<and> cancelled (Suc k)" using k n(1) by simp
    moreover have "\<exists>n \<le> 15. d' = tries svc url clock 0 n d" using n(1,2) by blast
    ultimately show ?thesis using WaitCancelled stop [of k] k by blast
  next
    case (WaitExhausted e)
    have "n = 15 \<and> e \<noteq> None \<and> e = ?o 14 \<and> \<not> cancelled 15" using n(4)
      by (simp add: WaitExhausted del: not_None_eq) metis
    then have e: "n = 15" "e \<noteq> None" "e = ?o 14" "\<not> cancelled 15" by blast+
    have "\<not> (\<exists>k < 15. ?o k = None \<and> (\<forall>j < k. ?o j \<noteq> None \<and> \<not> cancelled (Suc j)))"
      using stop [of 14] e by simp
    moreover have "?o k \<noteq> None \<and> \<not> cancelled (Suc k)" if "k < 15" for k
      using n(3) e that by (cases "k = 14") auto
    ultimately show ?thesis using WaitExhausted n(2) e by auto
  qed
qed

section \<open>The first account\<close>

lemma bootstrap_create_cases:
  assumes "bootstrap_create bc cfg salt now p = (res, p')"
  obtains (no_hash) "res = Inl BootHash" "p' = p"
  | (failed) h e where "create_user now (cfg_bootstrap_email cfg) h p = (Inl e, p')" "res = Inl (BootCreate e)"
  | (created) h u where "bc_generate bc salt (cfg_bootstrap_password cfg) = Some h"
      "create_user now (cfg_bootstrap_email cfg) h p = (Inr u, p')" "res = Inr True"
  using assms
  by (auto simp: bootstrap_create_def hash_password_def split: option.splits prod.splits sum.splits)

lemma bootstrap_check_same:
  "bootstrap_check cfg p = (res, p') \<Longrightarrow> same_tables p p' \<and>
     (\<forall>go. res = Inr go \<longrightarrow> (go \<longleftrightarrow> cfg_bootstrap_email cfg \<noteq> [] \<and> cfg_bootstrap_password cfg \<noteq> [] \<and> pg_users p = []))"
  using count_users_same [of p]
  by (cases "count_users p") (auto simp: bootstrap_check_def split: if_splits sum.splits)

text \<open>
  C17. Creating the first account: it happens exactly when both variables are set and the
  table of users is empty, and otherwise changes no table. The account that was created is the
  only one, and its email and password, as they stand in the environment, log in. A process that
  had counted the users of the empty table as well then fails to create its own.
\<close>

theorem bootstrap_first_account:
  assumes "bcrypt_ok bc" "pg_wf p" "bootstrap_admin bc cfg salt now p = (Inr made, p1)"
  shows "(made \<longleftrightarrow> cfg_bootstrap_email cfg \<noteq> [] \<and> cfg_bootstrap_password cfg \<noteq> [] \<and> pg_users p = []) \<and>
    (\<not> made \<longrightarrow> same_tables p p1) \<and>
    (made \<longrightarrow> (\<exists>u. pg_users p1 = [u] \<and> usr_email u = cfg_bootstrap_email cfg) \<and>
      (pg_faults p1 = [] \<and> hash_id sha (b64_rawurl_encode buf) \<notin> ses_hash ` set (pg_sessions p1) \<longrightarrow>
        fst (fst (login bc sha ttl at (Some buf) (cfg_bootstrap_email cfg) (cfg_bootstrap_password cfg) p1)) =
          Inr (b64_rawurl_encode buf)) \<and>
      (\<exists>e. fst (bootstrap_create bc cfg salt' now' p1) = Inl e))"
proof -
  obtain rc p0 where c: "bootstrap_check cfg p = (rc, p0)" by fastforce
  have same: "same_tables p p0" using bootstrap_check_same [OF c] by blast
  obtain go where go: "rc = Inr go" using assms(3) c by (cases rc) (auto simp: bootstrap_admin_def)
  have iff: "go \<longleftrightarrow> cfg_bootstrap_email cfg \<noteq> [] \<and> cfg_bootstrap_password cfg \<noteq> [] \<and> pg_users p = []"
    using bootstrap_check_same [OF c] go by blast
  show ?thesis
  proof (cases go)
    case False
    then have "\<not> made" "p1 = p0" using assms(3) c go by (simp_all add: bootstrap_admin_def)
    then show ?thesis using same iff False by auto
  next
    case True
    then have b: "bootstrap_create bc cfg salt now p0 = (Inr made, p1)" using assms(3) c go by (simp add: bootstrap_admin_def)
    then obtain h u where u: "bc_generate bc salt (cfg_bootstrap_password cfg) = Some h"
      "create_user now (cfg_bootstrap_email cfg) h p0 = (Inr u, p1)" "made"
      by (cases rule: bootstrap_create_cases) auto
    note cu = create_user_Inr [OF u(2)]
    have empty: "pg_users p = []" using iff True by simp
    then have users: "pg_users p1 = [u]" "usr_email u = cfg_bootstrap_email cfg"
      using cu same same_tablesD [of p p0] by simp_all
    have "pg_steps p0 p1" using steps_step [OF steps_refl st_create_user] u(2) by (metis snd_conv)
    moreover have "pg_wf p0" using same assms(2) by (auto simp: same_tables_def)
    ultimately have wf: "pg_wf p1" using pg_steps_wf by blast
    have "bc_compare bc (usr_pwhash u) (cfg_bootstrap_password cfg)" using assms(1) u(1) cu by (auto simp: bcrypt_ok_def)
    then have log: "fst (fst (login bc sha ttl at (Some buf) (cfg_bootstrap_email cfg) (cfg_bootstrap_password cfg) p1)) =
        Inr (b64_rawurl_encode buf)"
      if "pg_faults p1 = []" "hash_id sha (b64_rawurl_encode buf) \<notin> ses_hash ` set (pg_sessions p1)"
      using login_works [OF wf that(1), of u] users that(2) by simp
    have "\<exists>e. fst (bootstrap_create bc cfg salt' now' p1) = Inl e"
    proof -
      obtain r2 p2 where b2: "bootstrap_create bc cfg salt' now' p1 = (r2, p2)" by fastforce
      then show ?thesis
      proof (cases rule: bootstrap_create_cases)
        case (created h2 u2)
        then show ?thesis using create_user_Inr [OF created(2)] users by simp
      qed (use b2 in simp_all)
    qed
    then show ?thesis using u(3) iff True users log by simp
  qed
qed

section \<open>From the start on\<close>

lemma fresh_settings_restartable: "restartable d (migrated_pg now faults)"
  by (simp add: restartable_def migrated_pg_def seeded_settings_def decrypt_settings_def decrypt_field_def flags_ok_def)

lemma migrated_wf: "pg_wf (migrated_pg now faults)"
  using pg_reach_wf reach_init by blast

text \<open>A database whose schema exists is in order; migrating keeps it so.\<close>

definition db_sound :: "('s, 'g, 'l) admin_deps \<Rightarrow> database \<Rightarrow> bool" where
  "db_sound d db \<longleftrightarrow> db_fresh db \<or> pg_wf (db_pg db) \<and> restartable d (db_pg db)"

lemma migrate_sound:
  assumes "migrate_db svc url now db = (r, db')" "db_sound d db"
  shows "db_sound d db' \<and> (r = None \<longrightarrow> \<not> db_fresh db')"
  using assms fresh_settings_restartable [of d now "db_faults db"] migrated_wf [of now "db_faults db"]
  by (auto simp: migrate_db_def migrate_up_def db_sound_def Let_def split: if_splits)

lemma wait_sound:
  assumes "wait_loop svc url cancelled clock left i e0 db = (r, db')" "db_sound d db"
  shows "db_sound d db' \<and> (r = WaitReady \<longrightarrow> \<not> db_fresh db')"
  using assms
proof (induction left arbitrary: i e0 db)
  case (Suc left)
  obtain o1 db1 where m: "migrate_db svc url (clock i) db = (o1, db1)" by fastforce
  note s = migrate_sound [OF m Suc.prems(2)]
  show ?case
  proof (cases o1)
    case None
    then show ?thesis using Suc.prems(1) m s by simp
  next
    case (Some e)
    then show ?thesis using Suc.prems(1) m s Suc.IH [of "i + 1" "Some e" db1] by (auto split: if_splits)
  qed
qed auto

lemma bootstrap_quiet:
  assumes "bootstrap_admin bc cfg salt now p = (r, p')"
  shows "quiet_steps p p'"
proof -
  obtain rc p1 where c: "bootstrap_check cfg p = (rc, p1)" by fastforce
  have 1: "quiet_steps p p1"
    using c by (auto simp: bootstrap_check_def quiet_steps_refl split: if_splits prod.splits sum.splits intro: op_quiet)
  have 2: "quiet_steps p1 p2" if "bootstrap_create bc cfg salt now p1 = (x, p2)" for x p2
    using that by (cases rule: bootstrap_create_cases) (auto simp: quiet_steps_refl intro: op_quiet)
  show ?thesis
  proof (cases "rc = Inr True")
    case True
    then show ?thesis using assms c quiet_steps_trans [OF 1 2] by (simp add: bootstrap_admin_def)
  next
    case False
    then have "p' = p1" using assms c by (cases rc) (auto simp: bootstrap_admin_def)
    then show ?thesis using 1 by simp
  qed
qed

lemma run_server_Inr:
  assumes "run_server d svc si db = (Inr (d', cfg, a0), db')"
  obtains enc db1 db2 p made a1 where "d' = start_deps d enc cfg" "a0 = new_admin a1"
    "wait_for_db svc (cfg_database_url cfg) (si_cancelled si) (si_clock si) db = (WaitReady, db1)"
    "connect_db svc (cfg_database_url cfg) db1 = (None, db2)"
    "bootstrap_admin (dp_bcrypt d) cfg (si_salt si) (si_boot_now si) (db_pg db2) = (Inr made, p)"
    "load_settings (dp_apis d) (dp_cipher d) enc (unloaded (si_media si) p) = (Inr (), a1)"
  using assms
  by (auto simp: run_server_def Let_def split: sum.splits prod.splits option.splits if_splits)

lemma load_live_ok:
  assumes "load_settings (dp_apis d) (dp_cipher d) enc a = (Inr (), a1)"
    and "dp_apis d' = dp_apis d" "dp_cipher d' = dp_cipher d" "dp_enc d' = enc" "restartable d' (app_pg a)"
  shows "live_ok d' a1"
  using assms(1)
proof (cases rule: load_cases)
  case (loaded s b m)
  then have "flags_ok s" using assms(3-5) by (auto simp: restartable_def)
  then show ?thesis using loaded assms(2) by (auto simp: live_ok_def live_def)
qed simp_all

lemma start_inv:
  assumes "run_server d svc si db = (Inr (d', cfg, a0), db')" "db_sound d' db"
  shows "server_inv d' a0"
proof -
  obtain enc db1 db2 p made a1 where s: "d' = start_deps d enc cfg" "a0 = new_admin a1"
    "wait_for_db svc (cfg_database_url cfg) (si_cancelled si) (si_clock si) db = (WaitReady, db1)"
    "connect_db svc (cfg_database_url cfg) db1 = (None, db2)"
    "bootstrap_admin (dp_bcrypt d) cfg (si_salt si) (si_boot_now si) (db_pg db2) = (Inr made, p)"
    "load_settings (dp_apis d) (dp_cipher d) enc (unloaded (si_media si) p) = (Inr (), a1)"
    by (rule run_server_Inr [OF assms(1)])
  have deps: "dp_apis d' = dp_apis d" "dp_cipher d' = dp_cipher d" "dp_enc d' = enc" by (simp_all add: s(1) start_deps_def)
  from wait_sound [OF s(3) [unfolded wait_for_db_def] assms(2)] have "db_sound d' db1" "\<not> db_fresh db1" by simp_all
  moreover have "db_pg db2 = db_pg db1" "db_fresh db2 = db_fresh db1"
    using s(4) by (auto simp: connect_db_def Let_def split: if_splits)
  ultimately have "pg_wf (db_pg db2)" "restartable d' (db_pg db2)" by (simp_all add: db_sound_def)
  moreover have q: "quiet_steps (db_pg db2) p" by (rule bootstrap_quiet [OF s(5)])
  ultimately have p: "pg_wf p" "restartable d' p"
    using pg_steps_wf restartable_config unfolding quiet_steps_def by blast+
  have st: "same_tables p (app_pg a1)" using load_pg [OF s(6)] by (simp add: unloaded_def)
  show ?thesis
    using load_live_ok [OF s(6), of d'] p st unfolding s(2)
    by (auto simp: server_inv_def new_admin_def deps unloaded_def same_tables_def restartable_def)
qed

lemma run_inv:
  assumes "server_run d ui a0 a" "cipher_ok (dp_cipher d)" "server_inv d a0"
  shows "server_inv d a"
  using assms by (induction rule: server_run.induct) (use inv_step in blast)+

text \<open>
  C5. From the start on: when the process comes up on a new database, or on one that is
  in order and whose settings decrypt under the key of the environment, then in every state the
  server reaches from there, whatever requests, tasks, sweeps and lost database connections there
  were, the constraints of the database hold; the session lifetime, the size limit and the backend
  in use are those of the settings shown; the flags say which secrets are set; and the stored
  settings decrypt under the server's key, so that it can be started again.
\<close>

theorem server_invariants:
  assumes "cipher_ok (dp_cipher d)"
    and "run_server d svc si db = (Inr (d', cfg, a0), db')"
    and "db_fresh db \<or> pg_wf (db_pg db) \<and> restartable d' (db_pg db)"
    and "server_run d' ui a0 a"
  shows "pg_wf (ad_pg a) \<and> app_ttl (ad_app a) = se_ttl (app_settings (ad_app a)) \<and>
    app_max (ad_app a) = se_max (app_settings (ad_app a)) \<and> flags_ok (app_settings (ad_app a)) \<and>
    (\<exists>m. fst (build_backend (dp_apis d') (app_settings (ad_app a)) m) = Inr (app_backend (ad_app a))) \<and>
    (\<exists>s. decrypt_settings (dp_cipher d') (dp_enc d') (pg_settings (ad_pg a)) = Some s \<and> flags_ok s)"
proof -
  have "dp_cipher d' = dp_cipher d" by (rule run_server_Inr [OF assms(2)]) (simp add: start_deps_def)
  then have "server_inv d' a"
    using run_inv [OF assms(4)] start_inv [OF assms(2)] assms(1,3) by (simp add: db_sound_def)
  then show ?thesis by (simp add: server_inv_def live_ok_def restartable_def)
qed

end
