(* ===== verification/ProcessProps.thy ===== *)
theory ProcessProps
  imports StartupProps
begin

text \<open>
  The process as a whole: that it comes up when the services it needs answer, on a new database and
  on one an earlier process has left, and what its exit code says.
\<close>

section \<open>Coming up\<close>

text \<open>
  A database whose next attempts to migrate fail \<open>k\<close> times, a pool that takes the URL, and a first
  ping that is answered.
\<close>

definition db_answers :: "db_service \<Rightarrow> string \<Rightarrow> (nat \<Rightarrow> bool) \<Rightarrow> nat \<Rightarrow> database \<Rightarrow> bool" where
  "db_answers svc url cancelled k db \<longleftrightarrow>
     ds_source svc \<and> ds_opens svc (migrate_url url) \<and> ds_pool svc url \<and>
     k = length (takeWhile Not (db_ups db)) \<and> list_all (\<lambda>i. \<not> cancelled (Suc i)) [0..<k] \<and>
     (db_pings db = [] \<or> hd (db_pings db))"

definition migrated :: "time \<Rightarrow> database \<Rightarrow> database" where
  "migrated now db =
     (if db_fresh db then db\<lparr>db_fresh := False, db_pg := migrated_pg now (db_faults db)\<rparr> else db)"

lemma wait_ready:
  assumes "ds_source svc" "ds_opens svc (migrate_url url)" "length (takeWhile Not (db_ups db)) < left"
    and "\<And>j. j < length (takeWhile Not (db_ups db)) \<Longrightarrow> \<not> cancelled (i + j)"
  shows "\<exists>now ups. wait_loop svc url cancelled clock left i e0 db = (WaitReady, migrated now (db\<lparr>db_ups := ups\<rparr>))"
  using assms(3,4)
proof (induction left arbitrary: i e0 db)
  case (Suc left)
  show ?case
  proof (cases "db_ups db \<noteq> [] \<and> \<not> hd (db_ups db)")
    case True
    then obtain us where us: "db_ups db = False # us" by (cases "db_ups db") auto
    then have m: "migrate_db svc url (clock i) db = (Some MigUp, db\<lparr>db_ups := us\<rparr>)"
      using assms(1,2) by (simp add: migrate_db_def migrate_up_def)
    have "\<not> cancelled (i + 1 + j)" if "j < length (takeWhile Not us)" for j
      using Suc.prems(2) [of "Suc j"] us that by simp
    then obtain now ups where "wait_loop svc url cancelled clock left (i + 1) (Some MigUp) (db\<lparr>db_ups := us\<rparr>) =
        (WaitReady, migrated now (db\<lparr>db_ups := us\<rparr>\<lparr>db_ups := ups\<rparr>))"
      using Suc.IH [of "db\<lparr>db_ups := us\<rparr>" "i + 1" "Some MigUp"] Suc.prems(1) us by auto
    moreover have "\<not> cancelled i" using Suc.prems(2) [of 0] us by simp
    ultimately show ?thesis using m by auto
  next
    case False
    then have "migrate_db svc url (clock i) db = (None, migrated (clock i) (db\<lparr>db_ups := drop 1 (db_ups db)\<rparr>))"
      using assms(1,2) by (auto simp: migrate_db_def migrate_up_def migrated_def Let_def)
    then show ?thesis by auto
  qed
qed simp

lemma comes_up:
  assumes "db_answers svc url cancelled k db" "k < 15"
  obtains now ups pings where
    "wait_for_db svc url cancelled clock db = (WaitReady, migrated now (db\<lparr>db_ups := ups\<rparr>))"
    "connect_db svc url (migrated now (db\<lparr>db_ups := ups\<rparr>)) =
       (None, migrated now (db\<lparr>db_ups := ups, db_pings := pings\<rparr>))"
proof -
  have "\<not> cancelled (1 + j)" if "j < k" for j using assms(1) that by (simp add: db_answers_def list_all_iff)
  then obtain now ups where w: "wait_loop svc url cancelled clock 15 1 None db = (WaitReady, migrated now (db\<lparr>db_ups := ups\<rparr>))"
    using wait_ready [of svc url db 15 cancelled 1 clock None] assms by (auto simp: db_answers_def)
  show ?thesis
  proof (rule that)
    show "wait_for_db svc url cancelled clock db = (WaitReady, migrated now (db\<lparr>db_ups := ups\<rparr>))"
      using w unfolding wait_for_db_def max_attempts_def .
    show "connect_db svc url (migrated now (db\<lparr>db_ups := ups\<rparr>)) =
       (None, migrated now (db\<lparr>db_ups := ups, db_pings := drop 1 (db_pings db)\<rparr>))"
      using assms(1) by (auto simp: connect_db_def db_answers_def migrated_def Let_def)
  qed
qed

text \<open>With a backend that can be built from the stored settings, loading succeeds.\<close>

lemma load_works:
  assumes "pg_faults (app_pg a) = []" "decrypt_settings ci e (pg_settings (app_pg a)) = Some s"
    and "fst (build_backend apis s (app_media a)) = Inr b"
  obtains a1 where "load_settings apis ci e a = (Inr (), a1)" "live a1 = (b, se_ttl s, se_max s, s)"
    "app_pg a1 = app_pg a"
proof -
  have g: "app_on_pg get_settings a = (Inr (pg_settings (app_pg a)), a)"
    using assms(1) by (simp add: app_on_pg_eq get_settings_def plain_result_def)
  obtain m where "build_backend apis s (app_media a) = (Inr b, m)" using assms(3) by (metis prod.collapse)
  then obtain a2 where b: "app_on_media (build_backend apis s) a = (Inr b, a2)" by (auto simp: app_on_media_eq)
  have "load_settings apis ci e a = (Inr (), go_live b s a2)"
    using assms(2) g b by (simp add: load_settings_def)
  then show ?thesis using that app_on_media_live [OF b] by (simp add: go_live_live)
qed

text \<open>The start goes through once the first account is dealt with and the backend can be built.\<close>

lemma run_server_works:
  assumes "from_env (si_env si) = Inr cfg" "new_encryptor (cfg_key cfg) = Inr enc"
    and "db_answers svc (cfg_database_url cfg) (si_cancelled si) k db" "k < 15"
    and "\<And>now. bootstrap_admin (dp_bcrypt d) cfg (si_salt si) (si_boot_now si) (db_pg (migrated now db)) =
      (Inr made, p now) \<and> pg_faults (p now) = [] \<and>
      decrypt_settings (dp_cipher d) enc (pg_settings (p now)) = Some (s now) \<and>
      fst (build_backend (dp_apis d) (s now) (si_media si)) = Inr (b now)"
  obtains now a db' where "run_server d svc si db = (Inr (start_deps d enc cfg, cfg, new_admin a), db')"
    "live a = (b now, se_ttl (s now), se_max (s now), s now)" "app_pg a = p now"
proof -
  obtain now ups pings where w:
    "wait_for_db svc (cfg_database_url cfg) (si_cancelled si) (si_clock si) db = (WaitReady, migrated now (db\<lparr>db_ups := ups\<rparr>))"
    "connect_db svc (cfg_database_url cfg) (migrated now (db\<lparr>db_ups := ups\<rparr>)) =
       (None, migrated now (db\<lparr>db_ups := ups, db_pings := pings\<rparr>))"
    by (rule comes_up [OF assms(3,4)])
  have pg: "db_pg (migrated now (db\<lparr>db_ups := ups, db_pings := pings\<rparr>)) = db_pg (migrated now db)"
    by (simp add: migrated_def)
  note l = assms(5) [of now]
  have "app_media (unloaded (si_media si) (p now)) = si_media si" "app_pg (unloaded (si_media si) (p now)) = p now"
    by (simp_all add: unloaded_def app_media_def new_dynamic_def)
  then obtain a1 where a1: "load_settings (dp_apis d) (dp_cipher d) enc (unloaded (si_media si) (p now)) = (Inr (), a1)"
    "live a1 = (b now, se_ttl (s now), se_max (s now), s now)" "app_pg a1 = p now"
    using load_works [of "unloaded (si_media si) (p now)" "dp_cipher d" enc "s now" "dp_apis d" "b now"] l by auto
  show ?thesis
  proof (rule that [OF _ a1(2,3)])
    show "run_server d svc si db = (Inr (start_deps d enc cfg, cfg, new_admin a1),
        (migrated now (db\<lparr>db_ups := ups, db_pings := pings\<rparr>))\<lparr>db_pg := app_pg a1\<rparr>)"
      using a1(1) assms(1,2) w l pg by (simp add: run_server_def dist_fs_eq)
  qed
qed


section \<open>The first start\<close>

definition default_settings :: "time \<Rightarrow> settings" where
  "default_settings now =
     \<lparr>se_backend = storage_local, se_local_dir = ''./data'', se_s3_bucket = [], se_s3_region = [], se_s3_prefix = [],
      se_s3_endpoint = [], se_s3_path_style = False, se_s3_key = [], se_s3_key_set = False, se_s3_secret = [],
      se_s3_secret_set = False, se_gcs_bucket = [], se_gcs_prefix = [], se_gcs_creds = [], se_gcs_creds_set = False,
      se_ttl = 86400 * nano_second, se_max = 524288000, se_updated_at = now, se_updated_by = None\<rparr>"

lemma decrypt_default: "decrypt_settings ci e (seeded_settings now) = Some (default_settings now)"
proof -
  have "dur_mul 86400 nano_second = 86400 * nano_second" by code_simp
  then show ?thesis
    by (simp add: default_settings_def seeded_settings_def decrypt_settings_def decrypt_field_def)
qed

lemma build_default:
  assumes "fst (os_mkdir_all ''./data'' (md_fs m)) = Inr ()"
  shows "fst (build_backend apis (default_settings now) m) = Inr (BLocal \<lparr>l_dir = ''./data''\<rparr>)"
proof -
  obtain g where "os_mkdir_all ''./data'' (md_fs m) = (Inr (), g)" using assms by (metis prod.collapse)
  then have "on_local_fs (new_local ''./data'') m = (Inr \<lparr>l_dir = ''./data''\<rparr>, m\<lparr>md_fs := g\<rparr>)"
    by (simp add: on_local_fs_def lift_state_eq new_local_def)
  then show ?thesis
    by (simp add: build_backend_def default_settings_def storage_local_def storage_s3_def storage_gcs_def)
qed

lemma first_account:
  assumes "cfg_bootstrap_email cfg \<noteq> []" "cfg_bootstrap_password cfg \<noteq> []"
    and "bc_generate bc salt (cfg_bootstrap_password cfg) = Some h"
  shows "\<exists>p u. bootstrap_admin bc cfg salt at (migrated_pg now []) = (Inr True, p) \<and> pg_faults p = [] \<and>
    pg_settings p = seeded_settings now \<and> pg_users p = [u] \<and> usr_email u = cfg_bootstrap_email cfg \<and>
    usr_pwhash u = h \<and> pg_sessions p = []"
  using assms
  by (simp add: bootstrap_admin_def bootstrap_check_def bootstrap_create_def hash_password_def count_users_def
      create_user_def q_create_user_def migrated_pg_def plain_result_def conflict_result_def Let_def)


lemma login_faults:
  assumes "login bc sha ttl now rnd email password p = (r, p')" "pg_faults p = []"
  shows "pg_faults p' = []"
  using assms
  by (auto simp: login_def get_user_by_email_def create_session_def q_create_session_def pg_call_def map_prod_def
      split: sum.splits store_err.splits if_splits option.splits prod.splits)

text \<open>A login request for an account of a server without sessions.\<close>

lemma login_request_works:
  assumes "pg_wf (ad_pg a)" "pg_faults (ad_pg a) = []" "pg_sessions (ad_pg a) = []" "u \<in> set (pg_users (ad_pg a))"
    and "bc_compare (dp_bcrypt d) (usr_pwhash u) pw" "ad_limits a = []"
    and "hq_segs q = [''admin'', ''api'', ''auth'', ''login'']" "aq_meth (hq_admin q) = ''POST''"
    and "decode_login (aq_body (hq_admin q)) = Some \<lparr>lr_email = usr_email u, lr_password = pw\<rparr>"
    and "aq_rnd (hq_admin q) = Some buf" "buf \<noteq> []"
    and "fst (rl_allow (dp_rate d) (aq_now (hq_admin q)) (rl_new (dp_rate d) login_interval login_burst))"
  obtains r l a' where "main_serve d ui q a = Some ((r, l), a')" "rs_status r = 200"
    "rs_cookies r = [session_cookie (dp_cookie_secure d) (app_ttl (ad_app a)) (b64_rawurl_encode buf)]"
    "\<And>at. at < aq_now (hq_admin q) + app_ttl (ad_app a) \<Longrightarrow>
       fst (current_user (dp_sha d) at (b64_rawurl_encode buf) (ad_pg a')) = Inr u"
proof -
  have at: "main_route ''POST'' [''admin'', ''api'', ''auth'', ''login''] = MtAdmin" by code_simp
  have at2: "admin_route (ui \<noteq> None) ''POST'' [''admin'', ''api'', ''auth'', ''login''] = AtLogin"
    by (simp add: admin_route_def admin_patterns_def)
  obtain limits where lim: "limiter_allow (dp_rate d) (client_ip (aq_remote (hq_admin q))) (aq_now (hq_admin q)) (ad_limits a) = (True, limits)"
    using assms(6,12)
    by (cases "rl_allow (dp_rate d) (aq_now (hq_admin q)) (rl_new (dp_rate d) login_interval login_burst)")
       (auto simp: limiter_allow_def)
  let ?p = "ad_pg a"
  obtain res cmp p' where l: "login (dp_bcrypt d) (dp_sha d) (app_ttl (ad_app a)) (aq_now (hq_admin q)) (Some buf)
      (usr_email u) pw ?p = ((res, cmp), p')" by (metis prod.collapse)
  then have raw: "res = Inr (b64_rawurl_encode buf)"
    using login_works [OF assms(1,2,4,5), where sha = "dp_sha d" and buf = buf and ttl = "app_ttl (ad_app a)"
      and now = "aq_now (hq_admin q)"] assms(3) by simp
  have pf: "pg_faults p' = []" using login_faults [OF l] assms(2) by simp
  obtain v where v: "v \<in> set (pg_users ?p)" "usr_email v = usr_email u"
    "\<forall>now'. fst (current_user (dp_sha d) now' (b64_rawurl_encode buf) p') =
      (if now' < aq_now (hq_admin q) + app_ttl (ad_app a) then Inr v else Inl StNotFound)"
    using login_resolves [OF assms(1) pf l [unfolded raw]] assms(11) by auto
  have "v = u" using user_email_eq [OF assms(1,4) v(1,2)] .
  let ?a = "put_pg p' (a\<lparr>ad_limits := limits\<rparr>)"
  have h: "handle_login d (hq_admin q) a =
      (status_ok\<lparr>rs_cookies := [session_cookie (dp_cookie_secure d) (app_ttl (ad_app a)) (b64_rawurl_encode buf)]\<rparr>, ?a)"
    using lim l raw assms(9,10) by (simp add: handle_login_def)
  have "admin_serve d ui (hq_segs q) (hq_admin q) a = Some (fst (handle_login d (hq_admin q) a), ?a)"
    using h assms(7,8) at2 by (simp add: admin_serve_def Let_def admin_handler_def head_only_def)
  then show ?thesis
    using that h assms(7,8) at v(3) \<open>v = u\<close>
    by (simp add: main_serve_def Let_def with_logging_def status_ok_def)
qed


text \<open>
  C6. A first start is live. On a new database whose migration succeeds within fifteen attempts, in
  an environment with a database URL, a key of 32 bytes and a first account, and with a data
  directory that can be made, the process comes up and listens; and the first account logs in with
  its password from the environment, is given a cookie for a day, flagged as configured, and is
  behind that cookie for the whole day.
\<close>

theorem fresh_start_serves:
  assumes "bcrypt_ok (dp_bcrypt d)" "from_env (si_env si) = Inr cfg" "new_encryptor (cfg_key cfg) = Inr enc"
    and "db_answers svc (cfg_database_url cfg) (si_cancelled si) k db" "k < 15" "db_fresh db" "db_faults db = []"
    and "cfg_bootstrap_email cfg \<noteq> []" "cfg_bootstrap_password cfg \<noteq> []"
    and "bc_generate (dp_bcrypt d) (si_salt si) (cfg_bootstrap_password cfg) = Some h"
    and "fst (os_mkdir_all ''./data'' (md_fs (si_media si))) = Inr ()"
    and "hq_segs q = [''admin'', ''api'', ''auth'', ''login'']" "aq_meth (hq_admin q) = ''POST''"
    and "decode_login (aq_body (hq_admin q)) =
      Some \<lparr>lr_email = cfg_bootstrap_email cfg, lr_password = cfg_bootstrap_password cfg\<rparr>"
    and "aq_rnd (hq_admin q) = Some buf" "buf \<noteq> []"
    and "fst (rl_allow (dp_rate d) (aq_now (hq_admin q)) (rl_new (dp_rate d) login_interval login_burst))"
  shows "\<exists>a db' r l a' u.
    run_server d svc si db = (Inr (start_deps d enc cfg, cfg, new_admin a), db') \<and>
    main_serve (start_deps d enc cfg) (start_ui si) q (new_admin a) = Some ((r, l), a') \<and> rs_status r = 200 \<and>
    rs_cookies r = [session_cookie (cfg_cookie_secure cfg) (86400 * nano_second) (b64_rawurl_encode buf)] \<and>
    usr_email u = cfg_bootstrap_email cfg \<and>
    (\<forall>at < aq_now (hq_admin q) + 86400 * nano_second.
       fst (current_user (dp_sha d) at (b64_rawurl_encode buf) (ad_pg a')) = Inr u)"
proof -
  let ?boot = "\<lambda>now. bootstrap_admin (dp_bcrypt d) cfg (si_salt si) (si_boot_now si) (migrated_pg now [])"
  note acct = first_account [OF assms(8,9,10), of "si_boot_now si"]
  have boot: "bootstrap_admin (dp_bcrypt d) cfg (si_salt si) (si_boot_now si) (db_pg (migrated now db)) =
      (Inr True, snd (?boot now)) \<and> pg_faults (snd (?boot now)) = [] \<and>
      decrypt_settings (dp_cipher d) enc (pg_settings (snd (?boot now))) = Some (default_settings now) \<and>
      fst (build_backend (dp_apis d) (default_settings now) (si_media si)) = Inr (BLocal \<lparr>l_dir = ''./data''\<rparr>)" for now
    using acct [of now] assms(6,7) build_default [OF assms(11)] decrypt_default
    by (auto simp: migrated_def)
  obtain now a db' where run: "run_server d svc si db = (Inr (start_deps d enc cfg, cfg, new_admin a), db')"
    "live a = (BLocal \<lparr>l_dir = ''./data''\<rparr>, se_ttl (default_settings now), se_max (default_settings now), default_settings now)"
    "app_pg a = snd (?boot now)"
    by (rule run_server_works [OF assms(2-5) boot])
  obtain u where u: "?boot now = (Inr True, app_pg a)" "pg_faults (app_pg a) = []" "pg_users (app_pg a) = [u]"
    "usr_email u = cfg_bootstrap_email cfg" "usr_pwhash u = h" "pg_sessions (app_pg a) = []"
    using acct [of now] run(3) by auto
  have "pg_wf (app_pg a)" using pg_steps_wf [OF _ migrated_wf] bootstrap_quiet [OF u(1)] by (auto simp: quiet_steps_def)
  moreover have "bc_compare (dp_bcrypt d) h (cfg_bootstrap_password cfg)" using assms(1,10) by (auto simp: bcrypt_ok_def)
  moreover have "app_ttl a = 86400 * nano_second" using run(2) by (simp add: live_def default_settings_def)
  ultimately obtain r l a' where "main_serve (start_deps d enc cfg) (start_ui si) q (new_admin a) = Some ((r, l), a')"
    "rs_status r = 200"
    "rs_cookies r = [session_cookie (cfg_cookie_secure cfg) (86400 * nano_second) (b64_rawurl_encode buf)]"
    "\<And>at. at < aq_now (hq_admin q) + 86400 * nano_second \<Longrightarrow>
       fst (current_user (dp_sha d) at (b64_rawurl_encode buf) (ad_pg a')) = Inr u"
    using login_request_works [of "new_admin a" u "start_deps d enc cfg" "cfg_bootstrap_password cfg" q buf "start_ui si"]
      u assms(12-17) by (auto simp: new_admin_def start_deps_def)
  then show ?thesis using run(1) u(4) by blast
qed


section \<open>The next start\<close>

definition event_ok :: "server_event \<Rightarrow> bool" where
  "event_ok ev = (case ev of EvRequest q \<Rightarrow> nonces_ok (aq_nonces (hq_admin q)) | _ \<Rightarrow> True)"

text \<open>The events of a process are a history of the server.\<close>

lemma serve_event_step: "serve_event d ui ev a = Some a' \<Longrightarrow> event_ok ev \<Longrightarrow> server_step d ui a a'"
  by (cases ev) (auto simp: serve_event_def event_ok_def intro: server_step.intros)

lemma server_run_trans: "server_run d ui a1 a2 \<Longrightarrow> server_run d ui a a1 \<Longrightarrow> server_run d ui a a2"
  by (induction rule: server_run.induct) (auto intro: srun_step)

lemma serve_events_run: "serve_events d ui evs a = Some a' \<Longrightarrow> list_all event_ok evs \<Longrightarrow> server_run d ui a a'"
proof (induction evs arbitrary: a)
  case (Cons ev evs)
  then obtain a1 where a1: "serve_event d ui ev a = Some a1" "serve_events d ui evs a1 = Some a'" by (cases "serve_event d ui ev a") auto
  have "server_run d ui a a1" using srun_step [OF srun_refl serve_event_step [OF a1(1)]] Cons.prems(2) by simp
  then show ?case using server_run_trans [OF Cons.IH [OF a1(2)]] Cons.prems(2) by simp
qed (simp add: srun_refl)

text \<open>Whatever becomes of a process, the database it leaves is in order.\<close>

lemma sound_quiet:
  assumes "db_sound d db" "quiet_steps (db_pg db) p"
  shows "db_sound d (db\<lparr>db_pg := p\<rparr>)"
  using assms pg_steps_wf restartable_config unfolding db_sound_def quiet_steps_def by fastforce

lemma sound_tables:
  assumes "db_sound d db" "same_tables (db_pg db) p"
  shows "db_sound d (db\<lparr>db_pg := p\<rparr>)"
  using assms by (auto simp: db_sound_def same_tables_def restartable_def)

lemma run_server_sound:
  assumes "run_server d svc si db = (res, db')" "db_sound d' db"
  shows "db_sound d' db'"
proof (cases "from_env (si_env si)")
  case (Inl e)
  then show ?thesis using assms by (simp add: run_server_def)
next
  case cfg: (Inr cfg)
  show ?thesis
  proof (cases "new_encryptor (cfg_key cfg)")
    case (Inl e)
    then show ?thesis using assms cfg by (simp add: run_server_def)
  next
    case enc: (Inr enc)
    obtain r1 db1 where w: "wait_for_db svc (cfg_database_url cfg) (si_cancelled si) (si_clock si) db = (r1, db1)" by fastforce
    have 1: "db_sound d' db1" using wait_sound [OF w [unfolded wait_for_db_def] assms(2)] by blast
    obtain r2 db2 where c: "connect_db svc (cfg_database_url cfg) db1 = (r2, db2)" by fastforce
    then have 2: "db_sound d' db2" using 1 by (auto simp: connect_db_def Let_def db_sound_def split: if_splits)
    obtain r3 p where b: "bootstrap_admin (dp_bcrypt d) cfg (si_salt si) (si_boot_now si) (db_pg db2) = (r3, p)" by fastforce
    have 3: "db_sound d' (db2\<lparr>db_pg := p\<rparr>)" by (rule sound_quiet [OF 2 bootstrap_quiet [OF b]])
    obtain r4 a where l: "load_settings (dp_apis d) (dp_cipher d) enc (unloaded (si_media si) p) = (r4, a)" by fastforce
    have 4: "db_sound d' (db2\<lparr>db_pg := app_pg a\<rparr>)"
      using sound_tables [OF 3, of "app_pg a"] load_pg [OF l] by (simp add: unloaded_def)
    show ?thesis
      using assms(1) cfg enc w c b l 1 2 3 4
      by (auto simp: run_server_def Let_def dist_fs_eq split: if_splits option.splits sum.splits)
  qed
qed

lemma run_all_sound:
  assumes "run_all d svc hv si evs db = Some (res, db')" "list_all event_ok evs" "cipher_ok (dp_cipher d)"
    and "from_env (si_env si) = Inr cfg" "new_encryptor (cfg_key cfg) = Inr enc" "db_sound (start_deps d enc cfg) db"
  shows "db_sound (start_deps d enc cfg) db'"
proof -
  let ?d = "start_deps d enc cfg"
  obtain r db1 where r: "run_server d svc si db = (r, db1)" by fastforce
  note 1 = run_server_sound [OF r assms(6)]
  show ?thesis
  proof (cases r)
    case (Inl e)
    then show ?thesis using assms(1) r 1 by (simp add: run_all_def)
  next
    case (Inr up)
    then obtain a0 where up: "r = Inr (?d, cfg, a0)"
      using r assms(4,5) by (auto simp: run_server_def Let_def split: if_splits prod.splits option.splits sum.splits)
    then obtain a1 where a1: "serve_events ?d (start_ui si) evs a0 = Some a1" "db' = db1\<lparr>db_pg := ad_pg a1\<rparr>"
      using assms(1) r by (auto simp: run_all_def)
    have "dp_cipher ?d = dp_cipher d" by (simp add: start_deps_def)
    then have "server_inv ?d a1"
      using run_inv [OF serve_events_run [OF a1(1) assms(2)]] start_inv [OF r [unfolded up] assms(6)] assms(3) by simp
    then show ?thesis using a1(2) by (auto simp: db_sound_def server_inv_def)
  qed
qed


text \<open>An account is created at most on an empty table; nothing else is touched.\<close>

lemma bootstrap_calm:
  assumes "pg_faults p = []" "cfg_bootstrap_password cfg = [] \<or> bc_generate bc salt (cfg_bootstrap_password cfg) \<noteq> None"
  obtains made p' where "bootstrap_admin bc cfg salt at p = (Inr made, p')" "pg_faults p' = []"
    "pg_settings p' = pg_settings p" "pg_tokens p' = pg_tokens p" "pg_sessions p' = pg_sessions p"
    "pg_users p \<noteq> [] \<longrightarrow> pg_users p' = pg_users p"
proof (cases "cfg_bootstrap_email cfg = [] \<or> cfg_bootstrap_password cfg = [] \<or> pg_users p \<noteq> []")
  case True
  then have "bootstrap_admin bc cfg salt at p = (Inr False, p)"
    using assms(1) by (auto simp: bootstrap_admin_def bootstrap_check_def count_users_def plain_result_def)
  then show ?thesis using that [of False p] assms(1) by simp
next
  case False
  then obtain h where "bc_generate bc salt (cfg_bootstrap_password cfg) = Some h" using assms(2) by auto
  moreover have "bootstrap_check cfg p = (Inr True, p)"
    using False assms(1) by (simp add: bootstrap_check_def count_users_def plain_result_def)
  ultimately show ?thesis
    using that False assms(1)
    by (simp add: bootstrap_admin_def bootstrap_create_def hash_password_def create_user_def q_create_user_def
        conflict_result_def Let_def)
qed

text \<open>
  C7. Whatever a process did and however it ended, the next one comes up. Take a process started on
  a new database, or on one that is in order and decrypts under the key of its environment, let it
  end in any way (no database, a failed start, or any history of requests, tasks, sweeps and lost
  connections, then a signal or a listener that fails): the database it leaves, once migrated, lets
  a process with the same key start whenever the database answers within fifteen attempts and the
  backend of the stored settings can be built. That process listens with the stored settings, and
  with the users, tokens and sessions it found.
\<close>

theorem restart_serves:
  assumes "cipher_ok (dp_cipher d)" "from_env (si_env si) = Inr cfg" "new_encryptor (cfg_key cfg) = Inr enc"
    and "db_fresh db \<or> pg_wf (db_pg db) \<and> restartable (start_deps d enc cfg) (db_pg db)"
    and "list_all event_ok evs" "main_process args get d svc hv si evs db = Some (code, db1)"
    and "\<not> db_fresh db1" "pg_faults (db_pg db1) = []"
    and "from_env (si_env si2) = Inr cfg2" "cfg_key cfg2 = cfg_key cfg"
    and "cfg_bootstrap_password cfg2 = [] \<or> bc_generate (dp_bcrypt d) (si_salt si2) (cfg_bootstrap_password cfg2) \<noteq> None"
    and "db_answers svc2 (cfg_database_url cfg2) (si_cancelled si2) k db1" "k < 15"
    and "\<And>s. decrypt_settings (dp_cipher d) enc (pg_settings (db_pg db1)) = Some s \<Longrightarrow>
      \<exists>b. fst (build_backend (dp_apis d) s (si_media si2)) = Inr b"
  shows "\<exists>a db2. run_server d svc2 si2 db1 = (Inr (start_deps d enc cfg2, cfg2, new_admin a), db2) \<and>
    decrypt_settings (dp_cipher d) enc (pg_settings (db_pg db1)) = Some (app_settings a) \<and>
    (pg_users (db_pg db1) \<noteq> [] \<longrightarrow> pg_users (app_pg a) = pg_users (db_pg db1)) \<and>
    pg_tokens (app_pg a) = pg_tokens (db_pg db1) \<and> pg_sessions (app_pg a) = pg_sessions (db_pg db1)"
proof -
  have sound: "db_sound (start_deps d enc cfg) db" using assms(4) by (simp add: db_sound_def)
  have "db_sound (start_deps d enc cfg) db1"
  proof (cases "length args > 1 \<and> args ! 1 = ''healthcheck''")
    case True
    then show ?thesis using assms(6) sound by (simp add: main_process_def)
  next
    case False
    then obtain e where "run_all d svc hv si evs db = Some (e, db1)" using assms(6) by (auto simp: main_process_def)
    from run_all_sound [OF this assms(5,1-3) sound] show ?thesis .
  qed
  then obtain s where s: "decrypt_settings (dp_cipher d) enc (pg_settings (db_pg db1)) = Some s"
    using assms(7) by (auto simp: db_sound_def restartable_def start_deps_def)
  obtain b where b: "fst (build_backend (dp_apis d) s (si_media si2)) = Inr b" using assms(14) [OF s] by blast
  obtain made p where p: "bootstrap_admin (dp_bcrypt d) cfg2 (si_salt si2) (si_boot_now si2) (db_pg db1) = (Inr made, p)"
    "pg_faults p = []" "pg_settings p = pg_settings (db_pg db1)" "pg_tokens p = pg_tokens (db_pg db1)"
    "pg_sessions p = pg_sessions (db_pg db1)" "pg_users (db_pg db1) \<noteq> [] \<longrightarrow> pg_users p = pg_users (db_pg db1)"
    by (rule bootstrap_calm [OF assms(8,11)])
  have up: "bootstrap_admin (dp_bcrypt d) cfg2 (si_salt si2) (si_boot_now si2) (db_pg (migrated now db1)) = (Inr made, p) \<and>
      pg_faults p = [] \<and> decrypt_settings (dp_cipher d) enc (pg_settings p) = Some s \<and>
      fst (build_backend (dp_apis d) s (si_media si2)) = Inr b" for now
    using p s b assms(7) by (simp add: migrated_def)
  have key: "new_encryptor (cfg_key cfg2) = Inr enc" using assms(3,10) by simp
  obtain a db2 where "run_server d svc2 si2 db1 = (Inr (start_deps d enc cfg2, cfg2, new_admin a), db2)"
    "live a = (b, se_ttl s, se_max s, s)" "app_pg a = p"
    by (rule run_server_works [OF assms(9) key assms(12,13) up])
  then show ?thesis using s p by (auto simp: live_def)
qed

end
