(* ===== verification/ResponseProps.thy ===== *)
theory ResponseProps
  imports Server
begin

text \<open>
  What every answer of the process looks like, whatever the request and the state: its status, the
  cookies it may set and with which attributes, what an internal error says, and the line it leaves
  in the log.
\<close>

section \<open>Answers of the handlers\<close>

definition statuses :: "int set" where
  "statuses = {200, 201, 204, 301, 302, 400, 401, 403, 404, 405, 409, 411, 413, 429, 500}"

text \<open>An internal error says nothing but that; \<open>HEAD\<close> has no body.\<close>

definition error_bodies :: "body set" where
  "error_bodies = {rs_body internal_error, rs_body (http_error ''internal error'' 500), NoBody}"

definition well_answered :: "response \<Rightarrow> bool" where
  "well_answered r \<longleftrightarrow> rs_status r \<in> statuses \<and> (rs_status r = 500 \<longrightarrow> rs_body r \<in> error_bodies)"

definition plainly_answered :: "response \<Rightarrow> bool" where
  "plainly_answered r \<longleftrightarrow> well_answered r \<and> rs_cookies r = []"

text \<open>The cookies of sessions, and an answer that may set one.\<close>

definition guarded_cookie :: "bool \<Rightarrow> cookie \<Rightarrow> bool" where
  "guarded_cookie secure c \<longleftrightarrow>
     ck_name c = session_cookie_name \<and> ck_path c = ''/admin/api'' \<and> ck_http_only c \<and> ck_strict c \<and> ck_secure c = secure"

definition cookie_answered :: "bool \<Rightarrow> response \<Rightarrow> bool" where
  "cookie_answered secure r \<longleftrightarrow> well_answered r \<and>
     (rs_cookies r = [] \<or> rs_status r = 200 \<and> (\<exists>c. rs_cookies r = [c] \<and> guarded_cookie secure c))"

lemma plainly_cookie: "plainly_answered r \<Longrightarrow> cookie_answered secure r"
  by (simp add: plainly_answered_def cookie_answered_def)

lemma plainly_simps [simp]:
  "plainly_answered internal_error" "plainly_answered bad_body" "plainly_answered status_ok"
  "plainly_answered (http_error ''internal error'' 500)"
  "c \<noteq> 500 \<Longrightarrow> plainly_answered (plain_response c) = (c \<in> statuses)"
  "c \<noteq> 500 \<Longrightarrow> plainly_answered (write_json c v) = (c \<in> statuses)"
  "c \<noteq> 500 \<Longrightarrow> plainly_answered (write_error c m) = (c \<in> statuses)"
  "c \<noteq> 500 \<Longrightarrow> plainly_answered (http_error m c) = (c \<in> statuses)"
  by (simp_all add: plainly_answered_def well_answered_def statuses_def error_bodies_def internal_error_def
      bad_body_def status_ok_def)

lemma member_statuses [simp]: "c \<in> statuses \<longleftrightarrow>
    c \<in> {200, 201, 204, 301, 302, 400, 401, 403, 404, 405, 409, 411, 413, 429, 500}"
  by (simp add: statuses_def)

lemma admin_handlers_plain:
  "plainly_answered (fst (handle_me u q a))"
  "plainly_answered (fst (handle_list_users u q a))"
  "plainly_answered (fst (handle_create_user d u q a))"
  "plainly_answered (fst (handle_delete_user i u q a))"
  "plainly_answered (fst (handle_change_password d u q a))"
  "plainly_answered (fst (handle_list_tokens u q a))"
  "plainly_answered (fst (handle_create_token d u q a))"
  "plainly_answered (fst (handle_revoke_token i u q a))"
  "plainly_answered (fst (handle_get_settings u q a))"
  "plainly_answered (fst (handle_update_settings d u q a))"
  by (auto simp: handle_me_def handle_list_users_def handle_create_user_def handle_delete_user_def
      delete_user_checks_def delete_user_commit_def handle_change_password_def handle_list_tokens_def
      handle_create_token_def handle_revoke_token_def handle_get_settings_def handle_update_settings_def Let_def
      split: prod.splits sum.splits option.splits store_err.splits apply_err.splits)

lemma cache_handlers_plain:
  "plainly_answered (fst (handle_list_cache d u q a))"
  "plainly_answered (fst (handle_delete_entry d h u q a))"
  "plainly_answered (fst (handle_bulk_delete d u q a))"
  by (auto simp: handle_list_cache_def handle_delete_entry_def ad_on_world_def ad_on_app_def lift_state_def
      delete_entry_def handle_bulk_delete_def
      split: prod.splits sum.splits option.splits storage_err.splits)

lemma prune_plain: "handle_prune d u q a = Some (r, a') \<Longrightarrow> plainly_answered r"
  by (auto simp: handle_prune_def split: option.splits if_splits prod.splits)

lemma login_cookie: "cookie_answered (dp_cookie_secure d) (fst (handle_login d q a))"
  by (auto simp: handle_login_def Let_def cookie_answered_def plainly_answered_def well_answered_def guarded_cookie_def
      session_cookie_def status_ok_def bad_body_def internal_error_def error_bodies_def
      split: prod.splits sum.splits option.splits login_err.splits)

lemma logout_cookie: "cookie_answered (dp_cookie_secure d) (fst (handle_logout d u q a))"
  by (simp add: handle_logout_def cookie_answered_def well_answered_def guarded_cookie_def cleared_cookie_def status_ok_def)


lemma plain_fst: "plainly_answered (fst x) \<Longrightarrow> x = (r, a') \<Longrightarrow> plainly_answered r"
  by simp

lemmas handlers_plain = admin_handlers_plain [THEN plain_fst] cache_handlers_plain [THEN plain_fst] prune_plain

section \<open>Answers of the servers\<close>

lemma admin_handler_cookie:
  assumes "admin_handler d t = Some h" "h u q a = Some (r, a')"
  shows "cookie_answered (dp_cookie_secure d) r \<and> (t \<noteq> AtLogout \<longrightarrow> plainly_answered r)"
proof (cases "t = AtLogout")
  case True
  then show ?thesis using assms logout_cookie [of d u q a] by (auto simp: admin_handler_def total_handler_def)
next
  case False
  have "plainly_answered r"
    using assms False by (auto simp: admin_handler_def total_handler_def split: admin_target.splits intro: handlers_plain)
  then show ?thesis using plainly_cookie by blast
qed

lemma protected_cookie:
  assumes "admin_handler d t = Some h" "protected d h q a = Some (r, a')"
  shows "cookie_answered (dp_cookie_secure d) r \<and> (t \<noteq> AtLogout \<longrightarrow> plainly_answered r)"
  using assms(2) admin_handler_cookie [OF assms(1)]
  by (auto simp: protected_def split: if_splits prod.splits sum.splits intro: plainly_cookie)

lemma head_cookie [simp]:
  "cookie_answered secure r \<Longrightarrow> cookie_answered secure (head_only m r)"
  "plainly_answered r \<Longrightarrow> plainly_answered (head_only m r)"
  by (auto simp: head_only_def cookie_answered_def plainly_answered_def well_answered_def error_bodies_def)

lemma admin_serve_cookie:
  assumes "admin_serve d ui segs q a = Some (r, a')"
  shows "admin_route (ui \<noteq> None) (aq_meth q) segs = AtSpa \<or>
    cookie_answered (dp_cookie_secure d) r \<and>
      (rs_cookies r \<noteq> [] \<longrightarrow> admin_route (ui \<noteq> None) (aq_meth q) segs \<in> {AtLogin, AtLogout})"
proof -
  define t where "t = admin_route (ui \<noteq> None) (aq_meth q) segs"
  obtain r0 where r: "r = head_only (aq_meth q) r0"
    and r0: "(case admin_handler d t of
        Some h \<Rightarrow> protected d h q a
      | None \<Rightarrow> (case t of
            AtLogin \<Rightarrow> Some (handle_login d q a)
          | AtSpa \<Rightarrow> Some (case ui of None \<Rightarrow> http_error ''404 page not found'' 404 | Some u \<Rightarrow> spa_handler u (path_of segs), a)
          | AtNoMethod \<Rightarrow> Some (http_error ''Method Not Allowed'' 405, a)
          | _ \<Rightarrow> Some (http_error ''404 page not found'' 404, a))) = Some (r0, a')"
    using assms unfolding admin_serve_def Let_def t_def map_option_eq_Some by (metis map_prod_simp prod.inject id_apply prod.collapse)
  have ck: "rs_cookies r = rs_cookies r0" by (simp add: r head_only_def)
  have "t = AtSpa \<or> cookie_answered (dp_cookie_secure d) r0 \<and> (t \<notin> {AtLogin, AtLogout} \<longrightarrow> plainly_answered r0)"
  proof (cases "admin_handler d t")
    case (Some h)
    then show ?thesis using r0 protected_cookie [OF Some, of q a r0 a'] by simp
  next
    case None
    then show ?thesis using r0 login_cookie [of d q a]
      by (auto intro: plainly_cookie split: admin_target.splits)
  qed
  then show ?thesis using r ck by (auto simp: t_def plainly_answered_def)
qed

lemma guard_plain: "guard_request d scope q w = (Some r, w1) \<Longrightarrow> plainly_answered r"
  by (auto simp: guard_request_def split: if_splits prod.splits sum.splits)

lemma stream_plain [simp]: "plainly_answered (stream_response rd sz)"
  by (simp add: plainly_answered_def well_answered_def stream_response_def)

lemma get_plain: "handle_get d q s = (r, s') \<Longrightarrow> plainly_answered r"
  by (auto simp: handle_get_def split: prod.splits sum.splits storage_err.splits option.splits dest: guard_plain)

lemma put_plain: "handle_put d q s = (r, s') \<Longrightarrow> plainly_answered r"
  by (auto simp: handle_put_def split: prod.splits sum.splits storage_err.splits option.splits if_splits dest: guard_plain)

lemma health_plain: "plainly_answered handle_health"
  by (simp add: plainly_answered_def well_answered_def handle_health_def)

lemma cache_serve_plain: "cache_serve d meth segs q s = (r, s') \<Longrightarrow> plainly_answered r"
  using health_plain
  by (auto simp: cache_serve_def map_prod_def split: cache_target.splits prod.splits intro: get_plain put_plain head_cookie(2))

lemma data_serve_plain: "data_serve d meth segs q a = (r, a') \<Longrightarrow> plainly_answered r"
  by (auto simp: data_serve_def ad_on_app_def lift_state_eq intro: cache_serve_plain)


section \<open>Answers of the process\<close>

lemma main_serve_admin:
  assumes "main_serve d ui q a = Some ((r, l), a')" "main_route (aq_meth (hq_admin q)) (hq_segs q) = MtAdmin"
  shows "admin_serve d ui (hq_segs q) (hq_admin q) a = Some (r, a')"
  using assms by (auto simp: main_serve_def Let_def with_logging_def)

lemma main_serve_plain:
  assumes "main_serve d ui q a = Some ((r, l), a')" "main_route (aq_meth (hq_admin q)) (hq_segs q) \<noteq> MtAdmin"
  shows "plainly_answered r"
proof -
  have "plainly_answered (redirect m u 302)" "plainly_answered (redirect m u 301)" for m u
    by (simp_all add: redirect_def plainly_answered_def well_answered_def)
  then show ?thesis using assms
    by (auto simp: main_serve_def Let_def with_logging_def split: main_target.splits prod.splits intro: data_serve_plain)
qed

lemma main_serve_log:
  assumes "main_serve d ui q a = Some ((r, l), a')"
  shows "l = (if main_route (aq_meth (hq_admin q)) (hq_segs q) \<in> {MtData, MtAdmin}
    then [\<lparr>ll_method = aq_meth (hq_admin q), ll_path = path_of (hq_segs q), ll_status = rs_status r,
           ll_remote = aq_remote (hq_admin q)\<rparr>] else [])"
  using assms
  by (auto simp: main_serve_def Let_def with_logging_def split: main_target.splits prod.splits)

text \<open>The paths of the two handlers that set a cookie.\<close>

lemma pattern_cookie:
  assumes "(m, t) \<in> set (admin_patterns rest)" "t = AtLogin \<or> t = AtLogout"
  shows "m = ''POST'' \<and> (rest = [''auth'', ''login''] \<or> rest = [''auth'', ''logout''])"
proof (cases "\<exists>b. rest = [''auth'', b]")
  case True
  then obtain b where b: "rest = [''auth'', b]" by blast
  show ?thesis
  proof (cases "b = ''login'' \<or> b = ''logout'' \<or> b = ''me''")
    case True
    then show ?thesis using assms b by (elim disjE) (simp_all add: admin_patterns_def)
  next
    case False
    then show ?thesis using assms(1) b by (simp add: admin_patterns_def)
  qed
next
  case False
  consider "rest = []" | a where "rest = [a]" | a b where "rest = [a, b]" "a \<noteq> ''auth''" | a b c cs where "rest = a # b # c # cs"
    using False by (cases rest rule: list.exhaust; metis neq_Nil_conv)
  then have "t \<noteq> AtLogin \<and> t \<noteq> AtLogout"
  proof cases
    case (2 a)
    show ?thesis using assms(1) unfolding admin_patterns_def 2 list.case by (auto split: if_split_asm)
  next
    case (3 a b)
    show ?thesis using assms(1) unfolding admin_patterns_def 3(1) list.case if_not_P [OF 3(2)] by (auto split: if_split_asm)
  qed (use assms(1) in \<open>simp_all add: admin_patterns_def\<close>)
  then show ?thesis using assms(2) by blast
qed

lemma route_pattern:
  assumes "admin_route has_ui meth segs = t" "t = AtLogin \<or> t = AtLogout"
  obtains rest where "segs = ''admin'' # ''api'' # rest"
    "((if meth = ''HEAD'' then ''GET'' else meth), t) \<in> set (admin_patterns rest)"
proof -
  define ps where "ps = (case segs of a # b # rest \<Rightarrow> (if a = ''admin'' \<and> b = ''api'' then admin_patterns rest else []) | _ \<Rightarrow> [])"
  define m where "m = (if meth = ''HEAD'' then ''GET'' else meth)"
  have "map_of ps m = Some t"
    using assms by (auto simp: admin_route_def Let_def ps_def [symmetric] m_def [symmetric] split: option.splits if_split_asm)
  then have "(m, t) \<in> set ps" by (rule map_of_SomeD)
  then show ?thesis using that unfolding m_def ps_def by (auto split: list.splits if_split_asm)
qed

lemma cookie_routes:
  assumes "admin_route has_ui meth segs \<in> {AtLogin, AtLogout}"
  shows "meth = ''POST'' \<and> segs \<in> {[''admin'', ''api'', ''auth'', ''login''], [''admin'', ''api'', ''auth'', ''logout'']}"
proof -
  obtain rest where r: "segs = ''admin'' # ''api'' # rest"
    "((if meth = ''HEAD'' then ''GET'' else meth), admin_route has_ui meth segs) \<in> set (admin_patterns rest)"
    using route_pattern [OF refl, of has_ui meth segs] assms by blast
  then show ?thesis using pattern_cookie [OF r(2)] assms by (auto split: if_split_asm)
qed

text \<open>
  C21. Every answer of the process, whatever the request and the state. Below the pages of the
  browser application its status is one of fifteen, and an internal error says nothing but that. A
  cookie is set only by a login or a logout, with status 200: one cookie, of the session's name,
  for the paths of the admin API, out of reach of scripts and of other sites, and restricted to
  HTTPS as configured. A request to either server leaves one line in the log, which has the status
  that was sent, and any other request leaves none.
\<close>

theorem response_types:
  assumes "main_serve d ui q a = Some ((r, l), a')"
    and "admin_route (ui \<noteq> None) (aq_meth (hq_admin q)) (hq_segs q) \<noteq> AtSpa"
  shows "rs_status r \<in> {200, 201, 204, 301, 302, 400, 401, 403, 404, 405, 409, 411, 413, 429, 500} \<and>
    (rs_status r = 500 \<longrightarrow> rs_body r \<in> {JsonBody (JObj [(''error'', JStr ''internal error'')]),
       Text (''internal error'' @ [CHR 0x0A]), NoBody}) \<and>
    (rs_cookies r \<noteq> [] \<longrightarrow> rs_status r = 200 \<and> aq_meth (hq_admin q) = ''POST'' \<and>
       hq_segs q \<in> {[''admin'', ''api'', ''auth'', ''login''], [''admin'', ''api'', ''auth'', ''logout'']} \<and>
       (\<exists>c. rs_cookies r = [c] \<and> ck_name c = ''nxcache_session'' \<and> ck_path c = ''/admin/api'' \<and>
          ck_http_only c \<and> ck_strict c \<and> ck_secure c = dp_cookie_secure d)) \<and>
    l = (if main_route (aq_meth (hq_admin q)) (hq_segs q) \<in> {MtData, MtAdmin}
      then [\<lparr>ll_method = aq_meth (hq_admin q), ll_path = path_of (hq_segs q), ll_status = rs_status r,
             ll_remote = aq_remote (hq_admin q)\<rparr>] else [])"
proof (intro conjI impI)
  have "cookie_answered (dp_cookie_secure d) r \<and> (rs_cookies r \<noteq> [] \<longrightarrow>
      admin_route (ui \<noteq> None) (aq_meth (hq_admin q)) (hq_segs q) \<in> {AtLogin, AtLogout})"
  proof (cases "main_route (aq_meth (hq_admin q)) (hq_segs q) = MtAdmin")
    case True
    show ?thesis using admin_serve_cookie [OF main_serve_admin [OF assms(1) True]] assms(2) by blast
  next
    case False
    from main_serve_plain [OF assms(1) False] show ?thesis
      using plainly_cookie [of r] by (simp add: plainly_answered_def)
  qed
  then have c: "cookie_answered (dp_cookie_secure d) r"
    and route: "rs_cookies r \<noteq> [] \<Longrightarrow> admin_route (ui \<noteq> None) (aq_meth (hq_admin q)) (hq_segs q) \<in> {AtLogin, AtLogout}"
    by blast+
  show "rs_status r \<in> {200, 201, 204, 301, 302, 400, 401, 403, 404, 405, 409, 411, 413, 429, 500}"
    using c by (simp only: cookie_answered_def well_answered_def member_statuses)
  show "rs_body r \<in> {JsonBody (JObj [(''error'', JStr ''internal error'')]), Text (''internal error'' @ [CHR 0x0A]), NoBody}"
    if "rs_status r = 500"
    using c that by (simp add: cookie_answered_def well_answered_def error_bodies_def internal_error_def write_error_def http_error_def)
  assume ck: "rs_cookies r \<noteq> []"
  show "rs_status r = 200" using c ck by (auto simp: cookie_answered_def)
  show "aq_meth (hq_admin q) = ''POST''"
    "hq_segs q \<in> {[''admin'', ''api'', ''auth'', ''login''], [''admin'', ''api'', ''auth'', ''logout'']}"
    using cookie_routes [OF route [OF ck]] by blast+
  show "\<exists>c. rs_cookies r = [c] \<and> ck_name c = ''nxcache_session'' \<and> ck_path c = ''/admin/api'' \<and>
      ck_http_only c \<and> ck_strict c \<and> ck_secure c = dp_cookie_secure d"
    using c ck unfolding cookie_answered_def guarded_cookie_def session_cookie_name_def by blast
qed (rule main_serve_log [OF assms(1)])

end
