(* ===== verification/SecretProps.thy ===== *)
theory SecretProps
  imports Server
begin

text \<open>
  What requests show of the stored secrets. Two servers that differ only in secrets, with the same
  flags, are compared: a handler that cannot tell them apart shows nothing of a secret, neither in
  its answer nor in what it does to the rest of the state.
\<close>

section \<open>Two servers with different secrets\<close>

definition with_settings :: "settings \<Rightarrow> ('s, 'g, 'l) admin \<Rightarrow> ('s, 'g, 'l) admin" where
  "with_settings s a = a\<lparr>ad_app := (ad_app a)\<lparr>app_settings := s\<rparr>\<rparr>"

lemma with_settings_fields [simp]:
  "app_world (ad_app (with_settings s a)) = app_world (ad_app a)" "app_ttl (ad_app (with_settings s a)) = app_ttl (ad_app a)"
  "app_max (ad_app (with_settings s a)) = app_max (ad_app a)" "app_tasks (ad_app (with_settings s a)) = app_tasks (ad_app a)"
  "app_settings (ad_app (with_settings s a)) = s" "ad_limits (with_settings s a) = ad_limits a"
  by (simp_all add: with_settings_def)

lemma with_settings_limits [simp]: "(with_settings s a)\<lparr>ad_limits := l\<rparr> = with_settings s (a\<lparr>ad_limits := l\<rparr>)"
  by (simp add: with_settings_def)

lemma with_settings_put [simp]: "put_pg p (with_settings s a) = with_settings s (put_pg p a)"
  by (simp add: put_pg_def with_settings_def)

lemma with_settings_pg: "ad_on_pg f (with_settings s a) = map_prod id (with_settings s) (ad_on_pg f a)"
  by (auto simp: ad_on_pg_def ad_on_app_def app_on_pg_def on_pg_def lift_state_def with_settings_def split: prod.splits)

lemma with_settings_world: "ad_on_world f (with_settings s a) = map_prod id (with_settings s) (ad_on_world f a)"
  by (auto simp: ad_on_world_def ad_on_app_def lift_state_def with_settings_def split: prod.splits)

lemmas with_settings_on = with_settings_pg with_settings_world

section \<open>No handler but the one that changes settings can tell them apart\<close>

lemma login_blind: "handle_login d q (with_settings s a) = map_prod id (with_settings s) (handle_login d q a)"
  by (auto simp: handle_login_def with_settings_on Let_def split: prod.splits sum.splits option.splits login_err.splits)

lemma logout_blind: "handle_logout d u q (with_settings s a) = map_prod id (with_settings s) (handle_logout d u q a)"
  by (simp add: handle_logout_def with_settings_on split: option.splits)

lemma list_users_blind: "handle_list_users u q (with_settings s a) = map_prod id (with_settings s) (handle_list_users u q a)"
  by (auto simp: handle_list_users_def with_settings_on split: prod.splits sum.splits)

lemma create_user_blind: "handle_create_user d u q (with_settings s a) = map_prod id (with_settings s) (handle_create_user d u q a)"
  by (auto simp: handle_create_user_def with_settings_on Let_def split: prod.splits sum.splits option.splits store_err.splits)

lemma delete_user_blind: "handle_delete_user i u q (with_settings s a) = map_prod id (with_settings s) (handle_delete_user i u q a)"
  by (auto simp: handle_delete_user_def delete_user_checks_def delete_user_commit_def with_settings_on Let_def
      split: prod.splits sum.splits option.splits store_err.splits if_splits)

lemma change_password_blind:
  "handle_change_password d u q (with_settings s a) = map_prod id (with_settings s) (handle_change_password d u q a)"
  by (auto simp: handle_change_password_def with_settings_on Let_def split: prod.splits sum.splits option.splits)

lemma list_tokens_blind: "handle_list_tokens u q (with_settings s a) = map_prod id (with_settings s) (handle_list_tokens u q a)"
  by (auto simp: handle_list_tokens_def with_settings_on split: prod.splits sum.splits)

lemma create_token_blind: "handle_create_token d u q (with_settings s a) = map_prod id (with_settings s) (handle_create_token d u q a)"
proof -
  have "(case map_prod id g x of (Inl StConflict, y) \<Rightarrow> (r1, y) | (Inl _, y) \<Rightarrow> (r2, y) | (Inr t, y) \<Rightarrow> (r3 t, y)) =
      map_prod id g (case x of (Inl StConflict, y) \<Rightarrow> (r1, y) | (Inl _, y) \<Rightarrow> (r2, y) | (Inr t, y) \<Rightarrow> (r3 t, y))"
    for x :: "(store_err + token) \<times> ('a, 'b, 'c) admin" and g and r1 r2 :: response and r3
    by (simp split: prod.split sum.split store_err.split)
  note commutes = this
  show ?thesis
  proof (cases "decode_token (aq_body q)")
    case (Some req)
    show ?thesis
      by (cases "generate_token (aq_rnd q)")
        (simp_all add: handle_create_token_def Let_def Some with_settings_pg commutes del: ad_on_pg_call)
  qed (simp add: handle_create_token_def)
qed

lemma revoke_token_blind: "handle_revoke_token i u q (with_settings s a) = map_prod id (with_settings s) (handle_revoke_token i u q a)"
  by (auto simp: handle_revoke_token_def with_settings_on split: prod.splits sum.splits option.splits store_err.splits)

lemma list_cache_blind: "handle_list_cache d u q (with_settings s a) = map_prod id (with_settings s) (handle_list_cache d u q a)"
  by (auto simp: handle_list_cache_def with_settings_on split: prod.splits sum.splits)

lemma delete_entry_blind: "handle_delete_entry d h u q (with_settings s a) = map_prod id (with_settings s) (handle_delete_entry d h u q a)"
  by (simp add: handle_delete_entry_def with_settings_on)

lemma bulk_delete_blind: "handle_bulk_delete d u q (with_settings s a) = map_prod id (with_settings s) (handle_bulk_delete d u q a)"
  by (auto simp: handle_bulk_delete_def with_settings_on split: prod.splits option.splits)

lemma prune_blind: "handle_prune d u q (with_settings s a) = map_option (map_prod id (with_settings s)) (handle_prune d u q a)"
  by (auto simp: handle_prune_def with_settings_def split: prod.splits option.splits)

lemma get_settings_blind:
  "redacted s = redacted (app_settings (ad_app a)) \<Longrightarrow>
   handle_get_settings u q (with_settings s a) = map_prod id (with_settings s) (handle_get_settings u q a)"
  by (simp add: handle_get_settings_def current_settings_def)

lemmas handlers_blind = logout_blind list_users_blind create_user_blind delete_user_blind change_password_blind
  list_tokens_blind create_token_blind revoke_token_blind list_cache_blind delete_entry_blind bulk_delete_blind
  prune_blind get_settings_blind
section \<open>Whole requests\<close>

lemma map_prod_parts: "map_prod f id (map_prod id g x) = map_prod id g (map_prod f id x)"
  by (cases x) simp

lemma protected_blind:
  assumes "\<And>u x. redacted s = redacted (app_settings (ad_app x)) \<Longrightarrow>
      h u q (with_settings s x) = map_option (map_prod id (with_settings s)) (h u q x)"
    and "redacted s = redacted (app_settings (ad_app a))"
  shows "protected d h q (with_settings s a) = map_option (map_prod id (with_settings s)) (protected d h q a)"
proof -
  have "app_settings (ad_app (put_pg p a)) = app_settings (ad_app a)" for p by (simp add: put_pg_def)
  then have "h u q (with_settings s (put_pg p a)) = map_option (map_prod id (with_settings s)) (h u q (put_pg p a))" for u p
    using assms by simp
  moreover obtain res p where "current_user (dp_sha d) (aq_db_now q) (case aq_cookie q of None \<Rightarrow> [] | Some c \<Rightarrow> c) (ad_pg a) =
      (res, p)" by fastforce
  ultimately show ?thesis by (simp add: protected_def split: sum.split)
qed

lemma handler_blind:
  assumes "admin_handler d t = Some h" "t \<noteq> AtPutSettings" "redacted s = redacted (app_settings (ad_app a))"
  shows "h u q (with_settings s a) = map_option (map_prod id (with_settings s)) (h u q a)"
proof (cases t)
  case AtPutSettings
  then show ?thesis using assms(2) by blast
qed (use assms(1) handlers_blind get_settings_blind [OF assms(3)] in
    \<open>auto simp: admin_handler_def total_handler_def handle_me_def simp del: ad_on_pg_call map_snd_eq\<close>)

lemma admin_serve_blind:
  assumes "admin_route (ui \<noteq> None) (aq_meth q) segs \<noteq> AtPutSettings" "redacted s = redacted (app_settings (ad_app a))"
  shows "admin_serve d ui segs q (with_settings s a) = map_option (map_prod id (with_settings s)) (admin_serve d ui segs q a)"
proof (cases "admin_handler d (admin_route (ui \<noteq> None) (aq_meth q) segs)")
  case (Some h)
  have "protected d h q (with_settings s a) = map_option (map_prod id (with_settings s)) (protected d h q a)"
    by (rule protected_blind) (use handler_blind [OF Some assms(1)] assms(2) in blast)+
  then show ?thesis using Some
    by (simp add: admin_serve_def Let_def option.map_comp comp_def map_prod_parts)
next
  case None
  then show ?thesis by (simp add: admin_serve_def Let_def login_blind map_prod_parts split: admin_target.split prod.split)
qed

lemma data_serve_blind: "data_serve d meth segs q (with_settings s a) = map_prod id (with_settings s) (data_serve d meth segs q a)"
proof -
  have "app_srv (ad_app (with_settings s a)) = app_srv (ad_app a)" by (simp add: app_srv_def)
  then show ?thesis
    by (auto simp: data_serve_def ad_on_app_def lift_state_def put_srv_def with_settings_def split: prod.split)
qed

lemma with_logging_blind: "with_logging m p r (map_prod id f x) = map_prod id f (with_logging m p r x)"
  by (cases x) (simp add: with_logging_def)


end
