(* ===== verification/AdminExamples.thy ===== *)
theory AdminExamples
  imports Server
begin

text \<open>
  A concrete server, with toy versions of the services it is given, on which the properties of
  the admin API are applied to requests.
\<close>

section \<open>The server and its requests\<close>

text \<open>A bucket that never refills.\<close>

definition toy_rate :: "nat rate_api" where
  "toy_rate = \<lparr>rl_new = (\<lambda>_ b. b), rl_allow = (\<lambda>_ n. (0 < n, n - 1))\<rparr>"

definition toy_deps :: "(mem_bucket, mem_bucket, nat) admin_deps" where
  "toy_deps = \<lparr>dp_apis = mem_apis, dp_cipher = toy_cipher, dp_enc = toy_enc, dp_bcrypt = toy_bcrypt,
     dp_sha = id_sha, dp_rate = toy_rate, dp_cookie_secure = True\<rparr>"

definition get_req :: admin_req where
  "get_req = \<lparr>aq_meth = ''GET'', aq_csrf = [], aq_cookie = None, aq_remote = ''10.0.0.1:55'', aq_query = [],
     aq_body = None, aq_now = 10, aq_db_now = 10, aq_rnd = Some ''xyz'', aq_salt = [],
     aq_nonces = (toy_nonce, toy_nonce, toy_nonce)\<rparr>"

definition post_req :: "json \<Rightarrow> admin_req" where
  "post_req b = get_req\<lparr>aq_meth := ''POST'', aq_csrf := ''1'', aq_body := Some b\<rparr>"

definition pg_two_users :: pg where
  "pg_two_users = snd (create_user 3 ''c@d'' ''pw2'' pg_write_token)"

definition toy_admin :: "(mem_bucket, mem_bucket, nat) admin" where
  "toy_admin = new_admin (app0\<lparr>app_world := (app_world app0)\<lparr>w_pg := pg_two_users\<rparr>\<rparr>)"

definition user_a :: user where
  "user_a = \<lparr>usr_id = 1, usr_email = ''a@b'', usr_pwhash = ''pw'', usr_created = 1\<rparr>"

definition user_c :: user where
  "user_c = \<lparr>usr_id = 2, usr_email = ''c@d'', usr_pwhash = ''pw2'', usr_created = 3\<rparr>"

lemma toy_users: "pg_users (ad_pg toy_admin) = [user_a, user_c]" "pg_faults (ad_pg toy_admin) = []"
  by code_simp+

lemma pg_two_users_reach: "pg_reach pg_two_users"
  unfolding pg_two_users_def pg_write_token_def
  by (intro reach_step [OF reach_step [OF pg_one_user_reach st_create_token] st_create_user])

lemma toy_admin_pg: "ad_pg toy_admin = pg_two_users"
  by (simp add: toy_admin_def new_admin_def)

lemma toy_wf: "pg_wf (ad_pg toy_admin)"
  unfolding toy_admin_pg by (rule pg_reach_wf [OF pg_two_users_reach])

lemma toy_bcrypt_ok: "bcrypt_ok toy_bcrypt"
  by (auto simp: bcrypt_ok_def toy_bcrypt_def split: if_splits)

section \<open>Sessions and users\<close>

definition delete_req :: admin_req where
  "delete_req = get_req\<lparr>aq_meth := ''DELETE'', aq_csrf := ''1''\<rparr>"

theorem admin_needs_session_witness:
  "rs_status (fst (the (admin_serve toy_deps None [''admin'', ''api'', ''users'', ''2''] delete_req toy_admin))) \<in> {401, 403}"
proof -
  let ?s = "admin_serve toy_deps None [''admin'', ''api'', ''users'', ''2''] delete_req toy_admin"
  have "map_option (rs_status \<circ> fst) ?s = Some 401" by code_simp
  then obtain r a' where s: "?s = Some (r, a')" by auto
  have "\<forall>u. \<not> holds_session (dp_sha toy_deps) delete_req (ad_pg toy_admin) u"
    by (simp add: holds_session_def delete_req_def get_req_def)
  moreover have "admin_handler toy_deps (admin_route (None \<noteq> None) (aq_meth delete_req) [''admin'', ''api'', ''users'', ''2'']) \<noteq> None"
  proof -
    have "admin_route False (aq_meth delete_req) [''admin'', ''api'', ''users'', ''2''] = AtDeleteUser ''2''" by code_simp
    then show ?thesis by (simp add: admin_handler_def)
  qed
  ultimately show ?thesis using admin_needs_session [OF s] s by simp
qed

definition token_body :: json where
  "token_body = JObj [(''name'', JStr '' build ''), (''scope'', JStr ''read'')]"

theorem created_token_works_witness:
  "\<exists>raw t. rs_body (fst (handle_create_token toy_deps user_a (post_req token_body) toy_admin)) =
      JsonBody (JObj (token_fields t @ [(''token'', JStr raw)])) \<and>
    may_use world_grant id_sha (ad_world (snd (handle_create_token toy_deps user_a (post_req token_body) toy_admin)))
      \<lparr>cq_hash = [], cq_auth = ''Bearer '' @ raw, cq_body = \<lparr>rd_data = [], rd_err = False\<rparr>, cq_len = 0, cq_now = 0\<rparr> ScopeRead"
proof -
  obtain r a' where h: "handle_create_token toy_deps user_a (post_req token_body) toy_admin = (r, a')" by fastforce
  have "rs_status (fst (handle_create_token toy_deps user_a (post_req token_body) toy_admin)) = 201" by code_simp
  then have "rs_status r = 201" using h by simp
  from created_token_works [OF h this] obtain raw t where
    "rs_body r = JsonBody (JObj (token_fields t @ [(''token'', JStr raw)]))"
    "\<forall>cq. cq_auth cq = ''Bearer '' @ raw \<longrightarrow> may_use world_grant (dp_sha toy_deps) (ad_world a') cq ScopeRead"
    by blast
  moreover have "dp_sha toy_deps = id_sha" by (simp add: toy_deps_def)
  ultimately show ?thesis unfolding h by (intro exI [of _ raw] exI [of _ t]) simp
qed

theorem delete_user_guard_witness:
  "pg_users (ad_pg (snd (handle_delete_user ''2'' user_a delete_req toy_admin))) = [user_a] \<and>
   same_tables (ad_pg toy_admin) (ad_pg (snd (handle_delete_user ''1'' user_a delete_req toy_admin)))"
proof
  obtain r a' where h: "handle_delete_user ''2'' user_a delete_req toy_admin = (r, a')" by fastforce
  have "rs_status (fst (handle_delete_user ''2'' user_a delete_req toy_admin)) = 204" by code_simp
  then have "rs_status r = 204" using h by simp
  then obtain i where "parse_int ''2'' = Some i"
    "pg_users (ad_pg a') = filter (\<lambda>v. usr_id v \<noteq> i) (pg_users (ad_pg toy_admin))"
    using delete_user_guard [OF toy_wf h] by blast
  moreover have "parse_int ''2'' = Some 2" by code_simp
  ultimately show "pg_users (ad_pg (snd (handle_delete_user ''2'' user_a delete_req toy_admin))) = [user_a]"
    using h toy_users by (simp add: user_a_def user_c_def)
next
  obtain r a' where h: "handle_delete_user ''1'' user_a delete_req toy_admin = (r, a')" by fastforce
  have "rs_status (fst (handle_delete_user ''1'' user_a delete_req toy_admin)) = 400" by code_simp
  then have "rs_status r = 400" using h by simp
  then show "same_tables (ad_pg toy_admin) (ad_pg (snd (handle_delete_user ''1'' user_a delete_req toy_admin)))"
    using delete_user_guard [OF toy_wf h] h by simp
qed

definition race1 :: "(response + int) \<times> (mem_bucket, mem_bucket, nat) admin" where
  "race1 = delete_user_checks ''2'' user_a toy_admin"

definition race2 :: "(response + int) \<times> (mem_bucket, mem_bucket, nat) admin" where
  "race2 = delete_user_checks ''1'' user_c (snd race1)"

theorem delete_user_race_witness:
  "pg_users (ad_pg (snd (delete_user_commit 1 (snd (delete_user_commit 2 (snd race2)))))) = []"
proof -
  have ids: "usr_id user_a = 1" "usr_id user_c = 2" by (simp_all add: user_a_def user_c_def)
  then have ne: "usr_id user_a \<noteq> usr_id user_c" by simp
  have p: "parse_int ''2'' = Some (usr_id user_c)" "parse_int ''1'' = Some (usr_id user_a)" by code_simp+
  have r1: "delete_user_checks ''2'' user_a toy_admin = (fst race1, snd race1)"
    and r2: "delete_user_checks ''1'' user_c (snd race1) = (fst race2, snd race2)"
    by (simp_all add: race1_def race2_def)
  obtain r a3 where c1: "delete_user_commit (usr_id user_c) (snd race2) = (r, a3)" by fastforce
  obtain r' a4 where c2: "delete_user_commit (usr_id user_a) a3 = (r', a4)" by fastforce
  have "pg_users (ad_pg a4) = []"
    using delete_user_race [OF toy_users(2,1) ne p r1 r2 c1 c2] by blast
  then show ?thesis using c1 c2 by (simp add: ids)
qed

definition user_body :: json where
  "user_body = JObj [(''email'', JStr '' New@X ''), (''password'', JStr ''password'')]"

definition created :: "response \<times> (mem_bucket, mem_bucket, nat) admin" where
  "created = handle_create_user toy_deps user_a (post_req user_body) toy_admin"


definition password_body :: json where
  "password_body = JObj [(''currentPassword'', JStr ''pw''), (''newPassword'', JStr ''password'')]"

definition changed :: "response \<times> (mem_bucket, mem_bucket, nat) admin" where
  "changed = handle_change_password toy_deps user_a (post_req password_body) toy_admin"

theorem change_password_effect_witness:
  "fst (fst (login toy_bcrypt id_sha 100 20 (Some ''abc'') ''a@b'' ''password'' (ad_pg (snd changed)))) =
     Inr (b64_rawurl_encode ''abc'')"
proof -
  have h: "handle_change_password toy_deps user_a (post_req password_body) toy_admin = (fst changed, snd changed)"
    by (simp add: changed_def)
  have st: "rs_status (fst changed) = 200" by code_simp
  have u: "user_a \<in> set (pg_users (ad_pg toy_admin))" by (simp add: toy_users)
  have f: "pg_faults (ad_pg (snd changed)) = []" by code_simp
  have "hash_id id_sha (b64_rawurl_encode ''abc'') \<notin> set (map ses_hash (pg_sessions (ad_pg (snd changed))))" by code_simp
  then have fresh: "hash_id id_sha (b64_rawurl_encode ''abc'') \<notin> ses_hash ` set (pg_sessions (ad_pg (snd changed)))" by simp
  have b: "bcrypt_ok (dp_bcrypt toy_deps)" "dp_bcrypt toy_deps = toy_bcrypt" using toy_bcrypt_ok by (simp_all add: toy_deps_def)
  have "decode_password (aq_body (post_req password_body)) = Some \<lparr>pr_current = ''pw'', pr_new = ''password''\<rparr>" by code_simp
  moreover obtain req where "decode_password (aq_body (post_req password_body)) = Some req"
    "pg_faults (ad_pg (snd changed)) = [] \<and>
       hash_id id_sha (b64_rawurl_encode ''abc'') \<notin> ses_hash ` set (pg_sessions (ad_pg (snd changed))) \<longrightarrow>
     fst (fst (login toy_bcrypt id_sha 100 20 (Some ''abc'') (usr_email user_a) (pr_new req) (ad_pg (snd changed)))) =
       Inr (b64_rawurl_encode ''abc'')"
    using change_password_effect [OF b(1) toy_wf u h st, of id_sha "''abc''" 100 20] unfolding b(2) by blast
  ultimately show ?thesis using f fresh by (simp add: user_a_def)
qed

section \<open>The limiter\<close>

lemma toy_bucket_after: "bucket_after toy_rate ts n \<le> n"
proof (induction ts arbitrary: n)
  case (Cons t ts)
  have "bucket_after toy_rate (t # ts) n = bucket_after toy_rate ts (n - 1)"
    by (simp add: bucket_after_def toy_rate_def)
  then show ?case using Cons [of "n - 1"] by simp
qed (simp add: bucket_after_def)

lemma toy_bucket_oks: "length (filter id (bucket_oks toy_rate ts n)) \<le> n"
proof (induction ts arbitrary: n)
  case (Cons t ts)
  then show ?case using Cons [of "n - 1"] by (cases n) (auto simp: toy_rate_def)
qed simp

lemma toy_bucket_law: "bucket_law toy_rate"
  unfolding bucket_law_def
proof (intro allI impI)
  fix past ts :: "time list"
  assume ts: "ts \<noteq> []" "sorted (past @ ts)"
  have "hd ts \<le> last ts" using ts by (cases ts) (auto simp: sorted_append)
  then have "0 \<le> (last ts - hd ts) div login_interval"
    by (simp add: login_interval_def nano_second_def pos_imp_zdiv_nonneg_iff)
  moreover have "rl_new toy_rate login_interval login_burst = login_burst" by (simp add: toy_rate_def)
  moreover have "length (filter id (bucket_oks toy_rate ts (bucket_after toy_rate past login_burst))) \<le> login_burst"
    using toy_bucket_oks [of ts "bucket_after toy_rate past login_burst"] toy_bucket_after [of past login_burst]
    by linarith
  ultimately show "int (length (filter id (bucket_oks toy_rate ts
      (bucket_after toy_rate past (rl_new toy_rate login_interval login_burst))))) \<le>
    int login_burst + (last ts - hd ts) div login_interval" by simp
qed

definition guess_req :: "string list \<times> admin_req" where
  "guess_req = ([''admin'', ''api'', ''auth'', ''login''],
     post_req (JObj [(''email'', JStr ''a@b''), (''password'', JStr ''guess'')]))"

definition guesses :: "(string list \<times> admin_req) list" where "guesses = replicate 7 guess_req"

definition guessed :: "(response list \<times> (mem_bucket, mem_bucket, nat) admin) option" where
  "guessed = serve_all toy_deps None guesses (new_admin (ad_app toy_admin))"

theorem login_attempts_bounded_witness:
  "\<exists>rs a. serve_all toy_deps None guesses (new_admin (ad_app toy_admin)) = Some (rs, a) \<and>
     map rs_status rs = [401, 401, 401, 401, 401, 429, 429] \<and> attempts None ''10.0.0.1'' guesses rs \<le> 5"
proof -
  have v: "map_option (map rs_status \<circ> fst) guessed = Some [401, 401, 401, 401, 401, 429, 429]" by code_simp
  then obtain rs a where s: "guessed = Some (rs, a)" "map rs_status rs = [401, 401, 401, 401, 401, 429, 429]" by auto
  have t: "login_times None ''10.0.0.1'' guesses = replicate 7 10" by code_simp
  have law: "bucket_law (dp_rate toy_deps)" using toy_bucket_law by (simp add: toy_deps_def)
  have p: "serve_all toy_deps None [] (new_admin (ad_app toy_admin)) = Some ([], new_admin (ad_app toy_admin))" by simp
  have e: "login_times None ''10.0.0.1'' [] = []" by (simp add: login_times_def)
  have "int (attempts None ''10.0.0.1'' guesses rs) \<le> 5 + (last (login_times None ''10.0.0.1'' guesses) -
      hd (login_times None ''10.0.0.1'' guesses)) div (12 * nano_second)"
    using s(1) unfolding guessed_def
    by (intro login_attempts_bounded [OF law p]) (simp_all add: t e)
  then have "attempts None ''10.0.0.1'' guesses rs \<le> 5" by (simp add: t)
  then show ?thesis using s unfolding guessed_def by (intro exI conjI)
qed

section \<open>The artifacts\<close>

text \<open>The server on the directory of the janitor's example, on day 40.\<close>

definition disk_admin :: "(mem_bucket, mem_bucket, nat) admin" where
  "disk_admin = new_admin (app0\<lparr>app_world := sweep_world\<rparr>)"

lemma disk_world: "ad_world disk_admin = sweep_world"
  by (simp add: disk_admin_def new_admin_def)

lemma disk_ok: "world_local_ok (ad_world disk_admin)" "world_reliable (ad_world disk_admin)"
  "pg_faults (ad_pg disk_admin) = []"
proof -
  have "local_ok \<lparr>l_dir = ''c''\<rparr> (md_fs (dy_media (w_dyn sweep_world)))" by code_simp
  then show "world_local_ok (ad_world disk_admin)"
    unfolding disk_world by (simp add: world_local_ok_def dyn_local_ok_def sweep_world_def new_dynamic_def)
  show "world_reliable (ad_world disk_admin)" unfolding disk_world
    by (simp add: world_reliable_def dyn_reliable_def local_reliable_def sweep_world_def new_dynamic_def disk0_def)
  show "pg_faults (ad_pg disk_admin) = []" unfolding disk_world by code_simp
qed

lemma disk_view: "world_local_view (ad_world disk_admin) ''a'' = Some ([1], 0)"
  "world_local_view (ad_world disk_admin) ''b'' = Some ([2], 30 * day)"
  unfolding disk_world by code_simp+

definition prune_req :: "int \<Rightarrow> admin_req" where
  "prune_req n = (post_req (JObj [(''olderThanDays'', JInt n)]))\<lparr>aq_now := 40 * day\<rparr>"

lemma disk_view_cases:
  assumes "world_local_view (ad_world disk_admin) k = Some x"
  shows "(k = ''a'' \<and> x = ([1], 0)) \<or> (k = ''b'' \<and> x = ([2], 30 * day))"
proof -
  let ?f = "md_fs (dy_media (w_dyn sweep_world))" and ?l = "\<lparr>l_dir = ''c''\<rparr>"
  have v: "local_view ?l ?f k = Some x"
    using assms unfolding disk_world
    by (simp add: world_local_view_def dyn_local_view_def sweep_world_def new_dynamic_def)
  have n: "path_norm ''c'' = (False, [''c''])" by code_simp
  have "fs_node ?f (local_key ?l k) = map_of (fs_names ?f) (False, [''c'', k])"
    by (simp add: fs_node_key) (simp add: local_key_def n path_child_def)
  then have "k = ''a'' \<or> k = ''b''"
    using v by (auto simp: local_view_def sweep_world_def new_dynamic_def split: if_splits)
  then show ?thesis using assms disk_view by auto
qed

lemma disk_recent:
  "0 < days \<Longrightarrow> \<forall>k x. world_local_view (ad_world disk_admin) k = Some x \<longrightarrow> snd x \<le> aq_now (prune_req days)"
  using disk_view_cases by (fastforce simp: prune_req_def day_def nano_hour_def)

theorem prune_removes_old_witness:
  "(\<exists>r a'. handle_prune toy_deps user_a (prune_req 20) disk_admin = Some (r, a') \<and>
      world_local_view (ad_world a') ''a'' = None \<and> world_local_view (ad_world a') ''b'' = Some ([2], 30 * day)) \<and>
   (\<exists>r a'. handle_prune toy_deps user_a (prune_req 106752) disk_admin = Some (r, a') \<and>
      world_local_view (ad_world a') ''b'' = None)"
proof
  have d: "decode_days (aq_body (prune_req 20)) = Some 20" "(0 :: int) < 20" "(20 :: int) \<le> 106751"
    by (code_simp, simp_all)
  have now: "aq_now (prune_req 20) - 20 * (24 * nano_hour) = 20 * day"
    by (simp add: prune_req_def day_def)
  have pos: "(0 :: int) < day" by (simp add: day_def nano_hour_def)
  then have "snd ([1 :: byte], 0) < 20 * day" "\<not> snd ([2 :: byte], 30 * day) < 20 * day" by simp_all
  then show "\<exists>r a'. handle_prune toy_deps user_a (prune_req 20) disk_admin = Some (r, a') \<and>
      world_local_view (ad_world a') ''a'' = None \<and> world_local_view (ad_world a') ''b'' = Some ([2], 30 * day)"
    using prune_removes_old [OF disk_ok(1,2) d(1,2) disk_recent [OF d(2)], of toy_deps user_a] d(3) disk_view
    unfolding now by fastforce
next
  have d: "decode_days (aq_body (prune_req 106752)) = Some 106752" "(0 :: int) < 106752" by (code_simp, simp)
  show "\<exists>r a'. handle_prune toy_deps user_a (prune_req 106752) disk_admin = Some (r, a') \<and>
      world_local_view (ad_world a') ''b'' = None"
    using prune_removes_old [OF disk_ok(1,2) d disk_recent [OF d(2)], of toy_deps user_a] by blast
qed

definition bulk_req :: admin_req where
  "bulk_req = post_req (JObj [(''hashes'', JArr [JStr ''a'', JStr ''no/hash'', JStr ''a'', JStr ''x''])])"

lemma world0_ok: "world_ok mem_cloud (ad_world toy_admin)"
proof -
  have "local_ok \<lparr>l_dir = ''./data''\<rparr> (md_fs (dy_media (w_dyn (app_world app0))))"
    "dy_current (w_dyn (app_world app0)) = BLocal \<lparr>l_dir = ''./data''\<rparr>" by code_simp+
  then show ?thesis by (simp add: world_ok_def dyn_ok_def backend_ok_def toy_admin_def new_admin_def)
qed

theorem cache_deletions_witness:
  "world_view mem_cloud (ad_world toy_admin) ''h'' = None \<and>
   rs_status (fst (handle_delete_entry toy_deps ''h'' user_a delete_req toy_admin)) = 404 \<and>
   (\<exists>b'. handle_bulk_delete toy_deps user_a bulk_req disk_admin = (write_json 200 (deleted_dto 1), b') \<and>
      world_local_view (ad_world b') ''a'' = None \<and> world_local_view (ad_world b') ''b'' = Some ([2], 30 * day))"
proof -
  have l: "apis_lawful (dp_apis toy_deps) mem_cloud" using mem_apis_lawful by (simp add: toy_deps_def)
  obtain r a' where h: "handle_delete_entry toy_deps ''h'' user_a delete_req toy_admin = (r, a')" by fastforce
  have st: "rs_status (fst (handle_delete_entry toy_deps ''h'' user_a delete_req toy_admin)) = 404" by code_simp
  then have r: "rs_status r = 404" using h by simp
  have hs: "decode_hashes (aq_body bulk_req) = Some [''a'', ''no/hash'', ''a'', ''x'']" by code_simp
  obtain r2 b' where h2: "handle_bulk_delete toy_deps user_a bulk_req disk_admin = (r2, b')" by fastforce
  let ?S = "{k \<in> set [''a'', ''no/hash'', ''a'', ''x'']. valid_hash k \<and> world_local_view (ad_world disk_admin) k \<noteq> None}"
  have va: "valid_hash ''a''" by code_simp
  have "world_local_view (ad_world disk_admin) ''x'' = None" "world_local_view (ad_world disk_admin) ''no/hash'' = None"
    by (rule ccontr, use disk_view_cases in fastforce)+
  then have "?S = {''a''}" using va disk_view by auto
  then have c: "card ?S = 1" by simp
  note w = cache_deletions [OF l world0_ok h disk_ok(1,2) hs h2]
  have "r2 = write_json 200 (deleted_dto (card ?S))"
    "\<forall>k. world_local_view (ad_world b') k = (if k \<in> set [''a'', ''no/hash'', ''a'', ''x''] \<and> valid_hash k then None
       else world_local_view (ad_world disk_admin) k)"
    using w by simp_all
  then have "r2 = write_json 200 (deleted_dto 1) \<and> world_local_view (ad_world b') ''a'' = None \<and>
      world_local_view (ad_world b') ''b'' = Some ([2], 30 * day)" unfolding c using va disk_view by simp
  moreover have "world_view mem_cloud (ad_world toy_admin) ''h'' = None" using w r by blast
  ultimately show ?thesis using st h2 by blast
qed

theorem list_cache_page_witness:
  "\<exists>rows next a'. handle_list_cache toy_deps user_a (get_req\<lparr>aq_query := [(''limit'', ''9999'')]\<rparr>) disk_admin =
     (write_json 200 (list_dto rows next), a') \<and> sorted_wrt listed_before rows \<and>
     world_local_view (ad_world a') = world_local_view (ad_world disk_admin)"
  using list_cache_page [OF disk_ok refl refl refl, where d = toy_deps and u = user_a
      and q = "get_req\<lparr>aq_query := [(''limit'', ''9999'')]\<rparr>"] by blast

section \<open>Logging out\<close>

definition session_admin :: "db_fault list \<Rightarrow> (mem_bucket, mem_bucket, nat) admin" where
  "session_admin faults =
     new_admin (app0\<lparr>app_world := (app_world app0)\<lparr>w_pg := (snd one_login)\<lparr>pg_faults := faults\<rparr>\<rparr>\<rparr>)"

definition logout_req :: admin_req where
  "logout_req = (post_req JNull)\<lparr>aq_cookie := Some ''eHl6''\<rparr>"

theorem logout_effect_witness:
  "fst (current_user id_sha 10 ''eHl6'' (ad_pg (session_admin []))) = Inr user_a \<and>
   fst (current_user id_sha 10 ''eHl6'' (ad_pg (snd (handle_logout toy_deps user_a logout_req (session_admin []))))) \<in>
     {Inl StNotFound, Inl StDb} \<and>
   rs_status (fst (handle_logout toy_deps user_a logout_req (session_admin [DbLostBefore]))) = 200 \<and>
   fst (current_user id_sha 10 ''eHl6'' (ad_pg (snd (handle_logout toy_deps user_a logout_req (session_admin [DbLostBefore]))))) =
     Inr user_a"
proof -
  have c: "aq_cookie logout_req = Some ''eHl6''" "''eHl6'' \<noteq> ([] :: string)" by (simp_all add: logout_req_def)
  have sha: "dp_sha toy_deps = id_sha" by (simp add: toy_deps_def)
  have live: "current_user id_sha 10 ''eHl6'' (ad_pg (session_admin [])) = (Inr user_a, ad_pg (session_admin []))"
    by code_simp
  have pg: "(ad_pg (session_admin [DbLostBefore]))\<lparr>pg_faults := []\<rparr> = ad_pg (session_admin [])"
    "pg_faults (ad_pg (session_admin [DbLostBefore])) = [DbLostBefore]" "pg_faults (ad_pg (session_admin [])) = []"
    by (simp_all add: session_admin_def new_admin_def)
  obtain r1 a1 where 1: "handle_logout toy_deps user_a logout_req (session_admin []) = (r1, a1)" by fastforce
  obtain r2 a2 where 2: "handle_logout toy_deps user_a logout_req (session_admin [DbLostBefore]) = (r2, a2)" by fastforce
  show ?thesis
    using logout_effect [OF 1 c] logout_effect [OF 2 c] live pg 1 2 unfolding sha by simp
qed

end
