(* ===== verification/ServerExamples.thy ===== *)
theory ServerExamples
  imports ProcessProps ResponseProps SecretProps AdminExamples
begin

text \<open>
  Concrete starts and histories of the server, on which the properties of the start and of whole
  histories are applied.
\<close>

section \<open>Starts\<close>

definition toy_env :: environ where
  "toy_env k =
     (if k = ''DATABASE_URL'' then ''postgres://db/nx''
      else if k = ''SETTINGS_ENCRYPTION_KEY'' then b64_std_encode (replicate 32 CHR ''k'')
      else if k = ''COOKIE_SECURE'' then ''false''
      else if k = ''READ_TIMEOUT'' then ''45s''
      else if k = ''ADMIN_BOOTSTRAP_EMAIL'' then ''a@b''
      else if k = ''ADMIN_BOOTSTRAP_PASSWORD'' then ''password''
      else [])"

lemma toy_key: "b64_std_encode (replicate 32 CHR ''k'') \<noteq> []"
proof
  assume "b64_std_encode (replicate 32 CHR ''k'') = []"
  then have "b64_std_decode [] = Some (replicate 32 CHR ''k'')" using b64_std_roundtrip by metis
  moreover have "b64_std_decode [] = Some []" by code_simp
  ultimately show False by simp
qed

theorem config_environment_witness:
  "\<exists>c. from_env toy_env = Inr c \<and> \<not> cfg_cookie_secure c \<and> cfg_read_timeout c = 45 * nano_second \<and>
     health_url toy_env = ''http://localhost'' @ cfg_addr c @ ''/health''"
proof -
  obtain c where c: "from_env toy_env = Inr c" by (simp add: from_env_def Let_def toy_env_def toy_key)
  have "toy_env ''COOKIE_SECURE'' \<in> {''0'', ''f'', ''F'', ''FALSE'', ''false'', ''False''}" "toy_env ''PORT_ADDR'' = []"
    by (simp_all add: toy_env_def)
  moreover have "toy_env ''READ_TIMEOUT'' = show_nat 45 @ ''s''" by code_simp
  moreover have "(45 :: nat) \<le> 9223372036" by simp
  ultimately show ?thesis using config_environment [of toy_env] c by (metis of_nat_numeral)
qed

definition toy_service :: db_service where
  "toy_service = \<lparr>ds_source = True, ds_opens = (\<lambda>u. u = ''pgx5://db/nx''), ds_pool = (\<lambda>_. True)\<rparr>"

text \<open>A new database that is ready at the third attempt.\<close>

definition new_db :: database where
  "new_db = \<lparr>db_ups = [False, False], db_pings = [], db_fresh = True, db_pg = migrated_pg 0 [], db_faults = []\<rparr>"

theorem wait_for_db_attempts_witness:
  "fst (wait_for_db toy_service ''postgres://db/nx'' (\<lambda>_. False) int new_db) = WaitReady \<and>
   (\<exists>k < 15. outcome toy_service ''postgres://db/nx'' int 0 k new_db = None)"
proof -
  obtain r d' where w: "wait_for_db toy_service ''postgres://db/nx'' (\<lambda>_. False) int new_db = (r, d')" by fastforce
  have "fst (wait_for_db toy_service ''postgres://db/nx'' (\<lambda>_. False) int new_db) = WaitReady" by code_simp
  then show ?thesis using wait_for_db_attempts [OF w] w by auto
qed

definition boot_cfg :: config where
  "boot_cfg = \<lparr>cfg_addr = '':3000'', cfg_database_url = ''d'', cfg_key = ''k'', cfg_cookie_secure = True,
     cfg_bootstrap_email = ''A@b'', cfg_bootstrap_password = ''password'', cfg_read_timeout = 0,
     cfg_write_timeout = 0, cfg_shutdown_grace = 0\<rparr>"

definition booted :: "(boot_err + bool) \<times> pg" where
  "booted = bootstrap_admin toy_bcrypt boot_cfg [] 1 (migrated_pg 0 [])"

theorem bootstrap_first_account_witness:
  "fst booted = Inr True \<and>
   fst (fst (login toy_bcrypt id_sha 100 5 (Some ''xyz'') ''A@b'' ''password'' (snd booted))) = Inr ''eHl6'' \<and>
   same_tables (snd booted) (snd (bootstrap_admin toy_bcrypt boot_cfg [] 2 (snd booted)))"
proof -
  have f: "fst booted = Inr True" by code_simp
  then have b: "bootstrap_admin toy_bcrypt boot_cfg [] 1 (migrated_pg 0 []) = (Inr True, snd booted)"
    by (metis booted_def prod.collapse)
  note l = bootstrap_first_account [OF toy_bcrypt_ok migrated_wf b]
  have "pg_faults (snd booted) = []" "pg_sessions (snd booted) = []" "b64_rawurl_encode ''xyz'' = ''eHl6''" by code_simp+
  then have log: "fst (fst (login toy_bcrypt id_sha 100 5 (Some ''xyz'') ''A@b'' ''password'' (snd booted))) = Inr ''eHl6''"
    using l [where sha = id_sha and buf = "''xyz''" and ttl = 100 and at = 5] by (simp add: boot_cfg_def)
  have "bootstrap_admin toy_bcrypt boot_cfg [] 1 (migrated_pg 0 []) = booted" by (simp add: booted_def)
  then have "pg_steps (migrated_pg 0 []) (snd booted)" using bootstrap_quiet [OF b] by (simp add: quiet_steps_def)
  then have wf: "pg_wf (snd booted)" using pg_steps_wf migrated_wf by blast
  have "fst (bootstrap_admin toy_bcrypt boot_cfg [] 2 (snd booted)) = Inr False" by code_simp
  then have "bootstrap_admin toy_bcrypt boot_cfg [] 2 (snd booted) =
      (Inr False, snd (bootstrap_admin toy_bcrypt boot_cfg [] 2 (snd booted)))" by (metis prod.collapse)
  then have "same_tables (snd booted) (snd (bootstrap_admin toy_bcrypt boot_cfg [] 2 (snd booted)))"
    using bootstrap_first_account [OF toy_bcrypt_ok wf] by blast
  then show ?thesis using f log by blast
qed
section \<open>Histories\<close>

text \<open>A start on the new database, a login, and a change of the settings with its cookie.\<close>

definition toy_start :: "(mem_bucket, mem_bucket) start_input" where
  "toy_start = \<lparr>si_env = toy_env, si_cancelled = (\<lambda>_. False), si_clock = int, si_boot_now = 4, si_salt = [],
     si_embedded = Map.empty, si_files = (\<lambda>_ _. http_error [] 404),
     si_media = \<lparr>md_fs = disk0, md_s3 = bucket0, md_gcs = bucket0\<rparr>\<rparr>"

definition start_cfg :: config where
  "start_cfg = \<lparr>cfg_addr = '':3000'', cfg_database_url = ''postgres://db/nx'',
     cfg_key = b64_std_encode (replicate 32 CHR ''k''), cfg_cookie_secure = False,
     cfg_bootstrap_email = ''a@b'', cfg_bootstrap_password = ''password'', cfg_read_timeout = 45 * nano_second,
     cfg_write_timeout = 60 * nano_second, cfg_shutdown_grace = 15 * nano_second\<rparr>"

definition start_pg :: pg where
  "start_pg = snd (bootstrap_admin toy_bcrypt start_cfg [] 4 (migrated_pg 3 []))"

definition started :: "(mem_bucket, mem_bucket, nat) admin" where
  "started = new_admin (snd (load_settings mem_apis toy_cipher toy_enc (unloaded (si_media toy_start) start_pg)))"

definition run_deps :: "(mem_bucket, mem_bucket, nat) admin_deps" where
  "run_deps = start_deps toy_deps toy_enc start_cfg"

lemma toy_start_cfg: "from_env (si_env toy_start) = Inr start_cfg"
proof -
  have "show_nat 45 @ ''s'' = ''45s''" by code_simp
  then have "parse_duration ''45s'' = Some (45 * nano_second)" using parse_seconds [of 45] by simp
  then show ?thesis
    by (simp add: toy_key toy_start_def from_env_def Let_def toy_env_def start_cfg_def get_env_def get_env_bool_def
        get_env_duration_def parse_bool_def)
qed

lemma toy_start_key: "new_encryptor (cfg_key start_cfg) = Inr toy_enc"
  by (simp add: new_encryptor_def start_cfg_def toy_enc_def)

definition started_db :: database where
  "started_db = new_db\<lparr>db_ups := [], db_fresh := False, db_pg := ad_pg started\<rparr>"

lemma toy_started: "run_server toy_deps toy_service toy_start new_db = (Inr (run_deps, start_cfg, started), started_db)"
proof -
  note toy_start_key
  moreover have "wait_for_db toy_service (cfg_database_url start_cfg) (si_cancelled toy_start) (si_clock toy_start) new_db =
      (WaitReady, new_db\<lparr>db_ups := [], db_fresh := False, db_pg := migrated_pg 3 []\<rparr>)" by code_simp
  moreover have "connect_db toy_service (cfg_database_url start_cfg)
      (new_db\<lparr>db_ups := [], db_fresh := False, db_pg := migrated_pg 3 []\<rparr>) =
      (None, new_db\<lparr>db_ups := [], db_fresh := False, db_pg := migrated_pg 3 []\<rparr>)"
    by (simp add: connect_db_def toy_service_def new_db_def)
  moreover have "bootstrap_admin (dp_bcrypt toy_deps) start_cfg (si_salt toy_start) (si_boot_now toy_start) (migrated_pg 3 []) =
      (Inr True, start_pg)"
  proof -
    have "fst (bootstrap_admin toy_bcrypt start_cfg [] 4 (migrated_pg 3 [])) = Inr True" by code_simp
    then show ?thesis by (simp add: toy_deps_def toy_start_def start_pg_def prod_eq_iff)
  qed
  moreover have "load_settings (dp_apis toy_deps) (dp_cipher toy_deps) toy_enc (unloaded (si_media toy_start) start_pg) =
      (Inr (), ad_app started)"
  proof -
    have "fst (load_settings mem_apis toy_cipher toy_enc (unloaded (si_media toy_start) start_pg)) = Inr ()" by code_simp
    then show ?thesis by (simp add: toy_deps_def started_def new_admin_def prod_eq_iff)
  qed
  moreover have "new_admin (ad_app started) = started" by (simp add: started_def new_admin_def)
  ultimately show ?thesis
    by (simp add: run_server_def toy_start_cfg run_deps_def dist_fs_eq started_db_def)
qed

definition login_req :: http_req where
  "login_req = \<lparr>hq_segs = [''admin'', ''api'', ''auth'', ''login''],
     hq_admin = post_req (JObj [(''email'', JStr ''a@b''), (''password'', JStr ''password'')]),
     hq_cache = put_req\<rparr>"

definition settings_body :: "int \<Rightarrow> json" where
  "settings_body ttl = JObj [(''storageBackend'', JStr ''local''), (''localDir'', JStr ''c''),
     (''s3AccessKeyId'', JStr ''AK''), (''sessionTtlSeconds'', JInt ttl), (''maxCacheEntryBytes'', JInt 100)]"

definition put_settings_req :: http_req where
  "put_settings_req = \<lparr>hq_segs = [''admin'', ''api'', ''settings''],
     hq_admin = (post_req (settings_body 60))\<lparr>aq_meth := ''PUT'', aq_cookie := Some ''eHl6''\<rparr>,
     hq_cache = put_req\<rparr>"

definition logged_in :: "(mem_bucket, mem_bucket, nat) admin" where
  "logged_in = snd (the (main_serve run_deps (start_ui toy_start) login_req started))"

definition changed :: "(mem_bucket, mem_bucket, nat) admin" where
  "changed = snd (the (main_serve run_deps (start_ui toy_start) put_settings_req logged_in))"

lemma serve_step:
  assumes "map_option (\<lambda>_. ()) (main_serve d ui q a) = Some ()" "nonces_ok (aq_nonces (hq_admin q))"
  shows "server_step d ui a (snd (the (main_serve d ui q a)))"
proof -
  obtain r where "main_serve d ui q a = Some (r, snd (the (main_serve d ui q a)))" using assms(1) by auto
  from step_request [OF this assms(2)] show ?thesis .
qed

lemma toy_history: "server_run run_deps (start_ui toy_start) started changed"
proof -
  have n: "nonces_ok (aq_nonces (hq_admin login_req))" "nonces_ok (aq_nonces (hq_admin put_settings_req))"
    using toy_nonces_ok by (simp_all add: login_req_def put_settings_req_def post_req_def get_req_def)
  have "map_option (\<lambda>_. ()) (main_serve run_deps (start_ui toy_start) login_req started) = Some ()" by code_simp
  from serve_step [OF this n(1)] have 1: "server_step run_deps (start_ui toy_start) started logged_in" by (simp add: logged_in_def)
  have "map_option (\<lambda>_. ()) (main_serve run_deps (start_ui toy_start) put_settings_req logged_in) = Some ()" by code_simp
  from serve_step [OF this n(2)] have 2: "server_step run_deps (start_ui toy_start) logged_in changed" by (simp add: changed_def)
  show ?thesis by (rule srun_step [OF srun_step [OF srun_refl 1] 2])
qed

theorem server_invariants_witness:
  "pg_wf (ad_pg changed) \<and> app_ttl (ad_app changed) = 60 * nano_second \<and> app_max (ad_app changed) = 100 \<and>
   (\<exists>s. decrypt_settings toy_cipher (dp_enc run_deps) (pg_settings (ad_pg changed)) = Some s \<and> flags_ok s)"
proof -
  have c: "cipher_ok (dp_cipher toy_deps)" using toy_cipher_ok by (simp add: toy_deps_def)
  have f: "db_fresh new_db \<or> pg_wf (db_pg new_db) \<and> restartable run_deps (db_pg new_db)" by (simp add: new_db_def)
  have s: "se_ttl (app_settings (ad_app changed)) = 60 * nano_second" "se_max (app_settings (ad_app changed)) = 100" by code_simp+
  have d: "dp_cipher run_deps = toy_cipher" by (simp add: run_deps_def start_deps_def toy_deps_def)
  from server_invariants [OF c toy_started f toy_history] s d show ?thesis by simp
qed


section \<open>A first start, and the next one\<close>

theorem fresh_start_serves_witness:
  "\<exists>a db' r l a'. run_server toy_deps toy_service toy_start new_db = (Inr (run_deps, start_cfg, new_admin a), db') \<and>
     main_serve run_deps (start_ui toy_start) login_req (new_admin a) = Some ((r, l), a') \<and> rs_status r = 200 \<and>
     rs_cookies r = [session_cookie False (86400 * nano_second) (b64_rawurl_encode ''xyz'')]"
proof -
  have b: "bcrypt_ok (dp_bcrypt toy_deps)" using toy_bcrypt_ok by (simp add: toy_deps_def)
  have db: "db_answers toy_service (cfg_database_url start_cfg) (si_cancelled toy_start) 2 new_db" by code_simp
  have fresh: "db_fresh new_db" "db_faults new_db = []" by (simp_all add: new_db_def)
  have acct: "cfg_bootstrap_email start_cfg \<noteq> []" "cfg_bootstrap_password start_cfg \<noteq> []" by (simp_all add: start_cfg_def)
  have h: "bc_generate (dp_bcrypt toy_deps) (si_salt toy_start) (cfg_bootstrap_password start_cfg) = Some ''password''"
    by (simp add: toy_deps_def toy_bcrypt_def start_cfg_def)
  have dir: "fst (os_mkdir_all ''./data'' (md_fs (si_media toy_start))) = Inr ()" by code_simp
  have q: "hq_segs login_req = [''admin'', ''api'', ''auth'', ''login'']" "aq_meth (hq_admin login_req) = ''POST''"
    "aq_rnd (hq_admin login_req) = Some ''xyz''" "''xyz'' \<noteq> ([] :: string)"
    by (simp_all add: login_req_def post_req_def get_req_def)
  have dec: "decode_login (aq_body (hq_admin login_req)) =
      Some \<lparr>lr_email = cfg_bootstrap_email start_cfg, lr_password = cfg_bootstrap_password start_cfg\<rparr>" by code_simp
  have lim: "fst (rl_allow (dp_rate toy_deps) (aq_now (hq_admin login_req)) (rl_new (dp_rate toy_deps) login_interval login_burst))"
    by code_simp
  have d: "start_deps toy_deps toy_enc start_cfg = run_deps" "cfg_cookie_secure start_cfg = False"
    by (simp_all add: run_deps_def start_cfg_def)
  show ?thesis
    using fresh_start_serves [OF b toy_start_cfg toy_start_key db _ fresh acct h dir q(1,2) dec q(3,4) lim]
    unfolding d by auto
qed

text \<open>The first process serves the history above and is told to stop; then it is started again.\<close>

definition toy_http :: http_service where
  "toy_http = \<lparr>hv_end = (\<lambda>_. Signalled), hv_shutdown = (\<lambda>grace. 0 < grace)\<rparr>"

definition toy_events :: "server_event list" where
  "toy_events = [EvRequest login_req, EvRequest put_settings_req]"

definition left_db :: database where
  "left_db = started_db\<lparr>db_pg := ad_pg changed\<rparr>"

lemma toy_process: "main_process [] (\<lambda>_. None) toy_deps toy_service toy_http toy_start toy_events new_db = Some (0, left_db)"
proof -
  have "map_option (\<lambda>_. ()) (main_serve run_deps (start_ui toy_start) login_req started) = Some ()" by code_simp
  moreover have "map_option (\<lambda>_. ()) (main_serve run_deps (start_ui toy_start) put_settings_req logged_in) = Some ()"
    by code_simp
  ultimately have "serve_events run_deps (start_ui toy_start) toy_events started = Some changed"
    by (auto simp: toy_events_def serve_event_def logged_in_def changed_def)
  moreover have "run_end toy_http start_cfg = None"
    by (simp add: run_end_def toy_http_def start_cfg_def nano_second_def)
  ultimately show ?thesis
    by (simp add: main_process_def run_all_def toy_started left_db_def)
qed


theorem restart_serves_witness:
  "main_process [] (\<lambda>_. None) toy_deps toy_service toy_http toy_start toy_events new_db = Some (0, left_db) \<and>
   (\<exists>a db2. run_server toy_deps toy_service toy_start left_db = (Inr (run_deps, start_cfg, new_admin a), db2) \<and>
      pg_users (app_pg a) = pg_users (db_pg left_db) \<and> se_ttl (app_settings a) = 60 * nano_second)"
proof -
  have c: "cipher_ok (dp_cipher toy_deps)" using toy_cipher_ok by (simp add: toy_deps_def)
  have f: "db_fresh new_db \<or> pg_wf (db_pg new_db) \<and> restartable (start_deps toy_deps toy_enc start_cfg) (db_pg new_db)"
    by (simp add: new_db_def)
  have ev: "list_all event_ok toy_events"
    using toy_nonces_ok by (simp add: toy_events_def event_ok_def login_req_def put_settings_req_def post_req_def get_req_def)
  have left: "\<not> db_fresh left_db" "pg_faults (db_pg left_db) = []" "pg_users (db_pg left_db) \<noteq> []"
    "db_answers toy_service (cfg_database_url start_cfg) (si_cancelled toy_start) 0 left_db" by code_simp+
  have h: "cfg_bootstrap_password start_cfg = [] \<or>
      bc_generate (dp_bcrypt toy_deps) (si_salt toy_start) (cfg_bootstrap_password start_cfg) \<noteq> None"
    by (simp add: toy_deps_def toy_bcrypt_def start_cfg_def)
  have st: "case decrypt_settings toy_cipher toy_enc (pg_settings (db_pg left_db)) of None \<Rightarrow> False
      | Some s \<Rightarrow> se_ttl s = 60 * nano_second \<and>
          (case fst (build_backend mem_apis s (si_media toy_start)) of Inl _ \<Rightarrow> False | Inr _ \<Rightarrow> True)" by code_simp
  have deps: "dp_cipher toy_deps = toy_cipher" "dp_apis toy_deps = mem_apis" by (simp_all add: toy_deps_def)
  have s: "\<exists>b. fst (build_backend (dp_apis toy_deps) s (si_media toy_start)) = Inr b"
    if "decrypt_settings (dp_cipher toy_deps) toy_enc (pg_settings (db_pg left_db)) = Some s" for s
    using st that by (auto simp: deps split: sum.splits)
  have d: "start_deps toy_deps toy_enc start_cfg = run_deps" by (simp add: run_deps_def)
  show ?thesis
    using restart_serves [OF c toy_start_cfg toy_start_key f ev toy_process left(1,2) toy_start_cfg refl h left(4) _ s]
      st left(3) toy_process unfolding d deps by auto
qed

section \<open>The answer to a login\<close>

theorem response_types_witness:
  "\<exists>r l a' c. main_serve run_deps (start_ui toy_start) login_req started = Some ((r, l), a') \<and> rs_status r = 200 \<and>
     rs_cookies r = [c] \<and> ck_http_only c \<and> ck_strict c \<and> \<not> ck_secure c \<and> map ll_status l = [200]"
proof -
  have "map_option (\<lambda>((r, l), _). rs_cookies r \<noteq> []) (main_serve run_deps (start_ui toy_start) login_req started) = Some True"
    by code_simp
  then obtain r l a' where s: "main_serve run_deps (start_ui toy_start) login_req started = Some ((r, l), a')"
    and ck: "rs_cookies r \<noteq> []" by auto
  have "admin_route True (aq_meth (hq_admin login_req)) (hq_segs login_req) = AtLogin" by code_simp
  moreover have "start_ui toy_start \<noteq> None" by (simp add: start_ui_def dist_fs_eq)
  ultimately have route: "admin_route (start_ui toy_start \<noteq> None) (aq_meth (hq_admin login_req)) (hq_segs login_req) \<noteq> AtSpa" by simp
  have "dp_cookie_secure run_deps = False" by (simp add: run_deps_def start_deps_def start_cfg_def)
  moreover have "main_route (aq_meth (hq_admin login_req)) (hq_segs login_req) = MtAdmin" by code_simp
  ultimately show ?thesis using response_types [OF s route] ck s by (elim conjE) (simp; blast)
qed

section \<open>A deep link\<close>

definition toy_tree :: embed_tree where
  "toy_tree = [''dist'' \<mapsto> FsDir, ''dist/index.html'' \<mapsto> FsFile ''page'']"

theorem spa_pages_witness:
  "\<exists>tree r. dist_fs toy_tree = Some tree \<and>
     admin_serve run_deps (Some (ui_of (\<lambda>_ _. http_error [] 404) tree)) [''admin'', ''tokens''] get_req started = Some (r, started) \<and>
     rs_status r = 200 \<and> rs_body r = Text ''page''"
proof -
  have m: "aq_meth get_req = ''GET''" by (simp add: get_req_def)
  have r: "admin_route True ''GET'' [''admin'', ''tokens''] = AtSpa" by code_simp
  have i: "toy_tree ''dist/index.html'' = Some (FsFile ''page'')" by (simp add: toy_tree_def)
  have n: "''tokens'' = spa_path (path_of [''admin'', ''tokens''])" by code_simp
  obtain tree where tree: "dist_fs toy_tree = Some tree" by (simp add: dist_fs_eq)
  have "path_join ''dist'' ''tokens'' = ''dist/tokens''" by code_simp
  then have "fs_open tree ''tokens'' = None" using tree by (auto simp: dist_fs_eq fs_open_def toy_tree_def)
  then show ?thesis
    using spa_pages [where t = toy_tree and d = run_deps and files = "\<lambda>_ _. http_error [] 404" and a = started,
        OF m r i n] tree by fastforce
qed

end
