(* ===== verification/HistoryExamples.thy ===== *)
theory HistoryExamples
  imports ServerProps SecretProps AdminExamples
begin

text \<open>
  Histories of the concrete server of \<open>AdminExamples\<close>, on which the properties of revoked tokens, of
  the session lifetime and of the secrets are applied.
\<close>

section \<open>A token that is used, revoked, and refused\<close>

definition pg_read_token :: pg where
  "pg_read_token = snd (create_token 4 ''r'' ''read'' (hash_token id_sha ''r'') 1 pg_two_users)"

lemma pg_read_token_reach: "pg_reach pg_read_token"
  unfolding pg_read_token_def by (rule reach_step [OF pg_two_users_reach st_create_token])

definition token_admin :: "(mem_bucket, mem_bucket, nat) admin" where
  "token_admin = new_admin (app0\<lparr>app_world := (app_world app0)\<lparr>w_pg := pg_read_token\<rparr>\<rparr>)"

definition read_token :: token_row where
  "read_token = last (pg_tokens pg_read_token)"

definition revoked_admin :: "(mem_bucket, mem_bucket, nat) admin" where
  "revoked_admin = snd (handle_revoke_token ''2'' user_a delete_req token_admin)"

definition bearer_get :: cache_req where
  "bearer_get = \<lparr>cq_hash = [], cq_auth = ''Bearer r'', cq_body = \<lparr>rd_data = [], rd_err = False\<rparr>, cq_len = 0, cq_now = 20\<rparr>"

theorem revoked_token_refused_witness:
  "rs_status (fst (data_serve toy_deps ''GET'' [''v1'', ''cache'', ''h''] bearer_get token_admin)) = 404 \<and>
   rs_status (fst (data_serve toy_deps ''GET'' [''v1'', ''cache'', ''h''] bearer_get
     (run_task toy_deps 30 0 revoked_admin))) \<in> {400, 401, 500}"
proof
  show "rs_status (fst (data_serve toy_deps ''GET'' [''v1'', ''cache'', ''h''] bearer_get token_admin)) = 404" by code_simp
  have pg: "ad_pg token_admin = pg_read_token" by (simp add: token_admin_def new_admin_def)
  have "pg_tokens pg_read_token \<noteq> []" by code_simp
  then have t: "pg_reach (ad_pg token_admin)" "read_token \<in> set (pg_tokens (ad_pg token_admin))"
    using pg_read_token_reach by (simp_all add: pg read_token_def)
  have i: "parse_int ''2'' = Some (tok_id (row_token read_token))" by code_simp
  obtain r where r: "handle_revoke_token ''2'' user_a delete_req token_admin = (r, revoked_admin)"
    by (metis revoked_admin_def prod.collapse)
  have "rs_status (fst (handle_revoke_token ''2'' user_a delete_req token_admin)) = 204" by code_simp
  then have r2: "rs_status r = 204" using r by simp
  have run: "server_run toy_deps None revoked_admin (run_task toy_deps 30 0 revoked_admin)"
    by (rule srun_step [OF srun_refl step_task])
  have h: "hash_token (dp_sha toy_deps) (extract_bearer (cq_auth bearer_get)) = row_hash read_token" by code_simp
  obtain r3 a3 where d: "data_serve toy_deps ''GET'' [''v1'', ''cache'', ''h''] bearer_get
      (run_task toy_deps 30 0 revoked_admin) = (r3, a3)" by fastforce
  have "rs_status r3 \<in> {400, 401, 500}"
    using revoked_token_refused [OF t i r r2 run h _ _ d] by simp
  then show "rs_status (fst (data_serve toy_deps ''GET'' [''v1'', ''cache'', ''h''] bearer_get
      (run_task toy_deps 30 0 revoked_admin))) \<in> {400, 401, 500}" using d by simp
qed

section \<open>A lifetime that wraps\<close>

definition ttl_req :: admin_req where
  "ttl_req = (post_req (JObj [(''storageBackend'', JStr ''local''), (''localDir'', JStr ''c''),
     (''sessionTtlSeconds'', JInt 18446744074), (''maxCacheEntryBytes'', JInt 100)]))\<lparr>aq_meth := ''PUT''\<rparr>"

definition ttl_admin :: "(mem_bucket, mem_bucket, nat) admin" where
  "ttl_admin = snd (handle_update_settings toy_deps user_a ttl_req toy_admin)"

theorem session_ttl_seconds_witness:
  "rs_status (fst (handle_update_settings toy_deps user_a ttl_req toy_admin)) = 200 \<and>
   app_ttl (ad_app ttl_admin) = 290448384 \<and>
   app_ttl (snd (load_settings mem_apis toy_cipher toy_enc (stopped_app (ad_pg ttl_admin)))) = 0"
proof -
  have s: "rs_status (fst (handle_update_settings toy_deps user_a ttl_req toy_admin)) = 200" by code_simp
  obtain r where r: "handle_update_settings toy_deps user_a ttl_req toy_admin = (r, ttl_admin)"
    by (metis ttl_admin_def prod.collapse)
  have c: "cipher_ok (dp_cipher toy_deps)" using toy_cipher_ok by (simp add: toy_deps_def)
  have n: "nonces_ok (aq_nonces ttl_req)" using toy_nonces_ok by (simp add: ttl_req_def post_req_def get_req_def)
  have "map_option sr_ttl_seconds (decode_settings (aq_body ttl_req)) = Some 18446744074" by code_simp
  then obtain req where req: "decode_settings (aq_body ttl_req) = Some req" "sr_ttl_seconds req = 18446744074" by auto
  let ?b = "stopped_app (ad_pg ttl_admin)"
  have "fst (load_settings mem_apis toy_cipher toy_enc ?b) = Inr ()" by code_simp
  then have l: "load_settings (dp_apis toy_deps) (dp_cipher toy_deps) (dp_enc toy_deps) ?b =
      (Inr (), snd (load_settings mem_apis toy_cipher toy_enc ?b))" by (simp add: toy_deps_def prod_eq_iff)
  have p: "pg_settings (app_pg ?b) = pg_settings (ad_pg ttl_admin)" by (simp add: stopped_app_def)
  show ?thesis using session_ttl_seconds [OF c n req(1) r _ p l] s r req(2) by simp
qed

section \<open>Two servers with different secrets\<close>

definition secret_admin :: "(mem_bucket, mem_bucket, nat) admin" where
  "secret_admin = new_admin app1"

definition other_secret :: settings where
  "other_secret = (app_settings app1)\<lparr>se_s3_key := ''other''\<rparr>"

definition settings_page :: http_req where
  "settings_page = \<lparr>hq_segs = [''admin'', ''api'', ''settings''], hq_admin = get_req\<lparr>aq_cookie := Some ''eHl6''\<rparr>,
     hq_cache = bearer_get\<rparr>"


end
