(* ===== verification/Spec2Isabelle.thy ===== *)
theory Spec2Isabelle
  imports LocalRace StoreInv ServerExamples HistoryExamples
begin

text \<open>
  A model of the Nx remote cache server and the theorems that make it correct.

  The program. One Go process holds two HTTP servers. The cache server (\<open>internal/server\<close>) speaks
  the Nx remote cache protocol: a client with a bearer token uploads an artifact under a hash, once,
  and others download it. The admin server (\<open>internal/adminapi\<close>) lets people with a password list and
  remove artifacts, manage users and tokens, and change the settings. Both work on the same three
  things: the storage backend in use (\<open>internal/storage\<close>: a local directory, S3 or GCS, behind a
  reference that can be swapped while requests run), the database (\<open>internal/store\<close> over Postgres:
  users, sessions, tokens, settings, read statistics), and the live settings (\<open>internal/settings\<close>:
  the session lifetime, the size limit, and which backend is used). A janitor
  (\<open>internal/janitor\<close>) removes old artifacts in the background. \<open>cmd/server/main.go\<close> starts all of it
  from the environment (\<open>internal/config\<close>, \<open>internal/db\<close>) and ends it.

  Which theory models what.

  \<^item> \<open>Nx_Prelude\<close>: the types shared by all (bytes, strings, instants and durations as integers that
    wrap at 64 bits where Go's do), pieces of \<open>strings\<close> and \<open>strconv\<close>, generic lemmas, and the
    collection \<open>go_time\<close>.
  \<^item> \<open>GoPath\<close>, \<open>GoOs\<close>, \<open>GoEncoding\<close>, \<open>GoHttp\<close>, \<open>GoDuration\<close>: the parts of the standard library the
    source rests on: lexical paths, the file system calls over names, inodes and hard links, hex and
    base64, responses and the decoding of JSON, \<open>ParseBool\<close> and \<open>ParseDuration\<close>.
  \<^item> \<open>Storage\<close>: \<open>storage.go\<close>, and what a backend promises, as a chain of locales: \<open>guarded_store\<close>
    (no upload changes a stored artifact, and what a success stored is read back), \<open>weak_store\<close> (an
    upload stores the whole artifact or nothing), \<open>blob_store\<close> (a call that fails changes nothing),
    \<open>ordered_store\<close> (listings in key order that page through everything).
  \<^item> \<open>LocalStore\<close>, \<open>LocalContract\<close>, \<open>LocalRace\<close>: \<open>local.go\<close>; that it is an \<open>ordered_store\<close>; and any
    number of uploads interleaved call by call, as a step relation with its invariant.
  \<^item> \<open>CloudStore\<close>, \<open>CloudContract\<close>, \<open>CloudProps\<close>: \<open>s3.go\<close> and \<open>gcs.go\<close> over clients that are
    arguments; under the documented behaviour of the services (\<open>s3_lawful\<close>, \<open>gcs_lawful\<close>) S3, used by
    one client at a time, is a \<open>weak_store\<close> and GCS a \<open>guarded_store\<close>; and what goes wrong beyond that.
  \<^item> \<open>Dynamic\<close>: \<open>dynamic.go\<close> over the media of all three backends.
  \<^item> \<open>Store\<close>, \<open>StoreInv\<close>: every method of \<open>internal/store\<close> as the statement it sends, on tables with
    their constraints; a connection can be lost before or after a statement took effect. The
    integrity of the tables, and the finality of revocations and deletions, over any calls.
  \<^item> \<open>Auth\<close>, \<open>CacheServer\<close>, \<open>CacheWorld\<close>: \<open>auth.go\<close> and \<open>server.go\<close>, with the locales
    \<open>token_authenticator\<close> and \<open>cache_world\<close>, then interpreted on Postgres and the swappable backend.
  \<^item> \<open>Janitor\<close>, \<open>JanitorWorld\<close>: \<open>janitor.go\<close>, in the locale \<open>janitor_world\<close> and on the server's backend.
  \<^item> \<open>Session\<close>, \<open>Settings\<close>, \<open>SettingsProps\<close>: \<open>session.go\<close>; \<open>crypto.go\<close> and \<open>settings.go\<close>. The record
    \<open>app\<close> is the running server: what it stores on, its limit, its lifetime, its settings.
  \<^item> \<open>AdminApi\<close>, \<open>AdminCache\<close>, \<open>AdminServe\<close>: \<open>internal/adminapi\<close>, one definition per handler, the
    middleware \<open>protected\<close>, the login limiter, the routes. \<open>AdminProps\<close>, \<open>LoginLimit\<close>,
    \<open>AdminCacheProps\<close>: what the handlers do, and the bound on login attempts over a history.
  \<^item> \<open>Server\<close>: the multiplexer of \<open>main.go\<close>, \<open>httplog.go\<close>, and the step relation \<open>server_step\<close> of the
    running process (a request, a pending read-tracking task, a sweep) with its reachable states
    \<open>server_run\<close>. \<open>ServerProps\<close>, \<open>SecretProps\<close>, \<open>ResponseProps\<close>: invariants over all histories,
    what requests show of the secrets, what every answer looks like.
  \<^item> \<open>WebUi\<close>: \<open>web/embed.go\<close>. \<open>Config\<close>, \<open>Startup\<close>: \<open>config.go\<close>, \<open>db.go\<close>, and all of \<open>main.go\<close>: from the
    environment to the server that listens (\<open>run_server\<close>), what it serves (\<open>serve_events\<close>), how it
    ends (\<open>run_end\<close>), its exit code (\<open>main_process\<close>). \<open>StartupProps\<close>, \<open>ProcessProps\<close>: what the
    environment means, that every state of a started process is sound, that a first start comes up
    and that the next one does, whatever the last one did.
  \<^item> \<open>AdminExamples\<close>, \<open>ServerExamples\<close>, \<open>HistoryExamples\<close>: a concrete server with toy services, on
    which the properties are applied.

  How the state corresponds. A Go struct is a record; a method that changes it takes the state and
  returns it next to its result; an error is the left side of a sum. A handler takes a request,
  which also holds what the server draws while it handles it (its clock, the clock of the database,
  random bytes, salts, nonces), and gives a response and the next state. Packages that are not part
  of the repository are arguments: the AWS and Google clients, bcrypt, SHA-256, AES-GCM, the token
  bucket of \<open>x/time/rate\<close>, golang-migrate and pgx, the file server of \<open>net/http\<close>. What the code
  relies on of them is a named hypothesis (\<open>s3_lawful\<close>, \<open>gcs_lawful\<close>, \<open>bcrypt_ok\<close>, \<open>cipher_ok\<close>,
  the laws of the bucket), and each is shown to be satisfiable by a concrete instance.

  Order and concurrency. Requests take effect one after the other, in any order and interleaved with
  tasks and sweeps. Where the code leaves a window inside a request, the operation is cut into its
  atomic parts and the window is studied: local uploads (one file system call per step, any number of
  uploads), S3 uploads (check and write), the deletion of users (count and delete), the creation of the
  first account (count and create). A lost connection, a failing disk and a refusing service are
  schedules in the state, so a theorem about all states is one about all schedules.

  Bounds and termination. Integers that can wrap are computed modulo \<open>2 ^ 64\<close>, and the properties say
  where they do. The loops over pages of the janitor and of pruning are \<open>partial_function\<close>s, and are
  proved to return over a local directory that answers; with a backend that never ends its listing
  they do not, and then a request, a sweep and the process have no result (\<open>None\<close>). Waiting for the
  database is a recursion over the fifteen attempts of the source, and no other fuel is used. The sizes
  of pages (200, 1000, at most 500 in a listing) are those of the source.

  Not modelled. The listening socket and signals are an argument that says how serving ended, and
  whether the connections drained in the time given; time itself (the backoff between attempts, the
  janitor's ticks, timeouts of requests) appears only as the instants events carry. The durations in
  the log and the text of errors nested in messages are left out. Symbolic links and permissions of
  the local directory are left out. The decoding of HTTP and of the JSON text, cleaning of paths by the
  multiplexer, and the browser application in TypeScript are outside: a request is given by its
  segments, and a body by the value it parses to.
\<close>

end
